theory Spec2Isabelle
  imports Main "HOL-Library.Word"
begin

unbundle bit_operations_syntax

chapter \<open>The model\<close>

text \<open>
  A shallow embedding of the secure API access layer of the Diabetes:M MCP server:
  the encryption service, the encrypted cache, the credentials manager, the
  authentication manager, the rate-limited retrying client and the credentials
  set-up tool, with the locations of the local files.

  Conventions.
  \<^item> A JavaScript string is the list of its UTF-16 code units (\<open>jsstring\<close>); a
    \<^verbatim>\<open>Buffer\<close> is a list of bytes. Fixed ASCII texts of the source (file names,
    messages) are HOL strings.
  \<^item> An ISO-8601 time stamp is the instant it denotes, in milliseconds, \<open>None\<close> for a
    text that \<^verbatim>\<open>new Date\<close> cannot read (its \<^verbatim>\<open>getTime()\<close> is NaN, and every
    comparison with NaN is false).
  \<^item> A thrown \<^verbatim>\<open>Error\<close> is the \<open>Inl\<close> of a sum; \<^verbatim>\<open>null\<close> and
    \<^verbatim>\<open>undefined\<close> are \<open>None\<close>.
  \<^item> What lies outside the repository is a parameter: the primitives of
    \<^verbatim>\<open>node:crypto\<close> and of the Buffer codecs (record \<open>platform\<close>), and the machine
    and the remote server (record \<open>host\<close>).
  \<^item> Record fields keep the names of the source. Where two records of the source share
    a field name the later one carries a prefix: \<open>ce_\<close> (cache entry), \<open>sc_\<close>
    (stored credentials), \<open>st_\<close> (stored tokens), \<open>lr_\<close> (login response).
\<close>

type_synonym byte = "8 word"
type_synonym buffer = "byte list"
type_synonym jsstring = "16 word list"

section \<open>Rate limiter of the API client (src/api/client.ts, src/api/endpoints.ts)\<close>

text \<open>
  \<^verbatim>\<open>RATE_LIMIT = { INTERVAL_MS: 1000, MAX_PER_MINUTE: 30, BURST: 5 }\<close>.
  Times are \<^verbatim>\<open>Date.now()\<close> readings in milliseconds; token counts are the
  integer-valued JavaScript numbers of the source.
\<close>

definition INTERVAL_MS :: int where
  "INTERVAL_MS = 1000"

definition BURST :: int where
  "BURST = 5"

record RateLimiterState =
  lastRequest :: int
  tokens :: int
  lastRefill :: int

text \<open>
  \<^verbatim>\<open>waitForRateLimit()\<close>. The first argument is the reading of \<^verbatim>\<open>Date.now()\<close> at
  entry. The result is the duration handed to the single \<^verbatim>\<open>setTimeout\<close> (0 when the
  method does not suspend) and the updated state. The closing \<^verbatim>\<open>Date.now()\<close> is the
  entry reading plus the time suspended. \<^verbatim>\<open>Math.floor(a / b)\<close> is \<open>div\<close> on \<open>int\<close>.
\<close>

definition waitForRateLimit :: "int \<Rightarrow> RateLimiterState \<Rightarrow> int \<times> RateLimiterState" where
  "waitForRateLimit now rl =
    (let timePassed = now - lastRefill rl;
         tokensToAdd = timePassed div INTERVAL_MS;
         rl1 = (if tokensToAdd > 0
                then rl\<lparr>tokens := min BURST (tokens rl + tokensToAdd), lastRefill := now\<rparr>
                else rl);
         waitTime = INTERVAL_MS - (now - lastRequest rl1);
         slept = (if tokens rl1 \<le> 0 \<and> waitTime > 0 then waitTime else 0);
         rl2 = (if tokens rl1 \<le> 0 then rl1\<lparr>tokens := 1\<rparr> else rl1)
     in (slept, rl2\<lparr>tokens := tokens rl2 - 1, lastRequest := now + slept\<rparr>))"

text \<open>
  \<open>n\<close> consecutive acquisitions with nothing in between: the clock moves only by
  the time an acquisition itself suspends. The result lists the suspensions in order.
\<close>

fun acquisitions :: "nat \<Rightarrow> int \<Rightarrow> RateLimiterState \<Rightarrow> int list \<times> RateLimiterState" where
  "acquisitions 0 now rl = ([], rl)"
| "acquisitions (Suc n) now rl =
    (let (slept, rl') = waitForRateLimit now rl;
         (rest, rl'') = acquisitions n (now + slept) rl'
     in (slept # rest, rl''))"

section \<open>Strings and buffers: the UTF-8 codec of Buffer\<close>

text \<open>
  \<^verbatim>\<open>cipher.update(plaintext, 'utf8')\<close> and \<^verbatim>\<open>decrypted.toString('utf8')\<close> convert
  between a string and its bytes. The encoder reads the string as code points: a high
  surrogate followed by a low surrogate is one supplementary code point, and a
  surrogate code unit that stands alone is replaced by U+FFFD. The decoder replaces
  every ill-formed byte sequence by U+FFFD and resumes at the offending byte.
\<close>

definition isHighSurrogate :: "16 word \<Rightarrow> bool" where
  "isHighSurrogate u \<longleftrightarrow> 0xD800 \<le> unat u \<and> unat u \<le> 0xDBFF"

definition isLowSurrogate :: "16 word \<Rightarrow> bool" where
  "isLowSurrogate u \<longleftrightarrow> 0xDC00 \<le> unat u \<and> unat u \<le> 0xDFFF"

definition loneUnit :: "16 word \<Rightarrow> nat" where
  "loneUnit u = (if isHighSurrogate u \<or> isLowSurrogate u then 0xFFFD else unat u)"

fun codePoints :: "jsstring \<Rightarrow> nat list" where
  "codePoints [] = []"
| "codePoints [u] = [loneUnit u]"
| "codePoints (u # v # vs) =
    (if isHighSurrogate u \<and> isLowSurrogate v
     then (0x10000 + (unat u - 0xD800) * 0x400 + (unat v - 0xDC00)) # codePoints vs
     else loneUnit u # codePoints (v # vs))"

text \<open>\<^verbatim>\<open>String.prototype.isWellFormed\<close>: no surrogate code unit stands alone.\<close>

fun isWellFormed :: "jsstring \<Rightarrow> bool" where
  "isWellFormed [] = True"
| "isWellFormed [u] = (\<not> isHighSurrogate u \<and> \<not> isLowSurrogate u)"
| "isWellFormed (u # v # vs) =
    (if isHighSurrogate u \<and> isLowSurrogate v then isWellFormed vs
     else \<not> isHighSurrogate u \<and> \<not> isLowSurrogate u \<and> isWellFormed (v # vs))"

definition utf8Bytes :: "nat \<Rightarrow> buffer" where
  "utf8Bytes c =
    (if c < 0x80 then [of_nat c]
     else if c < 0x800 then [of_nat (0xC0 + c div 0x40), of_nat (0x80 + c mod 0x40)]
     else if c < 0x10000 then
       [of_nat (0xE0 + c div 0x1000), of_nat (0x80 + c div 0x40 mod 0x40), of_nat (0x80 + c mod 0x40)]
     else
       [of_nat (0xF0 + c div 0x40000), of_nat (0x80 + c div 0x1000 mod 0x40),
        of_nat (0x80 + c div 0x40 mod 0x40), of_nat (0x80 + c mod 0x40)])"

definition utf8Encode :: "jsstring \<Rightarrow> buffer" where
  "utf8Encode s = concat (map utf8Bytes (codePoints s))"

definition isCont :: "nat \<Rightarrow> nat \<Rightarrow> byte \<Rightarrow> bool" where
  "isCont lo hi b \<longleftrightarrow> lo \<le> unat b \<and> unat b \<le> hi"

text \<open>
  One step of the decoder on a non-empty input \<open>b0 # bs\<close>: the code point read (U+FFFD
  for an ill-formed sequence) and the bytes that remain.
\<close>

definition utf8Next :: "byte \<Rightarrow> buffer \<Rightarrow> nat \<times> buffer" where
  "utf8Next b0 bs =
    (let x = unat b0 in
     if x < 0x80 then (x, bs)
     else if 0xC2 \<le> x \<and> x \<le> 0xDF then
       (case bs of
          b1 # r1 \<Rightarrow>
            if isCont 0x80 0xBF b1 then ((x - 0xC0) * 0x40 + (unat b1 - 0x80), r1)
            else (0xFFFD, bs)
        | [] \<Rightarrow> (0xFFFD, []))
     else if 0xE0 \<le> x \<and> x \<le> 0xEF then
       (case bs of
          b1 # r1 \<Rightarrow>
            if isCont (if x = 0xE0 then 0xA0 else 0x80) (if x = 0xED then 0x9F else 0xBF) b1 then
              (case r1 of
                 b2 # r2 \<Rightarrow>
                   if isCont 0x80 0xBF b2
                   then ((x - 0xE0) * 0x1000 + (unat b1 - 0x80) * 0x40 + (unat b2 - 0x80), r2)
                   else (0xFFFD, r1)
               | [] \<Rightarrow> (0xFFFD, []))
            else (0xFFFD, bs)
        | [] \<Rightarrow> (0xFFFD, []))
     else if 0xF0 \<le> x \<and> x \<le> 0xF4 then
       (case bs of
          b1 # r1 \<Rightarrow>
            if isCont (if x = 0xF0 then 0x90 else 0x80) (if x = 0xF4 then 0x8F else 0xBF) b1 then
              (case r1 of
                 b2 # r2 \<Rightarrow>
                   if isCont 0x80 0xBF b2 then
                     (case r2 of
                        b3 # r3 \<Rightarrow>
                          if isCont 0x80 0xBF b3
                          then ((x - 0xF0) * 0x40000 + (unat b1 - 0x80) * 0x1000
                                  + (unat b2 - 0x80) * 0x40 + (unat b3 - 0x80), r3)
                          else (0xFFFD, r2)
                      | [] \<Rightarrow> (0xFFFD, []))
                   else (0xFFFD, r1)
               | [] \<Rightarrow> (0xFFFD, []))
            else (0xFFFD, bs)
        | [] \<Rightarrow> (0xFFFD, []))
     else (0xFFFD, bs))"

function utf8CodePoints :: "buffer \<Rightarrow> nat list" where
  "utf8CodePoints [] = []"
| "utf8CodePoints (b # bs) = fst (utf8Next b bs) # utf8CodePoints (snd (utf8Next b bs))"
  by pat_completeness auto
termination
  by (relation "measure length")
     (auto simp: utf8Next_def Let_def split: list.splits)

definition codeUnits :: "nat \<Rightarrow> jsstring" where
  "codeUnits c =
    (if c < 0x10000 then [of_nat c]
     else [of_nat (0xD800 + (c - 0x10000) div 0x400), of_nat (0xDC00 + (c - 0x10000) mod 0x400)])"

definition utf8Decode :: "buffer \<Rightarrow> jsstring" where
  "utf8Decode bs = concat (map codeUnits (utf8CodePoints bs))"

definition isScalar :: "nat \<Rightarrow> bool" where
  "isScalar c \<longleftrightarrow> c < 0x110000 \<and> \<not> (0xD800 \<le> c \<and> c \<le> 0xDFFF)"

section \<open>Errors\<close>

text \<open>
  The \<^verbatim>\<open>Error\<close> objects the code throws or meets, told apart by their message.
  \<^item> \<open>UnsupportedEncryptionVersion v\<close>: \<^verbatim>\<open>Unsupported encryption version: v\<close>;
  \<^item> \<open>DecryptionFailed\<close>: \<^verbatim>\<open>Decryption failed: data may be corrupted or key is incorrect\<close>;
  \<^item> \<open>InvalidKeyLength\<close>, \<open>InvalidIV\<close>, \<open>InvalidAuthTagLength n\<close>: raised by
    \<^verbatim>\<open>createCipheriv\<close>, \<^verbatim>\<open>createDecipheriv\<close> and \<^verbatim>\<open>setAuthTag\<close>;
  \<^item> \<open>TypeError\<close>: a value that is not a string where a string is required;
  \<^item> \<open>MasterKeyError\<close>: whatever \<^verbatim>\<open>keyringManager.getMasterKey()\<close> throws
    (\<^verbatim>\<open>Failed to decrypt master key from file\<close>, a file-system error);
  \<^item> \<open>NoCredentialsAvailable\<close>: \<^verbatim>\<open>No credentials available. Please provide email and password.\<close>;
  \<^item> \<open>AuthenticationRequired\<close>: \<^verbatim>\<open>Authentication required. Please configure credentials first.\<close>;
  \<^item> \<open>ZodError\<close>: the input of a tool does not match its schema;
  \<^item> \<open>FailedToStoreCredentials e\<close>: \<^verbatim>\<open>Failed to store credentials: \<close> followed by the
    message of \<open>e\<close>.
\<close>

datatype jsError =
    UnsupportedEncryptionVersion int
  | DecryptionFailed
  | InvalidKeyLength
  | InvalidIV
  | InvalidAuthTagLength nat
  | TypeError
  | MasterKeyError
  | NoCredentialsAvailable
  | AuthenticationRequired
  | ZodError
  | FailedToStoreCredentials jsError

section \<open>Encryption service (security/encryption.ts, types/security.ts)\<close>

record SecurityConfig =
  keySize :: nat
  ivSize :: nat
  saltSize :: nat
  tagSize :: nat
  pbkdf2Iterations :: nat
  cacheTtlMs :: int
  rateLimit :: int
  auditRetentionDays :: int

definition DEFAULT_SECURITY_CONFIG :: SecurityConfig where
  "DEFAULT_SECURITY_CONFIG =
    \<lparr>keySize = 32, ivSize = 16, saltSize = 64, tagSize = 16, pbkdf2Iterations = 100000,
     cacheTtlMs = 5 * 60 * 1000, rateLimit = 1, auditRetentionDays = 90\<rparr>"

record EncryptedData =
  data :: jsstring
  version :: int
  timestamp :: "int option"

definition ENCRYPTION_VERSION :: int where
  "ENCRYPTION_VERSION = 1"

text \<open>
  The primitives of the platform the service calls.
  \<^item> \<open>pbkdf2Sync P password salt iterations keylen\<close> is
    \<^verbatim>\<open>pbkdf2Sync(password, salt, iterations, keylen, 'sha512')\<close>.
  \<^item> \<open>gcmEncrypt P key iv plaintext\<close> is the pair of \<^verbatim>\<open>cipher.update(..) ++ cipher.final()\<close>
    and \<^verbatim>\<open>cipher.getAuthTag()\<close> of \<^verbatim>\<open>createCipheriv('aes-256-gcm', key, iv)\<close>.
  \<^item> \<open>gcmDecrypt P key iv tag ciphertext\<close> is \<^verbatim>\<open>decipher.update(..) ++ decipher.final()\<close>
    after \<^verbatim>\<open>setAuthTag(tag)\<close>, \<open>None\<close> when \<^verbatim>\<open>final()\<close> throws because the tag does
    not verify.
  \<^item> \<open>base64Encode\<close> and \<open>base64Decode\<close> are \<^verbatim>\<open>buf.toString('base64')\<close> and
    \<^verbatim>\<open>Buffer.from(s, 'base64')\<close>; \<open>sha256Hex\<close> is
    \<^verbatim>\<open>createHash('sha256').update(s).digest('hex')\<close>.
\<close>

record platform =
  pbkdf2Sync :: "buffer \<Rightarrow> buffer \<Rightarrow> nat \<Rightarrow> nat \<Rightarrow> buffer"
  gcmEncrypt :: "buffer \<Rightarrow> buffer \<Rightarrow> buffer \<Rightarrow> buffer \<times> buffer"
  gcmDecrypt :: "buffer \<Rightarrow> buffer \<Rightarrow> buffer \<Rightarrow> buffer \<Rightarrow> buffer option"
  base64Encode :: "buffer \<Rightarrow> jsstring"
  base64Decode :: "jsstring \<Rightarrow> buffer"
  sha256Hex :: "jsstring \<Rightarrow> jsstring"

text \<open>
  What the code relies on: the derived key has the length asked for, a sealed message
  opens under the same key, IV and tag (the tag of AES-GCM is 16 bytes), and the base64
  decoder inverts the encoder.
\<close>

definition platform_ok :: "platform \<Rightarrow> bool" where
  "platform_ok P \<longleftrightarrow>
     (\<forall>pw salt it n. length (pbkdf2Sync P pw salt it n) = n)
   \<and> (\<forall>key iv pt. length key = 32 \<and> iv \<noteq> [] \<longrightarrow>
         length (snd (gcmEncrypt P key iv pt)) = 16
       \<and> gcmDecrypt P key iv (snd (gcmEncrypt P key iv pt)) (fst (gcmEncrypt P key iv pt)) = Some pt)
   \<and> (\<forall>bs. base64Decode P (base64Encode P bs) = bs)"

text \<open>
  The argument checks of \<^verbatim>\<open>createCipheriv\<close> and \<^verbatim>\<open>createDecipheriv\<close> for
  \<^verbatim>\<open>'aes-256-gcm'\<close> (a 32-byte key, an IV that is not empty), and of
  \<^verbatim>\<open>setAuthTag\<close> when the decipher was created without \<^verbatim>\<open>authTagLength\<close>: a tag of
  4, 8 or 12 to 16 bytes is taken, and \<^verbatim>\<open>final()\<close> compares that many bytes.
\<close>

definition cipherivError :: "buffer \<Rightarrow> buffer \<Rightarrow> jsError option" where
  "cipherivError key iv =
    (if length key \<noteq> 32 then Some InvalidKeyLength
     else if iv = [] then Some InvalidIV
     else None)"

definition validGCMTagLength :: "nat \<Rightarrow> bool" where
  "validGCMTagLength n \<longleftrightarrow> n = 4 \<or> n = 8 \<or> (12 \<le> n \<and> n \<le> 16)"

text \<open>\<^verbatim>\<open>buf.subarray(start, end)\<close> for \<open>start \<le> end\<close>; both ends are clamped to the buffer.\<close>

definition subarray :: "nat \<Rightarrow> nat \<Rightarrow> buffer \<Rightarrow> buffer" where
  "subarray start end buf = take (end - start) (drop start buf)"

text \<open>
  \<^verbatim>\<open>encrypt(plaintext, masterKey)\<close>. The two results of \<^verbatim>\<open>randomBytes\<close> (\<open>salt\<close>,
  \<open>iv\<close>) and the clock reading of \<^verbatim>\<open>new Date()\<close> are arguments.
\<close>

definition encrypt ::
  "platform \<Rightarrow> buffer \<Rightarrow> buffer \<Rightarrow> int \<Rightarrow> jsstring \<Rightarrow> buffer \<Rightarrow> jsError + EncryptedData" where
  "encrypt P salt iv now plaintext masterKey =
    (let config = DEFAULT_SECURITY_CONFIG;
         key = pbkdf2Sync P masterKey salt (pbkdf2Iterations config) (keySize config)
     in case cipherivError key iv of
          Some e \<Rightarrow> Inl e
        | None \<Rightarrow>
            (let (encrypted, authTag) = gcmEncrypt P key iv (utf8Encode plaintext);
                 combined = salt @ iv @ authTag @ encrypted
             in Inr \<lparr>data = base64Encode P combined, version = ENCRYPTION_VERSION,
                     timestamp = Some now\<rparr>))"

text \<open>
  \<^verbatim>\<open>decrypt(encryptedData, masterKey)\<close>. The version check throws first. The four
  slices are cut with \<^verbatim>\<open>subarray\<close>, which does not fail on a short buffer.
  \<^verbatim>\<open>createDecipheriv\<close> and \<^verbatim>\<open>setAuthTag\<close> stand before the \<^verbatim>\<open>try\<close> block, so
  their errors leave the method as they are; a failure of \<^verbatim>\<open>final()\<close> is rethrown as
  \<open>DecryptionFailed\<close>.
\<close>

definition decrypt :: "platform \<Rightarrow> EncryptedData \<Rightarrow> buffer \<Rightarrow> jsError + jsstring" where
  "decrypt P encryptedData masterKey =
    (if version encryptedData \<noteq> ENCRYPTION_VERSION
     then Inl (UnsupportedEncryptionVersion (version encryptedData))
     else
       let config = DEFAULT_SECURITY_CONFIG;
           combined = base64Decode P (data encryptedData);
           salt = subarray 0 (saltSize config) combined;
           iv = subarray (saltSize config) (saltSize config + ivSize config) combined;
           authTag = subarray (saltSize config + ivSize config)
                       (saltSize config + ivSize config + tagSize config) combined;
           encrypted = drop (saltSize config + ivSize config + tagSize config) combined;
           key = pbkdf2Sync P masterKey salt (pbkdf2Iterations config) (keySize config)
       in case cipherivError key iv of
            Some e \<Rightarrow> Inl e
          | None \<Rightarrow>
              if \<not> validGCMTagLength (length authTag)
              then Inl (InvalidAuthTagLength (length authTag))
              else (case gcmDecrypt P key iv authTag encrypted of
                      None \<Rightarrow> Inl DecryptionFailed
                    | Some decrypted \<Rightarrow> Inr (utf8Decode decrypted)))"

text \<open>\<^verbatim>\<open>decrypt(encrypt(p, k), k)\<close>, and the size in bytes of the payload of a blob.\<close>

definition roundTrip ::
  "platform \<Rightarrow> buffer \<Rightarrow> buffer \<Rightarrow> int \<Rightarrow> jsstring \<Rightarrow> buffer \<Rightarrow> jsError + jsstring" where
  "roundTrip P salt iv now p k =
    (case encrypt P salt iv now p k of Inl e \<Rightarrow> Inl e | Inr blob \<Rightarrow> decrypt P blob k)"

definition payloadLength :: "platform \<Rightarrow> EncryptedData \<Rightarrow> nat" where
  "payloadLength P blob = length (base64Decode P (data blob))"

text \<open>The blob whose payload is cut down to its first \<open>n\<close> bytes.\<close>

definition truncatePayload :: "platform \<Rightarrow> nat \<Rightarrow> EncryptedData \<Rightarrow> EncryptedData" where
  "truncatePayload P n blob = blob\<lparr>data := base64Encode P (take n (base64Decode P (data blob)))\<rparr>"

subsection \<open>A small platform to run the model on\<close>

text \<open>
  An instance of \<open>platform\<close> that meets \<open>platform_ok\<close> and can be evaluated: a
  repeating-key XOR stream with a 16-byte keyed checksum in place of AES-GCM, key
  stretching by padding, and one code unit per byte in place of base64. Like
  \<^verbatim>\<open>decipher.final()\<close> it compares as many tag bytes as \<^verbatim>\<open>setAuthTag\<close> was given.
  It stands for \<^verbatim>\<open>node:crypto\<close> only where a theorem is run on concrete data.
\<close>

definition toyKeystream :: "buffer \<Rightarrow> buffer \<Rightarrow> nat \<Rightarrow> buffer" where
  "toyKeystream key iv n = map (\<lambda>i. (key @ iv) ! (i mod length (key @ iv))) [0..<n]"

definition toyXor :: "buffer \<Rightarrow> buffer \<Rightarrow> buffer" where
  "toyXor xs ks = map2 (XOR) xs ks"

definition toyTag :: "buffer \<Rightarrow> buffer \<Rightarrow> buffer \<Rightarrow> buffer" where
  "toyTag key iv ct = take 16 (map (\<lambda>b. b XOR foldr (XOR) (iv @ ct) 0) key)"

definition toyPlatform :: platform where
  "toyPlatform =
    \<lparr>pbkdf2Sync = (\<lambda>pw salt it n. take n (pw @ salt @ replicate n 0)),
     gcmEncrypt = (\<lambda>key iv pt.
        (toyXor pt (toyKeystream key iv (length pt)),
         toyTag key iv (toyXor pt (toyKeystream key iv (length pt))))),
     gcmDecrypt = (\<lambda>key iv tag ct.
        if tag = take (length tag) (toyTag key iv ct)
        then Some (toyXor ct (toyKeystream key iv (length ct)))
        else None),
     base64Encode = map ucast,
     base64Decode = map ucast,
     sha256Hex = (\<lambda>s. s)\<rparr>"

section \<open>The host: machine, key ring and remote server\<close>

text \<open>
  A path is the list of its components; \<^verbatim>\<open>path.join\<close> of normal components appends.
  An environment variable that is unset or empty (both falsy under \<^verbatim>\<open>||\<close>) is \<open>None\<close>.
\<close>

type_synonym path = "string list"

datatype os = Win32 | Darwin | OtherOS

text \<open>
  What \<^verbatim>\<open>fetch\<close> yields for a call of the client: a response, the abort of the
  timeout, or a network error with its message. Of a response the client uses the
  status, the value of \<^verbatim>\<open>headers.get('Retry-After')\<close> (\<open>None\<close> is \<^verbatim>\<open>null\<close>, the
  header is not there), and the body, which \<^verbatim>\<open>response.text()\<close> and
  \<^verbatim>\<open>response.json()\<close> read only afterwards: \<open>BodyText t\<close> when the read yields the
  text \<open>t\<close>, \<open>BodyError msg\<close> when the read is rejected.
\<close>

datatype bodyRead = BodyText jsstring | BodyError jsstring

record httpResponse =
  status :: nat
  retryAfter :: "jsstring option"
  responseBody :: bodyRead

datatype fetchResult = Response httpResponse | Aborted | NetworkFailure jsstring

text \<open>
  A member of a JSON object as the authentication manager uses it: a string, any other
  value that is truthy (a number that is not 0, \<^verbatim>\<open>true\<close>, an object), any other
  value that is falsy (the member is not there, \<^verbatim>\<open>null\<close>, \<^verbatim>\<open>false\<close>, 0). The empty
  string is the one string that is falsy.
\<close>

datatype jsValue = Str jsstring | Truthy | Falsy

definition truthy :: "jsValue \<Rightarrow> bool" where
  "truthy v \<longleftrightarrow> (case v of Str s \<Rightarrow> s \<noteq> [] | Truthy \<Rightarrow> True | Falsy \<Rightarrow> False)"

text \<open>
  The body of a login response as \<^verbatim>\<open>performLogin\<close> reads it. \<open>InvalidJson\<close>: the read
  or the parse of \<^verbatim>\<open>response.json()\<close> throws, or the value is \<^verbatim>\<open>null\<close> (the access
  to its member throws). \<open>JsonBody token wrapped\<close> otherwise: \<open>token\<close> is
  \<open>Some t\<close> when \<^verbatim>\<open>data.token\<close> is the string \<open>t\<close>, and \<open>wrapped\<close> is
  \<open>Some (token', sessionId')\<close> when \<^verbatim>\<open>data.success\<close> is truthy and \<^verbatim>\<open>data.data\<close> is an
  object, with the members \<^verbatim>\<open>token\<close> and \<^verbatim>\<open>sessionId\<close> of that object.
  \<open>LoginHttp cookies status body\<close> carries the name=value parts of the
  \<^verbatim>\<open>Set-Cookie\<close> headers.
\<close>

datatype loginBody = JsonBody "jsstring option" "(jsValue \<times> jsValue) option" | InvalidJson

datatype loginResult = LoginHttp "jsstring list" nat loginBody | LoginAborted | LoginFailed jsstring

text \<open>
  \<^item> \<open>getMasterKey\<close>: the outcome of \<^verbatim>\<open>keyringManager.getMasterKey()\<close>, the key or the
    error it throws (a fallback key file that does not decrypt is such an error);
  \<^item> \<open>randomBytes H i n\<close>: the bytes of the \<open>i\<close>-th call \<^verbatim>\<open>randomBytes(n)\<close>;
  \<^item> \<open>fetchResponse H i method endpoint body\<close>: the outcome of the \<open>i\<close>-th \<^verbatim>\<open>fetch\<close>
    of \<^verbatim>\<open>request\<close>; \<open>loginResponse\<close> and \<open>verifyResponse\<close> likewise for the login
    POST and the session check (\<^verbatim>\<open>response.ok\<close>, false on a network error);
  \<^item> \<open>keytarAvailable\<close>, \<open>homedir\<close>, \<open>osPlatform\<close>, \<open>LOCALAPPDATA\<close>,
    \<open>XDG_CONFIG_HOME\<close>: the machine.

  Every operation that is awaited settles: each remote call has one of the outcomes
  above. A call that stays pending for ever (the session check is made without a
  timeout, and a body is read after the timeout of its request has been cleared) has no
  outcome here, so what is proved about a result holds provided the calls settle.
\<close>

record host =
  getMasterKey :: "jsError + buffer"
  randomBytes :: "nat \<Rightarrow> nat \<Rightarrow> buffer"
  fetchResponse :: "nat \<Rightarrow> jsstring \<Rightarrow> jsstring \<Rightarrow> jsstring option \<Rightarrow> fetchResult"
  loginResponse :: "nat \<Rightarrow> jsstring \<Rightarrow> jsstring \<Rightarrow> loginResult"
  verifyResponse :: "nat \<Rightarrow> jsstring \<Rightarrow> bool"
  keytarAvailable :: bool
  homedir :: path
  osPlatform :: os
  LOCALAPPDATA :: "path option"
  XDG_CONFIG_HOME :: "path option"

definition host_ok :: "host \<Rightarrow> bool" where
  "host_ok H \<longleftrightarrow> (\<forall>i n. length (randomBytes H i n) = n)"

text \<open>\<^verbatim>\<open>JSON.stringify\<close> (\<open>None\<close>: it throws or yields \<^verbatim>\<open>undefined\<close>) and
  \<^verbatim>\<open>JSON.parse\<close> (\<open>None\<close>: it throws) on the values of type \<open>'v\<close>.\<close>

record 'v jsonCodec =
  stringify :: "'v \<Rightarrow> jsstring option"
  parse :: "jsstring \<Rightarrow> 'v option"

section \<open>Locations of the local files (types/security.ts, security/credentials.ts,
  security/audit.ts, security/keyring.ts)\<close>

definition CREDENTIALS_FILE_NAME :: string where
  "CREDENTIALS_FILE_NAME = ''diabetesm-credentials.enc''"

definition TOKENS_FILE_NAME :: string where
  "TOKENS_FILE_NAME = ''diabetesm-tokens.enc''"

definition AUDIT_LOG_FILE_NAME :: string where
  "AUDIT_LOG_FILE_NAME = ''diabetesm-audit.log''"

definition PERSONAL_AUDIT_LOG_FILE_NAME :: string where
  "PERSONAL_AUDIT_LOG_FILE_NAME = ''diabetesm-personal-audit.log''"

definition pathJoin :: "path \<Rightarrow> path \<Rightarrow> path" where
  "pathJoin p q = p @ q"

definition getConfigDir :: "host \<Rightarrow> path" where
  "getConfigDir H =
    (case osPlatform H of
       Win32 \<Rightarrow>
         pathJoin (case LOCALAPPDATA H of Some p \<Rightarrow> p
                   | None \<Rightarrow> pathJoin (homedir H) [''AppData'', ''Local''])
           [''diabetes-m-mcp'']
     | Darwin \<Rightarrow> pathJoin (homedir H) [''Library'', ''Application Support'', ''diabetes-m-mcp'']
     | OtherOS \<Rightarrow>
         pathJoin (case XDG_CONFIG_HOME H of Some p \<Rightarrow> p
                   | None \<Rightarrow> pathJoin (homedir H) [''.config''])
           [''diabetes-m-mcp''])"

text \<open>\<^verbatim>\<open>CONFIG_DIR\<close> of credentials.ts and of audit.ts, and the files below it.\<close>

definition credentials_CONFIG_DIR :: "host \<Rightarrow> path" where
  "credentials_CONFIG_DIR H = pathJoin (homedir H) [''.diabetesm'']"

definition CREDENTIALS_PATH :: "host \<Rightarrow> path" where
  "CREDENTIALS_PATH H = pathJoin (credentials_CONFIG_DIR H) [CREDENTIALS_FILE_NAME]"

definition TOKENS_PATH :: "host \<Rightarrow> path" where
  "TOKENS_PATH H = pathJoin (credentials_CONFIG_DIR H) [TOKENS_FILE_NAME]"

definition audit_CONFIG_DIR :: "host \<Rightarrow> path" where
  "audit_CONFIG_DIR H = pathJoin (homedir H) [''.diabetesm'']"

definition AUDIT_LOG_PATH :: "host \<Rightarrow> path" where
  "AUDIT_LOG_PATH H = pathJoin (audit_CONFIG_DIR H) [AUDIT_LOG_FILE_NAME]"

definition PERSONAL_AUDIT_LOG_PATH :: "host \<Rightarrow> path" where
  "PERSONAL_AUDIT_LOG_PATH H = pathJoin (audit_CONFIG_DIR H) [PERSONAL_AUDIT_LOG_FILE_NAME]"

text \<open>\<^verbatim>\<open>CONFIG_DIR\<close> of keyring.ts and the fallback key file.\<close>

definition keyring_CONFIG_DIR :: "host \<Rightarrow> path" where
  "keyring_CONFIG_DIR H = getConfigDir H"

definition FALLBACK_KEY_FILE :: "host \<Rightarrow> path" where
  "FALLBACK_KEY_FILE H = pathJoin (keyring_CONFIG_DIR H) [''master.key.enc'']"

text \<open>The directory a file is written into.\<close>

definition dirname :: "path \<Rightarrow> path" where
  "dirname p = butlast p"

text \<open>A host to evaluate on: a Linux machine without \<^verbatim>\<open>XDG_CONFIG_HOME\<close>.\<close>

definition linuxHost :: host where
  "linuxHost =
    \<lparr>getMasterKey = Inr (replicate 32 1),
     randomBytes = (\<lambda>i n. replicate n (of_nat i)),
     fetchResponse = (\<lambda>i method endpoint body. Response \<lparr>status = 503, retryAfter = None, responseBody = BodyText []\<rparr>),
     loginResponse = (\<lambda>i email password. LoginHttp [] 401 (JsonBody None None)),
     verifyResponse = (\<lambda>i token. False),
     keytarAvailable = False,
     homedir = [''home'', ''user''],
     osPlatform = OtherOS,
     LOCALAPPDATA = None,
     XDG_CONFIG_HOME = None\<rparr>"

section \<open>Encrypted cache (cache/encrypted-cache.ts)\<close>

text \<open>
  \<open>ce_data\<close> is \<^verbatim>\<open>data: T | string\<close>: \<open>Inl\<close> a plain value, \<open>Inr\<close> the base64 text of
  an encrypted one. The object holds the map of entries under hashed keys and the
  master key once loaded.
\<close>

record 'v CacheEntry =
  ce_data :: "'v + jsstring"
  encrypted :: bool
  ce_expiresAt :: int
  ce_createdAt :: int

record 'v EncryptedCache =
  cache :: "jsstring \<rightharpoonup> 'v CacheEntry"
  masterKey :: "buffer option"

text \<open>The object as constructed: \<^verbatim>\<open>new Map()\<close> and \<^verbatim>\<open>masterKey = null\<close>.\<close>

definition newEncryptedCache :: "'v EncryptedCache" where
  "newEncryptedCache = \<lparr>cache = Map.empty, masterKey = None\<rparr>"

definition hashKey :: "platform \<Rightarrow> jsstring \<Rightarrow> jsstring" where
  "hashKey P key = sha256Hex P key"

definition EncryptedCache_ensureMasterKey ::
  "host \<Rightarrow> 'v EncryptedCache \<Rightarrow> (jsError + buffer) \<times> 'v EncryptedCache" where
  "EncryptedCache_ensureMasterKey H c =
    (case masterKey c of
       Some k \<Rightarrow> (Inr k, c)
     | None \<Rightarrow>
         (case getMasterKey H of
            Inl e \<Rightarrow> (Inl e, c)
          | Inr k \<Rightarrow> (Inr k, c\<lparr>masterKey := Some k\<rparr>)))"

text \<open>
  \<^verbatim>\<open>set(key, data, ttlMs, encrypt)\<close> at clock reading \<open>now\<close>; \<open>salt\<close> and \<open>iv\<close> are the
  random bytes \<^verbatim>\<open>encrypt\<close> draws. \<open>Inl\<close> is the error the method throws.
\<close>

definition EncryptedCache_set ::
  "platform \<Rightarrow> 'v jsonCodec \<Rightarrow> host \<Rightarrow> buffer \<Rightarrow> buffer \<Rightarrow> int \<Rightarrow> jsstring \<Rightarrow> 'v \<Rightarrow> int \<Rightarrow> bool
     \<Rightarrow> 'v EncryptedCache \<Rightarrow> (jsError + unit) \<times> 'v EncryptedCache" where
  "EncryptedCache_set P J H salt iv now key v ttlMs encryptFlag c =
    (let hashedKey = hashKey P key in
     if encryptFlag then
       (case EncryptedCache_ensureMasterKey H c of
          (Inl e, c1) \<Rightarrow> (Inl e, c1)
        | (Inr mk, c1) \<Rightarrow>
            (case stringify J v of
               None \<Rightarrow> (Inl TypeError, c1)
             | Some text \<Rightarrow>
                 (case encrypt P salt iv now text mk of
                    Inl e \<Rightarrow> (Inl e, c1)
                  | Inr blob \<Rightarrow>
                      (Inr (), c1\<lparr>cache := (cache c1)(hashedKey \<mapsto>
                         \<lparr>ce_data = Inr (data blob), encrypted = True,
                          ce_expiresAt = now + ttlMs, ce_createdAt = now\<rparr>)\<rparr>))))
     else
       (Inr (), c\<lparr>cache := (cache c)(hashedKey \<mapsto>
          \<lparr>ce_data = Inl v, encrypted = False, ce_expiresAt = now + ttlMs, ce_createdAt = now\<rparr>)\<rparr>))"

text \<open>
  \<^verbatim>\<open>get(key)\<close> at clock reading \<open>now\<close>: the value returned (\<open>None\<close> is \<^verbatim>\<open>null\<close>) and
  the cache afterwards. The \<^verbatim>\<open>try\<close> block covers the loading of the master key, the
  decryption and \<^verbatim>\<open>JSON.parse\<close>; its \<^verbatim>\<open>catch\<close> deletes the entry. An entry that is
  not encrypted is returned as it is stored (\<^verbatim>\<open>entry.data as T\<close>).
\<close>

definition EncryptedCache_get ::
  "platform \<Rightarrow> 'v jsonCodec \<Rightarrow> host \<Rightarrow> int \<Rightarrow> jsstring \<Rightarrow> 'v EncryptedCache
     \<Rightarrow> ('v + jsstring) option \<times> 'v EncryptedCache" where
  "EncryptedCache_get P J H now key c =
    (let hashedKey = hashKey P key in
     case cache c hashedKey of
       None \<Rightarrow> (None, c)
     | Some entry \<Rightarrow>
         if now > ce_expiresAt entry then (None, c\<lparr>cache := (cache c)(hashedKey := None)\<rparr>)
         else if encrypted entry then
           (case EncryptedCache_ensureMasterKey H c of
              (Inl e, c1) \<Rightarrow> (None, c1\<lparr>cache := (cache c1)(hashedKey := None)\<rparr>)
            | (Inr mk, c1) \<Rightarrow>
                (case ce_data entry of
                   Inl v \<Rightarrow> (None, c1\<lparr>cache := (cache c1)(hashedKey := None)\<rparr>)
                 | Inr text \<Rightarrow>
                     (case decrypt P \<lparr>data = text, version = 1, timestamp = None\<rparr> mk of
                        Inl e \<Rightarrow> (None, c1\<lparr>cache := (cache c1)(hashedKey := None)\<rparr>)
                      | Inr decrypted \<Rightarrow>
                          (case parse J decrypted of
                             None \<Rightarrow> (None, c1\<lparr>cache := (cache c1)(hashedKey := None)\<rparr>)
                           | Some v \<Rightarrow> (Some (Inl v), c1)))))
         else (Some (ce_data entry), c))"

text \<open>Whether the payload of an encrypted entry fails to decrypt.\<close>

definition decryptFails :: "platform \<Rightarrow> host \<Rightarrow> 'v EncryptedCache \<Rightarrow> 'v CacheEntry \<Rightarrow> bool" where
  "decryptFails P H c entry =
    (case EncryptedCache_ensureMasterKey H c of
       (Inl e, c1) \<Rightarrow> True
     | (Inr k, c1) \<Rightarrow>
         (case ce_data entry of
            Inl v \<Rightarrow> True
          | Inr str \<Rightarrow> isl (decrypt P \<lparr>data = str, version = 1, timestamp = None\<rparr> k)))"

subsection \<open>A JSON codec to run the model on\<close>

text \<open>Values are texts and the codec is the identity: enough to evaluate the cache.\<close>

definition textCodec :: "jsstring jsonCodec" where
  "textCodec = \<lparr>stringify = Some, parse = Some\<rparr>"

text \<open>
  A second codec, for a value that does not come back: \<^verbatim>\<open>JSON.stringify(NaN)\<close> is
  \<^verbatim>\<open>"null"\<close>, and \<^verbatim>\<open>JSON.parse("null")\<close> is \<^verbatim>\<open>null\<close>.
\<close>

datatype numberOrNull = JsNaN | JsNull

definition nanCodec :: "numberOrNull jsonCodec" where
  "nanCodec =
    \<lparr>stringify = (\<lambda>v. Some [0x6E, 0x75, 0x6C, 0x6C]),
     parse = (\<lambda>s. if s = [0x6E, 0x75, 0x6C, 0x6C] then Some JsNull else None)\<rparr>"

section \<open>The state of the process and of the disk\<close>

text \<open>
  A JSON file of the configuration directory: \<open>Unparsable\<close> when \<^verbatim>\<open>JSON.parse\<close>
  rejects its text, otherwise the document it holds.
\<close>

datatype 'd jsonFile = Unparsable | Document 'd

record StoredCredentials =
  sc_email :: EncryptedData
  sc_password :: EncryptedData
  sc_createdAt :: "int option"
  sc_updatedAt :: "int option"

record StoredTokens =
  st_accessToken :: EncryptedData
  st_sessionId :: "EncryptedData option"
  st_expiresAt :: "int option"
  st_createdAt :: "int option"

record AuthState =
  accessToken :: jsValue
  sessionId :: jsValue
  cookies :: "jsstring list"
  isAuthenticated :: bool
  lastAuth :: "int option"

datatype sleepKind = RateLimitWait | RetryAfterWait | BackoffWait

datatype event =
    CredentialsWritten
  | TokensWritten
  | TokensDeleted
  | VerifyRequest
  | LoginRequest
  | ApiRequest nat
  | Slept sleepKind int

text \<open>
  \<^item> \<open>clock\<close>: what \<^verbatim>\<open>Date.now()\<close> reads; it advances by the time a timer set
    with \<^verbatim>\<open>setTimeout\<close> runs;
  \<^item> \<open>diskCredentials\<close>, \<open>diskTokens\<close>: the files at \<open>CREDENTIALS_PATH\<close> and
    \<open>TOKENS_PATH\<close>, \<open>None\<close> when the file does not exist;
  \<^item> \<open>cmMasterKey\<close>: the field \<^verbatim>\<open>masterKey\<close> of the credentials manager;
  \<^item> \<open>authState\<close>: the field \<^verbatim>\<open>state\<close> of the authentication manager;
  \<^item> \<open>rateLimiter\<close>: the field of the client;
  \<^item> \<open>randomCalls\<close>, \<open>httpCalls\<close>, \<open>loginCalls\<close>, \<open>verifyCalls\<close>: how many
    times \<^verbatim>\<open>randomBytes\<close>, the \<^verbatim>\<open>fetch\<close> of \<^verbatim>\<open>request\<close>, the login POST and the
    session check have been called;
  \<^item> \<open>trace\<close>: the writes, the remote calls and the sleeps (each with the time its
    timer runs), in the order they happen.
  Audit logging and the creation of the directory change none of these and are left out.
\<close>

record world =
  clock :: int
  diskCredentials :: "StoredCredentials jsonFile option"
  diskTokens :: "StoredTokens jsonFile option"
  cmMasterKey :: "buffer option"
  authState :: AuthState
  rateLimiter :: RateLimiterState
  randomCalls :: nat
  httpCalls :: nat
  loginCalls :: nat
  verifyCalls :: nat
  trace :: "event list"

text \<open>
  The state when the process starts at time \<open>t\<close> with an empty configuration
  directory: the singletons as constructed, the bucket full.
\<close>

definition initialWorld :: "int \<Rightarrow> world" where
  "initialWorld t =
    \<lparr>clock = t, diskCredentials = None, diskTokens = None, cmMasterKey = None,
     authState = \<lparr>accessToken = Falsy, sessionId = Falsy, cookies = [],
                  isAuthenticated = False, lastAuth = None\<rparr>,
     rateLimiter = \<lparr>lastRequest = 0, tokens = BURST, lastRefill = t\<rparr>,
     randomCalls = 0, httpCalls = 0, loginCalls = 0, verifyCalls = 0, trace = []\<rparr>"

text \<open>
  \<^verbatim>\<open>await new Promise(resolve => setTimeout(resolve, delay))\<close>. The delay is a
  JavaScript number, \<open>None\<close> when it is \<^verbatim>\<open>NaN\<close>. Node runs a timer whose delay is
  not between 1 and \<open>TIMEOUT_MAX = 2\<^sup>3\<^sup>1 - 1\<close> with a delay of 1 ms.
\<close>

definition TIMEOUT_MAX :: int where
  "TIMEOUT_MAX = 2147483647"

definition timerDelay :: "int option \<Rightarrow> int" where
  "timerDelay delay =
    (case delay of
       None \<Rightarrow> 1
     | Some ms \<Rightarrow> if 1 \<le> ms \<and> ms \<le> TIMEOUT_MAX then ms else 1)"

definition sleep :: "sleepKind \<Rightarrow> int option \<Rightarrow> world \<Rightarrow> world" where
  "sleep kind delay w =
    w\<lparr>clock := clock w + timerDelay delay, trace := trace w @ [Slept kind (timerDelay delay)]\<rparr>"

text \<open>\<^verbatim>\<open>encryptionService.encrypt\<close> with its two draws of random bytes.\<close>

definition encryptW ::
  "platform \<Rightarrow> host \<Rightarrow> jsstring \<Rightarrow> buffer \<Rightarrow> world \<Rightarrow> (jsError + EncryptedData) \<times> world" where
  "encryptW P H plaintext mk w =
    (let salt = randomBytes H (randomCalls w) (saltSize DEFAULT_SECURITY_CONFIG);
         iv = randomBytes H (randomCalls w + 1) (ivSize DEFAULT_SECURITY_CONFIG)
     in (encrypt P salt iv (clock w) plaintext mk, w\<lparr>randomCalls := randomCalls w + 2\<rparr>))"

text \<open>
  \<^verbatim>\<open>encrypt\<close> called with a value that need not be a string. A value that is not a
  string passes \<^verbatim>\<open>randomBytes\<close>, \<^verbatim>\<open>pbkdf2Sync\<close> and \<^verbatim>\<open>createCipheriv\<close> as any
  text does, and \<^verbatim>\<open>cipher.update(plaintext, 'utf8')\<close> then throws a \<^verbatim>\<open>TypeError\<close>.
\<close>

definition encryptV ::
  "platform \<Rightarrow> host \<Rightarrow> jsValue \<Rightarrow> buffer \<Rightarrow> world \<Rightarrow> (jsError + EncryptedData) \<times> world" where
  "encryptV P H v mk w =
    (case v of
       Str s \<Rightarrow> encryptW P H s mk w
     | _ \<Rightarrow>
         (case encryptW P H [] mk w of
            (Inl e, w1) \<Rightarrow> (Inl e, w1)
          | (Inr blob, w1) \<Rightarrow> (Inl TypeError, w1)))"

section \<open>Credentials manager (security/credentials.ts)\<close>

definition CredentialsManager_ensureMasterKey :: "host \<Rightarrow> world \<Rightarrow> (jsError + buffer) \<times> world" where
  "CredentialsManager_ensureMasterKey H w =
    (case cmMasterKey w of
       Some k \<Rightarrow> (Inr k, w)
     | None \<Rightarrow>
         (case getMasterKey H of
            Inl e \<Rightarrow> (Inl e, w)
          | Inr k \<Rightarrow> (Inr k, w\<lparr>cmMasterKey := Some k\<rparr>)))"

text \<open>The master key the credentials manager will work with: the one it holds, else the
  one the key ring yields; \<open>None\<close> when it holds none and the key ring throws.\<close>

definition availableKey :: "host \<Rightarrow> world \<Rightarrow> buffer option" where
  "availableKey H w =
    (case cmMasterKey w of
       Some k \<Rightarrow> Some k
     | None \<Rightarrow> (case getMasterKey H of Inl e \<Rightarrow> None | Inr k \<Rightarrow> Some k))"

definition storeCredentials ::
  "platform \<Rightarrow> host \<Rightarrow> jsstring \<Rightarrow> jsstring \<Rightarrow> world \<Rightarrow> (jsError + unit) \<times> world" where
  "storeCredentials P H email password w =
    (case CredentialsManager_ensureMasterKey H w of
       (Inl e, w1) \<Rightarrow> (Inl e, w1)
     | (Inr mk, w1) \<Rightarrow>
         (let now = clock w1 in
          case encryptW P H email mk w1 of
            (Inl e, w2) \<Rightarrow> (Inl e, w2)
          | (Inr encEmail, w2) \<Rightarrow>
              (case encryptW P H password mk w2 of
                 (Inl e, w3) \<Rightarrow> (Inl e, w3)
               | (Inr encPassword, w3) \<Rightarrow>
                   (Inr (), w3\<lparr>diskCredentials := Some (Document
                        \<lparr>sc_email = encEmail, sc_password = encPassword,
                         sc_createdAt = Some now, sc_updatedAt = Some now\<rparr>),
                      trace := trace w3 @ [CredentialsWritten]\<rparr>))))"

definition getCredentials ::
  "platform \<Rightarrow> host \<Rightarrow> world \<Rightarrow> (jsstring \<times> jsstring) option \<times> world" where
  "getCredentials P H w =
    (case diskCredentials w of
       None \<Rightarrow> (None, w)
     | Some file \<Rightarrow>
         (case CredentialsManager_ensureMasterKey H w of
            (Inl e, w1) \<Rightarrow> (None, w1)
          | (Inr mk, w1) \<Rightarrow>
              (case file of
                 Unparsable \<Rightarrow> (None, w1)
               | Document doc \<Rightarrow>
                   (case decrypt P (sc_email doc) mk of
                      Inl e \<Rightarrow> (None, w1)
                    | Inr email \<Rightarrow>
                        (case decrypt P (sc_password doc) mk of
                           Inl e \<Rightarrow> (None, w1)
                         | Inr password \<Rightarrow> (Some (email, password), w1))))))"

definition deleteTokens :: "world \<Rightarrow> world" where
  "deleteTokens w =
    (if diskTokens w \<noteq> None
     then w\<lparr>diskTokens := None, trace := trace w @ [TokensDeleted]\<rparr>
     else w)"

text \<open>
  \<^verbatim>\<open>storeTokens(accessToken, sessionId?, expiresAt?)\<close>. A session id that is falsy is
  stored as \<^verbatim>\<open>undefined\<close>; a missing expiry is 24 hours from now.
\<close>

definition storeTokens ::
  "platform \<Rightarrow> host \<Rightarrow> jsValue \<Rightarrow> jsValue \<Rightarrow> int option \<Rightarrow> world
     \<Rightarrow> (jsError + unit) \<times> world" where
  "storeTokens P H token sid expiresAt w =
    (case CredentialsManager_ensureMasterKey H w of
       (Inl e, w1) \<Rightarrow> (Inl e, w1)
     | (Inr mk, w1) \<Rightarrow>
         (let now = clock w1;
              expiry = (case expiresAt of Some t \<Rightarrow> t | None \<Rightarrow> clock w1 + 24 * 60 * 60 * 1000)
          in case encryptV P H token mk w1 of
               (Inl e, w2) \<Rightarrow> (Inl e, w2)
             | (Inr encToken, w2) \<Rightarrow>
                 (case (if truthy sid
                        then (case encryptV P H sid mk w2 of
                                (Inl e, w3) \<Rightarrow> (Inl e, w3)
                              | (Inr encSid, w3) \<Rightarrow> (Inr (Some encSid), w3))
                        else (Inr None, w2)) of
                    (Inl e, w3) \<Rightarrow> (Inl e, w3)
                  | (Inr encSid, w3) \<Rightarrow>
                      (Inr (), w3\<lparr>diskTokens := Some (Document
                          \<lparr>st_accessToken = encToken, st_sessionId = encSid,
                           st_expiresAt = Some expiry, st_createdAt = Some now\<rparr>),
                         trace := trace w3 @ [TokensWritten]\<rparr>))))"

text \<open>
  \<^verbatim>\<open>getTokens()\<close>. Inside the \<^verbatim>\<open>try\<close> block the master key is loaded first, then
  the file is parsed, then \<^verbatim>\<open>expiresAt <= new Date()\<close> decides; every error ends in
  the \<^verbatim>\<open>catch\<close>, which returns \<^verbatim>\<open>null\<close> and leaves the file.
\<close>

definition getTokens ::
  "platform \<Rightarrow> host \<Rightarrow> world \<Rightarrow> (jsstring \<times> jsstring option) option \<times> world" where
  "getTokens P H w =
    (case diskTokens w of
       None \<Rightarrow> (None, w)
     | Some file \<Rightarrow>
         (case CredentialsManager_ensureMasterKey H w of
            (Inl e, w1) \<Rightarrow> (None, w1)
          | (Inr mk, w1) \<Rightarrow>
              (case file of
                 Unparsable \<Rightarrow> (None, w1)
               | Document doc \<Rightarrow>
                   if (case st_expiresAt doc of Some t \<Rightarrow> t \<le> clock w1 | None \<Rightarrow> False)
                   then (None, deleteTokens w1)
                   else
                     (case decrypt P (st_accessToken doc) mk of
                        Inl e \<Rightarrow> (None, w1)
                      | Inr token \<Rightarrow>
                          (case st_sessionId doc of
                             None \<Rightarrow> (Some (token, None), w1)
                           | Some encSid \<Rightarrow>
                               (case decrypt P encSid mk of
                                  Inl e \<Rightarrow> (None, w1)
                                | Inr sid \<Rightarrow> (Some (token, Some sid), w1)))))))"

text \<open>A session document that expired at time 50, to evaluate \<^verbatim>\<open>getTokens\<close> on.\<close>

definition expiredSession :: StoredTokens where
  "expiredSession =
    \<lparr>st_accessToken = \<lparr>data = [], version = 1, timestamp = Some 0\<rparr>, st_sessionId = None,
     st_expiresAt = Some 50, st_createdAt = Some 0\<rparr>"

section \<open>Authentication manager (api/auth.ts)\<close>

record LoginResponse =
  lr_success :: bool
  lr_token :: jsValue
  lr_sessionId :: jsValue

definition httpOk :: "nat \<Rightarrow> bool" where
  "httpOk s \<longleftrightarrow> 200 \<le> s \<and> s \<le> 299"

definition loginFailure :: LoginResponse where
  "loginFailure = \<lparr>lr_success = False, lr_token = Falsy, lr_sessionId = Falsy\<rparr>"

text \<open>
  \<^verbatim>\<open>performLogin(email, password)\<close>: it never throws; the cookies of the response
  replace the stored ones when there are any. A \<^verbatim>\<open>data.token\<close> that is a string and
  not empty makes the direct form; anything else falls through to the wrapped form.
\<close>

definition performLogin :: "host \<Rightarrow> jsstring \<Rightarrow> jsstring \<Rightarrow> world \<Rightarrow> LoginResponse \<times> world" where
  "performLogin H email password w =
    (let w1 = w\<lparr>loginCalls := loginCalls w + 1, trace := trace w @ [LoginRequest]\<rparr> in
     case loginResponse H (loginCalls w) email password of
       LoginHttp setCookies st body \<Rightarrow>
         (let w2 = (if setCookies \<noteq> []
                    then w1\<lparr>authState := (authState w1)\<lparr>cookies := setCookies\<rparr>\<rparr> else w1) in
          if \<not> httpOk st then (loginFailure, w2)
          else
            (case body of
               InvalidJson \<Rightarrow> (loginFailure, w2)
             | JsonBody token wrapped \<Rightarrow>
                 (case (case token of Some t \<Rightarrow> if t \<noteq> [] then Some t else None
                                    | None \<Rightarrow> None) of
                    Some t \<Rightarrow> (\<lparr>lr_success = True, lr_token = Str t, lr_sessionId = Falsy\<rparr>, w2)
                  | None \<Rightarrow>
                      (case wrapped of
                         Some (token', sessionId') \<Rightarrow>
                           (\<lparr>lr_success = True, lr_token = token', lr_sessionId = sessionId'\<rparr>, w2)
                       | None \<Rightarrow> (loginFailure, w2)))))
     | LoginAborted \<Rightarrow> (loginFailure, w1)
     | LoginFailed msg \<Rightarrow> (loginFailure, w1))"

definition verifySession :: "host \<Rightarrow> jsstring \<Rightarrow> jsstring option \<Rightarrow> world \<Rightarrow> bool \<times> world" where
  "verifySession H token sid w =
    (verifyResponse H (verifyCalls w) token,
     w\<lparr>verifyCalls := verifyCalls w + 1, trace := trace w @ [VerifyRequest]\<rparr>)"

text \<open>\<^verbatim>\<open>value || null\<close>.\<close>

definition orNull :: "jsValue \<Rightarrow> jsValue" where
  "orNull v = (if truthy v then v else Falsy)"

text \<open>
  The fresh login at the end of \<^verbatim>\<open>login\<close>. The state is set before
  \<^verbatim>\<open>storeTokens\<close> is awaited, so it stays set when \<^verbatim>\<open>storeTokens\<close> throws.
\<close>

definition freshLogin ::
  "platform \<Rightarrow> host \<Rightarrow> jsstring \<Rightarrow> jsstring \<Rightarrow> world \<Rightarrow> (jsError + bool) \<times> world" where
  "freshLogin P H email password w =
    (case performLogin H email password w of
       (response, w1) \<Rightarrow>
         if lr_success response \<and> truthy (lr_token response) then
           (let w2 = w1\<lparr>authState := (authState w1)
                       \<lparr>accessToken := lr_token response,
                        sessionId := orNull (lr_sessionId response),
                        isAuthenticated := True,
                        lastAuth := Some (clock w1)\<rparr>\<rparr> in
            case storeTokens P H (lr_token response) (lr_sessionId response)
                   (Some (clock w2 + 24 * 60 * 60 * 1000)) w2 of
              (Inl e, w3) \<Rightarrow> (Inl e, w3)
            | (Inr u, w3) \<Rightarrow> (Inr True, w3))
         else (Inr False, w1))"

text \<open>
  \<^verbatim>\<open>login(email?, password?)\<close>: \<open>Inl\<close> the error it throws, \<open>Inr\<close> the boolean it
  returns. Credentials given explicitly (both truthy) are stored first; a stored
  session that the server still accepts is adopted without a fresh login.
\<close>

definition explicitCredentials ::
  "jsstring option \<Rightarrow> jsstring option \<Rightarrow> (jsstring \<times> jsstring) option" where
  "explicitCredentials email password =
    (case (email, password) of
       (Some e, Some p) \<Rightarrow> if e \<noteq> [] \<and> p \<noteq> [] then Some (e, p) else None
     | _ \<Rightarrow> None)"

definition storedSessionId :: "jsstring option \<Rightarrow> jsValue" where
  "storedSessionId sid = (case sid of Some s \<Rightarrow> orNull (Str s) | None \<Rightarrow> Falsy)"

definition login ::
  "platform \<Rightarrow> host \<Rightarrow> jsstring option \<Rightarrow> jsstring option \<Rightarrow> world \<Rightarrow> (jsError + bool) \<times> world" where
  "login P H email password w =
    (case (case explicitCredentials email password of
             Some (e, p) \<Rightarrow>
               (case storeCredentials P H e p w of
                  (Inl err, w1) \<Rightarrow> (Inl err, w1)
                | (Inr u, w1) \<Rightarrow> (Inr (Some (e, p)), w1))
           | None \<Rightarrow> (case getCredentials P H w of (creds, w1) \<Rightarrow> (Inr creds, w1))) of
       (Inl err, w1) \<Rightarrow> (Inl err, w1)
     | (Inr None, w1) \<Rightarrow> (Inl NoCredentialsAvailable, w1)
     | (Inr (Some (em, pw)), w1) \<Rightarrow>
         (case getTokens P H w1 of
            (None, w2) \<Rightarrow> freshLogin P H em pw w2
          | (Some (token, sid), w2) \<Rightarrow>
              (case verifySession H token sid w2 of
                 (isValid, w3) \<Rightarrow>
                   if isValid then
                     (Inr True, w3\<lparr>authState := (authState w3)
                        \<lparr>accessToken := Str token,
                         sessionId := storedSessionId sid,
                         isAuthenticated := True,
                         lastAuth := Some (clock w3)\<rparr>\<rparr>)
                   else freshLogin P H em pw w3)))"

definition ensureAuthenticated :: "platform \<Rightarrow> host \<Rightarrow> world \<Rightarrow> (jsError + unit) \<times> world" where
  "ensureAuthenticated P H w =
    (if \<not> isAuthenticated (authState w) then
       (case login P H None None w of
          (Inl e, w1) \<Rightarrow> (Inl e, w1)
        | (Inr ok, w1) \<Rightarrow> if \<not> ok then (Inl AuthenticationRequired, w1) else (Inr (), w1))
     else (Inr (), w))"

definition handleAuthError :: "platform \<Rightarrow> host \<Rightarrow> world \<Rightarrow> (jsError + bool) \<times> world" where
  "handleAuthError P H w =
    login P H None None
      (deleteTokens (w\<lparr>authState := (authState w)\<lparr>isAuthenticated := False, accessToken := Falsy\<rparr>\<rparr>))"

section \<open>API client (api/client.ts, api/endpoints.ts)\<close>

definition MAX_RETRIES :: nat where
  "MAX_RETRIES = 3"

definition INITIAL_DELAY :: int where
  "INITIAL_DELAY = 1000"

definition BACKOFF_FACTOR :: int where
  "BACKOFF_FACTOR = 2"

definition MAX_DELAY :: int where
  "MAX_DELAY = 10000"

definition RETRYABLE_STATUS_CODES :: "nat list" where
  "RETRYABLE_STATUS_CODES = [408, 429, 500, 502, 503, 504]"

datatype ErrorCode =
    AUTH_FAILED
  | SESSION_EXPIRED
  | RATE_LIMITED
  | NETWORK_ERROR
  | INVALID_RESPONSE
  | API_CHANGED
  | NOT_FOUND
  | PERMISSION_DENIED
  | VALIDATION_ERROR
  | UNKNOWN_ERROR

text \<open>
  What the \<^verbatim>\<open>catch\<close> block of \<^verbatim>\<open>request\<close> can receive: the abort of the timeout, a
  rejected \<^verbatim>\<open>fetch\<close> or body read with its message, a body that
  \<^verbatim>\<open>response.json()\<close> cannot parse, or an error thrown by \<^verbatim>\<open>handleAuthError\<close>. The message of a result is a fixed
  text, \<^verbatim>\<open>Request failed: \<close> followed by the status, or the message of what was
  caught.
\<close>

datatype caught = AbortError | FetchError jsstring | JsonError | Thrown jsError

datatype apiMessage = Fixed string | RequestFailed nat | MessageOf caught

record ApiError =
  code :: ErrorCode
  message :: apiMessage
  details :: "jsstring option"

record 'v ApiResponse =
  success :: bool
  ar_data :: "'v option"
  error :: "ApiError option"
  ar_timestamp :: int

definition failure :: "ErrorCode \<Rightarrow> apiMessage \<Rightarrow> jsstring option \<Rightarrow> world \<Rightarrow> 'v ApiResponse" where
  "failure c m d w =
    \<lparr>success = False, ar_data = None,
     error = Some \<lparr>code = c, message = m, details = d\<rparr>, ar_timestamp = clock w\<rparr>"

text \<open>
  \<^verbatim>\<open>waitForRateLimit\<close> on the state of the client, with the sleep it makes; the
  closing \<^verbatim>\<open>Date.now()\<close> is read after the timer has run.
\<close>

definition waitForRateLimitW :: "world \<Rightarrow> world" where
  "waitForRateLimitW w =
    (let (slept, rl) = waitForRateLimit (clock w) (rateLimiter w);
         w1 = (if slept > 0 then sleep RateLimitWait (Some slept) w else w)
     in w1\<lparr>rateLimiter := rl\<lparr>lastRequest := clock w1\<rparr>\<rparr>)"

text \<open>
  \<^verbatim>\<open>Math.min(INITIAL_DELAY * Math.pow(BACKOFF_FACTOR, retryCount), MAX_DELAY)\<close>.
\<close>

definition backoffDelay :: "nat \<Rightarrow> int" where
  "backoffDelay retryCount = min (INITIAL_DELAY * BACKOFF_FACTOR ^ retryCount) MAX_DELAY"

text \<open>
  One call of \<^verbatim>\<open>request\<close> up to the point where it returns, throws or calls itself:
  \<open>Done r\<close> when it returns the result \<open>r\<close> or throws (\<open>Inl\<close>), \<open>Again\<close> when it
  has slept and is about to call itself with \<open>retryCount + 1\<close>.

  \<^verbatim>\<open>waitForRateLimit\<close> and \<^verbatim>\<open>ensureAuthenticated\<close> are awaited before the
  \<^verbatim>\<open>try\<close> block. \<open>tryBlock\<close> is the \<^verbatim>\<open>try\<close> statement, from the \<^verbatim>\<open>fetch\<close> on, and
  \<open>onCatch\<close> its \<^verbatim>\<open>catch\<close> block. A recursive call is returned without \<^verbatim>\<open>await\<close>, so
  what it throws is not caught here.
\<close>

datatype 'v step = Done "jsError + 'v ApiResponse" | Again

definition onCatch :: "caught \<Rightarrow> nat \<Rightarrow> world \<Rightarrow> 'v step \<times> world" where
  "onCatch err retryCount w =
    (if err = AbortError
     then (Done (Inr (failure NETWORK_ERROR (Fixed ''Request timed out'') None w)), w)
     else if retryCount < MAX_RETRIES
     then (Again, sleep BackoffWait (Some (backoffDelay retryCount)) w)
     else (Done (Inr (failure NETWORK_ERROR (MessageOf err) None w)), w))"

text \<open>
  \<^verbatim>\<open>parseInt(s, 10)\<close>: white space at the start is skipped, a sign is read, then the
  longest run of decimal digits; \<open>None\<close> is \<^verbatim>\<open>NaN\<close>, the result when there is no digit.
  (Beyond \<open>2\<^sup>5\<^sup>3\<close> the source rounds; the timers below run the same either way.)
\<close>

definition isWhiteSpace :: "16 word \<Rightarrow> bool" where
  "isWhiteSpace c \<longleftrightarrow>
     c \<in> {0x09, 0x0A, 0x0B, 0x0C, 0x0D, 0x20, 0xA0, 0x1680, 0x2028, 0x2029, 0x202F, 0x205F,
          0x3000, 0xFEFF}
     \<or> (0x2000 \<le> c \<and> c \<le> 0x200A)"

definition isDigit :: "16 word \<Rightarrow> bool" where
  "isDigit c \<longleftrightarrow> 0x30 \<le> c \<and> c \<le> 0x39"

definition digitsValue :: "jsstring \<Rightarrow> int" where
  "digitsValue ds = foldl (\<lambda>acc c. 10 * acc + (uint c - 0x30)) 0 ds"

definition parseInt10 :: "jsstring \<Rightarrow> int option" where
  "parseInt10 s =
    (let s1 = dropWhile isWhiteSpace s;
         negative = (s1 \<noteq> [] \<and> hd s1 = 0x2D);
         s2 = (if s1 \<noteq> [] \<and> (hd s1 = 0x2B \<or> hd s1 = 0x2D) then tl s1 else s1);
         ds = takeWhile isDigit s2
     in if ds = [] then None
        else Some (if negative then - digitsValue ds else digitsValue ds))"

text \<open>
  \<^verbatim>\<open>parseInt(response.headers.get('Retry-After') || '60', 10) * 1000\<close>, the delay
  handed to \<^verbatim>\<open>setTimeout\<close> after a 429.
\<close>

definition retryAfterDelay :: "httpResponse \<Rightarrow> int option" where
  "retryAfterDelay response =
    map_option (\<lambda>seconds. seconds * 1000)
      (parseInt10 (case retryAfter response of
                     None \<Rightarrow> [0x36, 0x30]
                   | Some h \<Rightarrow> if h = [] then [0x36, 0x30] else h))"

definition tryBlock ::
  "platform \<Rightarrow> 'v jsonCodec \<Rightarrow> host \<Rightarrow> jsstring \<Rightarrow> jsstring \<Rightarrow> jsstring option \<Rightarrow> nat \<Rightarrow> world
     \<Rightarrow> 'v step \<times> world" where
  "tryBlock P J H method endpoint body retryCount w2 =
    (let w3 = w2\<lparr>httpCalls := httpCalls w2 + 1, trace := trace w2 @ [ApiRequest retryCount]\<rparr> in
     case fetchResponse H (httpCalls w2) method endpoint body of
       Aborted \<Rightarrow> onCatch AbortError retryCount w3
     | NetworkFailure msg \<Rightarrow> onCatch (FetchError msg) retryCount w3
     | Response response \<Rightarrow>
         if status response = 401 then
           (case handleAuthError P H w3 of
              (Inl e, w4) \<Rightarrow> onCatch (Thrown e) retryCount w4
            | (Inr reauthed, w4) \<Rightarrow>
                if reauthed \<and> retryCount < 1 then (Again, w4)
                else (Done (Inr (failure SESSION_EXPIRED (Fixed ''Session expired'') None w4)), w4))
         else if status response = 429 then
           (if retryCount < MAX_RETRIES
            then (Again, sleep RetryAfterWait (retryAfterDelay response) w3)
            else (Done (Inr (failure RATE_LIMITED (Fixed ''Rate limited'') None w3)), w3))
         else if status response \<in> set RETRYABLE_STATUS_CODES \<and> retryCount < MAX_RETRIES
         then (Again, sleep BackoffWait (Some (backoffDelay retryCount)) w3)
         else
           (case responseBody response of
              BodyError msg \<Rightarrow> onCatch (FetchError msg) retryCount w3
            | BodyText str \<Rightarrow>
                if \<not> httpOk (status response)
                then (Done (Inr (failure INVALID_RESPONSE (RequestFailed (status response))
                                   (Some str) w3)), w3)
                else
                  (case parse J str of
                     None \<Rightarrow> onCatch JsonError retryCount w3
                   | Some v \<Rightarrow>
                       (Done (Inr \<lparr>success = True, ar_data = Some v, error = None,
                                   ar_timestamp = clock w3\<rparr>), w3))))"

definition attempt ::
  "platform \<Rightarrow> 'v jsonCodec \<Rightarrow> host \<Rightarrow> jsstring \<Rightarrow> jsstring \<Rightarrow> jsstring option \<Rightarrow> nat \<Rightarrow> world
     \<Rightarrow> 'v step \<times> world" where
  "attempt P J H method endpoint body retryCount w =
    (case ensureAuthenticated P H (waitForRateLimitW w) of
       (Inl e, w2) \<Rightarrow> (Done (Inl e), w2)
     | (Inr u, w2) \<Rightarrow> tryBlock P J H method endpoint body retryCount w2)"

text \<open>
  \<^verbatim>\<open>request(method, endpoint, body, retryCount)\<close>: \<open>Inl\<close> the error it throws, \<open>Inr\<close>
  the result object it returns, and the state afterwards.
\<close>

function request ::
  "platform \<Rightarrow> 'v jsonCodec \<Rightarrow> host \<Rightarrow> jsstring \<Rightarrow> jsstring \<Rightarrow> jsstring option \<Rightarrow> nat \<Rightarrow> world
     \<Rightarrow> (jsError + 'v ApiResponse) \<times> world" where
  "request P J H method endpoint body retryCount w =
    (case attempt P J H method endpoint body retryCount w of
       (Done r, w') \<Rightarrow> (r, w')
     | (Again, w') \<Rightarrow> request P J H method endpoint body (retryCount + 1) w')"
  by pat_completeness auto
termination
  apply (relation "measure (\<lambda>(P, J, H, method, endpoint, body, retryCount, w). MAX_RETRIES - retryCount)")
   apply simp
  apply (auto simp: attempt_def tryBlock_def onCatch_def Let_def MAX_RETRIES_def
      split: prod.splits sum.splits fetchResult.splits if_splits option.splits bodyRead.splits)
  done

declare request.simps [simp del]

definition authenticate ::
  "platform \<Rightarrow> host \<Rightarrow> jsstring \<Rightarrow> jsstring \<Rightarrow> world \<Rightarrow> (jsError + bool) \<times> world" where
  "authenticate P H email password w = login P H (Some email) (Some password) w"

section \<open>The set-up tool (tools/setup-credentials.ts)\<close>

text \<open>
  The argument of the tool: \<open>SetupArgs email password\<close> when it is an object whose two
  members are strings, \<open>Malformed\<close> otherwise. The schema also requires both strings
  to have at least one character.
\<close>

datatype setupInput = Malformed | SetupArgs jsstring jsstring

record SetupCredentialsResult =
  sr_success :: bool
  sr_message :: string
  storageLocation :: path
  encryptionMethod :: string
  keyStorage :: string
  credentialsFile :: path

definition setupResult :: "host \<Rightarrow> bool \<Rightarrow> string \<Rightarrow> SetupCredentialsResult" where
  "setupResult H ok msg =
    \<lparr>sr_success = ok, sr_message = msg,
     storageLocation = credentials_CONFIG_DIR H,
     encryptionMethod = ''AES-256-GCM with PBKDF2 key derivation'',
     keyStorage = (if keytarAvailable H
        then ''OS Keyring (Windows Credential Vault / macOS Keychain / Linux Secret Service)''
        else ''Encrypted file''),
     credentialsFile = pathJoin (getConfigDir H) [CREDENTIALS_FILE_NAME]\<rparr>"

definition executeSetupCredentials ::
  "platform \<Rightarrow> host \<Rightarrow> setupInput \<Rightarrow> world \<Rightarrow> (jsError + SetupCredentialsResult) \<times> world" where
  "executeSetupCredentials P H args w =
    (case args of
       Malformed \<Rightarrow> (Inl ZodError, w)
     | SetupArgs email password \<Rightarrow>
         if email = [] \<or> password = [] then (Inl ZodError, w)
         else
           (case storeCredentials P H email password w of
              (Inl e, w1) \<Rightarrow> (Inl (FailedToStoreCredentials e), w1)
            | (Inr u, w1) \<Rightarrow>
                (case authenticate P H email password w1 of
                   (Inl e, w2) \<Rightarrow> (Inl (FailedToStoreCredentials e), w2)
                 | (Inr authSuccess, w2) \<Rightarrow>
                     if \<not> authSuccess then
                       (Inr (setupResult H False
                          ''Credentials saved but authentication failed. Please verify your email and password are correct for analytics.diabetes-m.com''), w2)
                     else
                       (Inr (setupResult H True
                          ''Credentials configured and verified successfully. You can now use all Diabetes:M tools.''), w2))))"

text \<open>Whether an event is a call to the remote server.\<close>

fun isRemoteCall :: "event \<Rightarrow> bool" where
  "isRemoteCall VerifyRequest = True"
| "isRemoteCall LoginRequest = True"
| "isRemoteCall (ApiRequest n) = True"
| "isRemoteCall e = False"

section \<open>Notions used to state the properties\<close>

text \<open>
  What the operations of the authentication layer leave as it is: the credentials file,
  the master key the credentials manager works with, and the number of API calls made.
\<close>

definition preserved :: "host \<Rightarrow> world \<Rightarrow> world \<Rightarrow> bool" where
  "preserved H w w' \<longleftrightarrow>
     diskCredentials w' = diskCredentials w \<and> availableKey H w' = availableKey H w
     \<and> httpCalls w' = httpCalls w"

text \<open>The trace of the later state continues the trace of the earlier one.\<close>

definition extended :: "world \<Rightarrow> world \<Rightarrow> bool" where
  "extended w w' \<longleftrightarrow> (\<exists>evs. trace w' = trace w @ evs)"

text \<open>The blob that \<^verbatim>\<open>encrypt\<close> returns in a given state.\<close>

definition sealW :: "platform \<Rightarrow> host \<Rightarrow> jsstring \<Rightarrow> buffer \<Rightarrow> world \<Rightarrow> EncryptedData" where
  "sealW P H p k w = projr (fst (encryptW P H p k w))"

text \<open>
  The part of \<^verbatim>\<open>login\<close> that follows once the credentials are known: the stored
  session is tried first, a fresh login is made otherwise.
\<close>

definition sessionPart ::
  "platform \<Rightarrow> host \<Rightarrow> jsstring \<Rightarrow> jsstring \<Rightarrow> world \<Rightarrow> (jsError + bool) \<times> world" where
  "sessionPart P H em pw w1 =
    (case getTokens P H w1 of
       (None, w2) \<Rightarrow> freshLogin P H em pw w2
     | (Some (token, sid), w2) \<Rightarrow>
         (case verifySession H token sid w2 of
            (isValid, w3) \<Rightarrow>
              if isValid then
                (Inr True, w3\<lparr>authState := (authState w3)
                   \<lparr>accessToken := Str token, sessionId := storedSessionId sid,
                    isAuthenticated := True, lastAuth := Some (clock w3)\<rparr>\<rparr>)
              else freshLogin P H em pw w3))"

text \<open>The delays of one kind that a trace records, in order.\<close>

fun sleeps :: "sleepKind \<Rightarrow> event list \<Rightarrow> int list" where
  "sleeps k [] = []"
| "sleeps k (Slept k' d # es) = (if k' = k then d # sleeps k es else sleeps k es)"
| "sleeps k (e # es) = sleeps k es"

text \<open>A client that holds an access token, with nothing on disk.\<close>

definition authenticatedWorld :: "int \<Rightarrow> world" where
  "authenticatedWorld t =
    (initialWorld t)\<lparr>authState := \<lparr>accessToken = Str [0x74], sessionId = Falsy, cookies = [],
                                     isAuthenticated = True, lastAuth = Some t\<rparr>\<rparr>"

chapter \<open>The properties\<close>

section \<open>Rate limiter\<close>

lemma waitForRateLimit_full_bucket:
  assumes "tokens rl = BURST"
  shows "\<exists>lr. waitForRateLimit now rl = (0, \<lparr>lastRequest = now, tokens = 4, lastRefill = lr\<rparr>)
              \<and> (now - lr) div INTERVAL_MS \<le> 0"
  using assms by (cases rl) (auto simp: waitForRateLimit_def Let_def BURST_def INTERVAL_MS_def)

lemma waitForRateLimit_token_left:
  assumes "(now - lastRefill rl) div INTERVAL_MS \<le> 0" "0 < tokens rl"
  shows "waitForRateLimit now rl = (0, rl\<lparr>tokens := tokens rl - 1, lastRequest := now\<rparr>)"
  using assms by (simp add: waitForRateLimit_def Let_def)

lemma waitForRateLimit_empty_bucket:
  assumes "(now - lastRefill rl) div INTERVAL_MS \<le> 0" "tokens rl \<le> 0"
  shows "waitForRateLimit now rl =
           (max 0 (INTERVAL_MS - (now - lastRequest rl)),
            rl\<lparr>tokens := 0, lastRequest := now + max 0 (INTERVAL_MS - (now - lastRequest rl))\<rparr>)"
  using assms by (simp add: waitForRateLimit_def Let_def max_def)

lemma waitForRateLimit_clamped:
  assumes "tokens rl \<le> BURST"
  shows "tokens (snd (waitForRateLimit now rl)) \<le> BURST"
  using assms by (auto simp: waitForRateLimit_def Let_def BURST_def min_def)

text \<open>
  C5. From a full bucket (\<open>tokens = BURST = 5\<close>), whatever the clock reads and
  whenever the bucket was last refilled, five consecutive acquisitions do not suspend
  and a sixth one made at once suspends for exactly \<open>INTERVAL_MS = 1000\<close> ms. The
  suspension of an acquisition that finds the bucket empty is the single value
  \<open>INTERVAL_MS - (now - lastRequest)\<close> (0 when that is not positive), computed from the
  bucket state, and an acquisition never leaves more than \<open>BURST\<close> tokens in a bucket
  that held at most \<open>BURST\<close>.
\<close>

theorem rate_limit_burst_then_wait:
  assumes "tokens rl = BURST"
  shows "fst (acquisitions 5 now rl) = [0, 0, 0, 0, 0]
       \<and> fst (acquisitions 6 now rl) = [0, 0, 0, 0, 0, 1000]
       \<and> (\<forall>t b. tokens b \<le> 0 \<and> (t - lastRefill b) div INTERVAL_MS \<le> 0 \<longrightarrow>
                 fst (waitForRateLimit t b) = max 0 (INTERVAL_MS - (t - lastRequest b)))
       \<and> (\<forall>t b. tokens b \<le> BURST \<longrightarrow> tokens (snd (waitForRateLimit t b)) \<le> BURST)"
proof -
  obtain lr where first: "waitForRateLimit now rl = (0, \<lparr>lastRequest = now, tokens = 4, lastRefill = lr\<rparr>)"
    and lr: "(now - lr) div INTERVAL_MS \<le> 0"
    using waitForRateLimit_full_bucket[OF assms] by blast
  have five: "fst (acquisitions 5 now rl) = [0, 0, 0, 0, 0]"
    using lr by (simp add: eval_nat_numeral first waitForRateLimit_token_left)
  have six: "fst (acquisitions 6 now rl) = [0, 0, 0, 0, 0, 1000]"
    using lr
    by (simp add: eval_nat_numeral first waitForRateLimit_token_left waitForRateLimit_empty_bucket)
       (simp add: INTERVAL_MS_def)
  show ?thesis
    using five six by (simp add: waitForRateLimit_empty_bucket waitForRateLimit_clamped)
qed

theorem rate_limit_burst_then_wait_witness:
  "tokens \<lparr>lastRequest = 0, tokens = 5, lastRefill = 1700000000000\<rparr> = BURST
   \<and> fst (acquisitions 6 1700000000250 \<lparr>lastRequest = 0, tokens = 5, lastRefill = 1700000000000\<rparr>)
       = [0, 0, 0, 0, 0, 1000]"
proof -
  have full: "tokens \<lparr>lastRequest = 0, tokens = 5, lastRefill = 1700000000000\<rparr> = BURST"
    by (simp add: BURST_def)
  show ?thesis
    using full rate_limit_burst_then_wait[OF full, of 1700000000250] by simp
qed

section \<open>UTF-8: decoding inverts encoding on well-formed strings\<close>

lemma unat_byte: "n < 256 \<Longrightarrow> unat (of_nat n :: 8 word) = n"
  by (simp add: unat_of_nat)

lemma unat_unit: "n < 65536 \<Longrightarrow> unat (of_nat n :: 16 word) = n"
  by (simp add: unat_of_nat)


lemma utf8_one:
  assumes "c < 0x80"
  shows "utf8CodePoints (utf8Bytes c @ r) = c # utf8CodePoints r"
  using assms by (simp add: utf8Bytes_def utf8Next_def unat_byte)

lemma utf8_two:
  assumes "0x80 \<le> c" "c < 0x800"
  shows "utf8CodePoints (utf8Bytes c @ r) = c # utf8CodePoints r"
proof -
  define a where "a = c div 0x40"
  define d where "d = c mod 0x40"
  have c: "c = a * 0x40 + d" and bounds: "a < 0x20" "2 \<le> a" "d < 0x40"
    using assms unfolding a_def d_def by arith+
  have bytes: "utf8Bytes c = [of_nat (0xC0 + a), of_nat (0x80 + d)]"
    using assms by (simp add: utf8Bytes_def a_def d_def)
  have u: "unat (of_nat (0xC0 + a) :: 8 word) = 0xC0 + a" "unat (of_nat (0x80 + d) :: 8 word) = 0x80 + d"
    using bounds by (simp_all only: unat_byte)
  show ?thesis
    unfolding bytes using bounds
    by (simp add: utf8Next_def Let_def isCont_def u c del: of_nat_add of_nat_numeral)
qed



lemma digits3: "(c::nat) = c div 4096 * 4096 + c div 64 mod 64 * 64 + c mod 64"
proof -
  define q where "q = c div 64"
  have 1: "c = q * 64 + c mod 64" by (simp add: q_def)
  have 2: "q = q div 64 * 64 + q mod 64" by simp
  have 3: "q div 64 = c div 4096" by (simp add: q_def div_mult2_eq)
  show ?thesis
    using 1 2 unfolding 3[symmetric] q_def[symmetric] by linarith
qed

lemma digits4: "(c::nat) = c div 262144 * 262144 + c div 4096 mod 64 * 4096 + c div 64 mod 64 * 64 + c mod 64"
proof -
  define q where "q = c div 4096"
  have 2: "q = q div 64 * 64 + q mod 64" by simp
  have 3: "q div 64 = c div 262144" by (simp add: q_def div_mult2_eq)
  show ?thesis
    using digits3[of c] 2 unfolding 3[symmetric] q_def[symmetric] by linarith
qed

lemma utf8_three:
  assumes "0x800 \<le> c" "c < 0x10000" "\<not> (0xD800 \<le> c \<and> c \<le> 0xDFFF)"
  shows "utf8CodePoints (utf8Bytes c @ r) = c # utf8CodePoints r"
proof -
  define a where "a = c div 0x1000"
  define b where "b = c div 0x40 mod 0x40"
  define d where "d = c mod 0x40"
  have c: "c = a * 0x1000 + b * 0x40 + d"
    unfolding a_def b_def d_def using digits3[of c] by simp
  have bd: "b < 0x40" "d < 0x40"
    by (simp_all add: b_def d_def)
  have a: "a < 0x10"
    using assms(2) bd unfolding c by linarith
  have lo: "a = 0 \<Longrightarrow> 0x20 \<le> b"
    using assms(1) bd unfolding c by linarith
  have hi: "a = 0xD \<Longrightarrow> b < 0x20"
    using assms(3) bd unfolding c by linarith
  have bytes: "utf8Bytes c = [of_nat (0xE0 + a), of_nat (0x80 + b), of_nat (0x80 + d)]"
    using assms by (simp add: utf8Bytes_def a_def b_def d_def)
  have u: "unat (of_nat (0xE0 + a) :: 8 word) = 0xE0 + a"
    "unat (of_nat (0x80 + b) :: 8 word) = 0x80 + b"
    "unat (of_nat (0x80 + d) :: 8 word) = 0x80 + d"
    using a bd by (simp_all only: unat_byte)
  have next3: "utf8Next (of_nat (0xE0 + a)) (of_nat (0x80 + b) # of_nat (0x80 + d) # r) = (c, r)"
    using a bd lo hi
    by (auto simp add: utf8Next_def Let_def isCont_def u c simp del: of_nat_add of_nat_numeral)
  show ?thesis
    unfolding bytes by (simp add: next3 del: of_nat_add of_nat_numeral)
qed

lemma utf8_four:
  assumes "0x10000 \<le> c" "c < 0x110000"
  shows "utf8CodePoints (utf8Bytes c @ r) = c # utf8CodePoints r"
proof -
  define a where "a = c div 0x40000"
  define b where "b = c div 0x1000 mod 0x40"
  define e where "e = c div 0x40 mod 0x40"
  define d where "d = c mod 0x40"
  have c: "c = a * 0x40000 + b * 0x1000 + e * 0x40 + d"
    unfolding a_def b_def e_def d_def using digits4[of c] by simp
  have bd: "b < 0x40" "e < 0x40" "d < 0x40"
    by (simp_all add: b_def e_def d_def)
  have a: "a < 5"
    using assms(2) bd unfolding c by linarith
  have lo: "a = 0 \<Longrightarrow> 0x10 \<le> b"
    using assms(1) bd unfolding c by linarith
  have hi: "a = 4 \<Longrightarrow> b < 0x10"
    using assms(2) bd unfolding c by linarith
  have bytes: "utf8Bytes c =
      [of_nat (0xF0 + a), of_nat (0x80 + b), of_nat (0x80 + e), of_nat (0x80 + d)]"
    using assms by (simp add: utf8Bytes_def a_def b_def e_def d_def)
  have u: "unat (of_nat (0xF0 + a) :: 8 word) = 0xF0 + a"
    "unat (of_nat (0x80 + b) :: 8 word) = 0x80 + b"
    "unat (of_nat (0x80 + e) :: 8 word) = 0x80 + e"
    "unat (of_nat (0x80 + d) :: 8 word) = 0x80 + d"
    using a bd by (simp_all only: unat_byte)
  have next4: "utf8Next (of_nat (0xF0 + a))
      (of_nat (0x80 + b) # of_nat (0x80 + e) # of_nat (0x80 + d) # r) = (c, r)"
    using a bd lo hi
    by (auto simp add: utf8Next_def Let_def isCont_def u c simp del: of_nat_add of_nat_numeral)
  show ?thesis
    unfolding bytes by (simp add: next4 del: of_nat_add of_nat_numeral)
qed

lemma utf8CodePoints_utf8Bytes:
  assumes "isScalar c"
  shows "utf8CodePoints (utf8Bytes c @ r) = c # utf8CodePoints r"
proof -
  consider "c < 0x80" | "0x80 \<le> c" "c < 0x800" | "0x800 \<le> c" "c < 0x10000" | "0x10000 \<le> c"
    by linarith
  then show ?thesis
    using assms utf8_one utf8_two utf8_three utf8_four
    by cases (auto simp: isScalar_def)
qed

lemma utf8CodePoints_concat:
  assumes "list_all isScalar cs"
  shows "utf8CodePoints (concat (map utf8Bytes cs)) = cs"
  using assms by (induction cs) (simp_all add: utf8CodePoints_utf8Bytes)

lemma isScalar_loneUnit: "isScalar (loneUnit u)"
  using unsigned_less[of u, where 'a = nat]
  by (auto simp: isScalar_def loneUnit_def isHighSurrogate_def isLowSurrogate_def)

lemma isScalar_pair:
  assumes "isHighSurrogate u" "isLowSurrogate v"
  shows "isScalar (0x10000 + (unat u - 0xD800) * 0x400 + (unat v - 0xDC00))"
  using assms by (auto simp: isScalar_def isHighSurrogate_def isLowSurrogate_def)

lemma codePoints_scalar: "list_all isScalar (codePoints s)"
  by (induction s rule: codePoints.induct) (simp_all add: isScalar_loneUnit isScalar_pair)

lemma codeUnits_loneUnit:
  assumes "\<not> isHighSurrogate u" "\<not> isLowSurrogate u"
  shows "codeUnits (loneUnit u) = [u]"
  using assms unsigned_less[of u, where 'a = nat] by (simp add: codeUnits_def loneUnit_def)

lemma codeUnits_pair:
  assumes "isHighSurrogate u" "isLowSurrogate v"
  shows "codeUnits (0x10000 + (unat u - 0xD800) * 0x400 + (unat v - 0xDC00)) = [u, v]"
proof -
  define h where "h = unat u - 0xD800"
  define l where "l = unat v - 0xDC00"
  have h: "unat u = 0xD800 + h" "h < 0x400" and l: "unat v = 0xDC00 + l" "l < 0x400"
    using assms by (auto simp: h_def l_def isHighSurrogate_def isLowSurrogate_def)
  have "(h * 0x400 + l) div 0x400 = h" "(h * 0x400 + l) mod 0x400 = l"
    using l(2) by simp_all
  moreover have "of_nat (0xD800 + h) = u" "of_nat (0xDC00 + l) = v"
    using of_nat_unat[of u, where 'a = "16 word"] of_nat_unat[of v, where 'a = "16 word"]
    unfolding h(1) l(1) by (simp_all del: of_nat_add of_nat_numeral)
  ultimately show ?thesis
    unfolding h_def[symmetric] l_def[symmetric]
    by (simp add: codeUnits_def del: of_nat_add of_nat_numeral)
qed

lemma codeUnits_codePoints:
  assumes "isWellFormed s"
  shows "concat (map codeUnits (codePoints s)) = s"
  using assms
  by (induction s rule: codePoints.induct)
     (auto simp: codeUnits_loneUnit codeUnits_pair simp del: of_nat_add of_nat_numeral split: if_splits)

lemma utf8_roundtrip:
  assumes "isWellFormed s"
  shows "utf8Decode (utf8Encode s) = s"
  by (simp add: utf8Decode_def utf8Encode_def utf8CodePoints_concat codePoints_scalar
        codeUnits_codePoints assms)

section \<open>Encryption service\<close>

lemma toyXor_involution:
  assumes "length ks = length xs"
  shows "toyXor (toyXor xs ks) ks = xs"
  using assms[symmetric] unfolding toyXor_def
  by (induction xs ks rule: list_induct2) (simp_all add: xor.assoc)

lemma length_toyXor: "length ks = length xs \<Longrightarrow> length (toyXor xs ks) = length xs"
  by (simp add: toyXor_def)

lemma toy_ok: "platform_ok toyPlatform"
  unfolding platform_ok_def toyPlatform_def
  by (auto simp: toyTag_def toyXor_involution length_toyXor toyKeystream_def
        ucast_down_ucast_id is_down intro!: nth_equalityI)

lemma encrypt_ok:
  assumes "platform_ok P" "iv \<noteq> []"
  shows "encrypt P salt iv now p k =
           Inr \<lparr>data = base64Encode P (salt @ iv
                   @ snd (gcmEncrypt P (pbkdf2Sync P k salt 100000 32) iv (utf8Encode p))
                   @ fst (gcmEncrypt P (pbkdf2Sync P k salt 100000 32) iv (utf8Encode p))),
                version = 1, timestamp = Some now\<rparr>"
  using assms
  by (simp add: encrypt_def platform_ok_def DEFAULT_SECURITY_CONFIG_def cipherivError_def
        ENCRYPTION_VERSION_def split: prod.splits)

lemma roundTrip_utf8:
  assumes "platform_ok P" "length salt = 64" "length iv = 16"
  shows "roundTrip P salt iv now p k = Inr (utf8Decode (utf8Encode p))"
proof -
  have iv: "iv \<noteq> []" using assms(3) by auto
  define key where "key = pbkdf2Sync P k salt 100000 32"
  have key: "length key = 32"
    using assms(1) by (simp add: key_def platform_ok_def)
  have tag: "length (snd (gcmEncrypt P key iv (utf8Encode p))) = 16"
    and dec: "gcmDecrypt P key iv (snd (gcmEncrypt P key iv (utf8Encode p)))
                (fst (gcmEncrypt P key iv (utf8Encode p))) = Some (utf8Encode p)"
    using assms(1) key iv unfolding platform_ok_def by blast+
  have b64: "\<And>bs. base64Decode P (base64Encode P bs) = bs"
    using assms(1) by (simp add: platform_ok_def)
  show ?thesis
    unfolding roundTrip_def encrypt_ok[OF assms(1) iv] key_def[symmetric]
    using key iv tag dec assms(2,3)
    by (simp add: decrypt_def b64 ENCRYPTION_VERSION_def DEFAULT_SECURITY_CONFIG_def subarray_def
          cipherivError_def validGCMTagLength_def key_def[symmetric])
qed

text \<open>
  C1 (as amended). For every well-formed plaintext (no surrogate code unit standing
  alone), every 32-byte master key, every 64-byte salt and 16-byte IV drawn by
  \<^verbatim>\<open>randomBytes\<close>, on a platform that meets \<open>platform_ok\<close>: \<^verbatim>\<open>encrypt\<close> returns a
  blob, and \<^verbatim>\<open>decrypt\<close> of that blob under the same key returns exactly the plaintext.
\<close>

theorem encrypt_decrypt_roundtrip:
  assumes "platform_ok P" "length k = 32" "length salt = 64" "length iv = 16" "isWellFormed p"
  shows "\<exists>blob. encrypt P salt iv now p k = Inr blob \<and> decrypt P blob k = Inr p"
proof -
  have iv: "iv \<noteq> []" using assms(4) by auto
  have "roundTrip P salt iv now p k = Inr p"
    using roundTrip_utf8[OF assms(1,3,4)] utf8_roundtrip[OF assms(5)] by simp
  then show ?thesis
    by (simp add: roundTrip_def encrypt_ok[OF assms(1) iv])
qed

theorem encrypt_decrypt_roundtrip_witness:
  "\<exists>blob. encrypt toyPlatform (replicate 64 7) (replicate 16 9) 0 [0x68, 0x69, 0xD83D, 0xDE00] (replicate 32 1) = Inr blob
      \<and> decrypt toyPlatform blob (replicate 32 1) = Inr [0x68, 0x69, 0xD83D, 0xDE00]"
  by (rule encrypt_decrypt_roundtrip[OF toy_ok])
     (simp_all add: isHighSurrogate_def isLowSurrogate_def)

text \<open>
  The claim as written ranges over every string. The string that consists of the lone
  high surrogate U+D800 is encrypted, and the blob decrypts, but to the replacement
  character U+FFFD: the UTF-8 encoder has replaced the surrogate before encryption.
\<close>

theorem lone_surrogate_not_restored:
  "platform_ok toyPlatform
   \<and> isl (encrypt toyPlatform (replicate 64 7) (replicate 16 9) 0 [0xD800] (replicate 32 1)) = False
   \<and> decrypt toyPlatform
        (projr (encrypt toyPlatform (replicate 64 7) (replicate 16 9) 0 [0xD800] (replicate 32 1)))
        (replicate 32 1) = Inr [0xFFFD]"
proof -
  have "roundTrip toyPlatform (replicate 64 7) (replicate 16 9) 0 [0xD800] (replicate 32 1)
          = Inr (utf8Decode (utf8Encode [0xD800]))"
    by (rule roundTrip_utf8[OF toy_ok]) simp_all
  also have "utf8Decode (utf8Encode [0xD800]) = [0xFFFD]"
    by (simp add: utf8Encode_def utf8Decode_def loneUnit_def isHighSurrogate_def utf8Bytes_def
          utf8Next_def isCont_def codeUnits_def)
  finally show ?thesis
    using toy_ok by (simp add: roundTrip_def encrypt_ok[OF toy_ok])
qed

text \<open>When \<^verbatim>\<open>decrypt\<close> returns: the version is 1, the key and the IV slice pass
  \<^verbatim>\<open>createDecipheriv\<close>, the tag slice has a length \<^verbatim>\<open>setAuthTag\<close> takes, and the tag
  verifies; the text returned is the whole verified plaintext.\<close>

lemma decrypt_Inr_iff:
  "decrypt P blob k = Inr s \<longleftrightarrow>
     version blob = 1
     \<and> cipherivError (pbkdf2Sync P k (take 64 (base64Decode P (data blob))) 100000 32)
           (take 16 (drop 64 (base64Decode P (data blob)))) = None
     \<and> validGCMTagLength (length (take 16 (drop 80 (base64Decode P (data blob)))))
     \<and> (\<exists>pt. gcmDecrypt P (pbkdf2Sync P k (take 64 (base64Decode P (data blob))) 100000 32)
                 (take 16 (drop 64 (base64Decode P (data blob))))
                 (take 16 (drop 80 (base64Decode P (data blob))))
                 (drop 96 (base64Decode P (data blob))) = Some pt
              \<and> s = utf8Decode pt)"
  by (auto simp: decrypt_def Let_def ENCRYPTION_VERSION_def DEFAULT_SECURITY_CONFIG_def subarray_def
        split: option.splits)

lemma decrypt_DecryptionFailed_iff:
  "decrypt P blob k = Inl DecryptionFailed \<longleftrightarrow>
     version blob = ENCRYPTION_VERSION
     \<and> cipherivError (pbkdf2Sync P k (take 64 (base64Decode P (data blob))) 100000 32)
           (take 16 (drop 64 (base64Decode P (data blob)))) = None
     \<and> validGCMTagLength (length (take 16 (drop 80 (base64Decode P (data blob)))))
     \<and> gcmDecrypt P (pbkdf2Sync P k (take 64 (base64Decode P (data blob))) 100000 32)
          (take 16 (drop 64 (base64Decode P (data blob))))
          (take 16 (drop 80 (base64Decode P (data blob))))
          (drop 96 (base64Decode P (data blob))) = None"
  by (auto simp: decrypt_def Let_def ENCRYPTION_VERSION_def DEFAULT_SECURITY_CONFIG_def subarray_def
        cipherivError_def split: option.splits if_splits)

lemma decrypt_short_payload:
  assumes "version blob = ENCRYPTION_VERSION"
    and "\<not> validGCMTagLength (min 16 (payloadLength P blob - 80))"
  shows "decrypt P blob k = Inl InvalidKeyLength \<or> decrypt P blob k = Inl InvalidIV
       \<or> decrypt P blob k = Inl (InvalidAuthTagLength (min 16 (payloadLength P blob - 80)))"
  using assms
  by (auto simp: decrypt_def Let_def ENCRYPTION_VERSION_def DEFAULT_SECURITY_CONFIG_def subarray_def
        cipherivError_def payloadLength_def min.commute split: option.splits if_splits)

text \<open>
  C2 (as amended). For every blob, key and platform: \<^verbatim>\<open>decrypt\<close> throws
  \<^verbatim>\<open>Unsupported encryption version\<close> when the version is not 1; it throws when the
  decoded payload is shorter than 84 bytes, and when it is shorter than 96 bytes and
  leaves a tag slice of a length GCM does not take (every length below 96 other than
  84, 88 and 92 to 95), in both cases with the argument error of \<^verbatim>\<open>createDecipheriv\<close>
  or \<^verbatim>\<open>setAuthTag\<close> when the version is 1; it throws when the tag does not verify, and
  \<^verbatim>\<open>Decryption failed\<close> is thrown exactly then, the version being 1 and the slices
  accepted; and whenever it returns a text, the tag has verified and the text is the
  whole plaintext GCM released, never a part of it.
\<close>

theorem decrypt_rejects:
  "(version blob \<noteq> ENCRYPTION_VERSION \<longrightarrow>
      decrypt P blob k = Inl (UnsupportedEncryptionVersion (version blob)))
   \<and> (payloadLength P blob < 84 \<longrightarrow> isl (decrypt P blob k))
   \<and> (payloadLength P blob < 96 \<and> payloadLength P blob \<notin> {84, 88, 92, 93, 94, 95} \<longrightarrow>
        isl (decrypt P blob k))
   \<and> (version blob = ENCRYPTION_VERSION
        \<and> payloadLength P blob < 96 \<and> payloadLength P blob \<notin> {84, 88, 92, 93, 94, 95} \<longrightarrow>
        decrypt P blob k = Inl InvalidKeyLength \<or> decrypt P blob k = Inl InvalidIV
        \<or> decrypt P blob k = Inl (InvalidAuthTagLength (min 16 (payloadLength P blob - 80))))
   \<and> (gcmDecrypt P (pbkdf2Sync P k (take 64 (base64Decode P (data blob))) 100000 32)
          (take 16 (drop 64 (base64Decode P (data blob))))
          (take 16 (drop 80 (base64Decode P (data blob))))
          (drop 96 (base64Decode P (data blob))) = None \<longrightarrow> isl (decrypt P blob k))
   \<and> (decrypt P blob k = Inl DecryptionFailed \<longleftrightarrow>
        version blob = ENCRYPTION_VERSION
        \<and> cipherivError (pbkdf2Sync P k (take 64 (base64Decode P (data blob))) 100000 32)
              (take 16 (drop 64 (base64Decode P (data blob)))) = None
        \<and> validGCMTagLength (length (take 16 (drop 80 (base64Decode P (data blob)))))
        \<and> gcmDecrypt P (pbkdf2Sync P k (take 64 (base64Decode P (data blob))) 100000 32)
             (take 16 (drop 64 (base64Decode P (data blob))))
             (take 16 (drop 80 (base64Decode P (data blob))))
             (drop 96 (base64Decode P (data blob))) = None)
   \<and> (\<forall>s. decrypt P blob k = Inr s \<longrightarrow>
          (\<exists>pt. gcmDecrypt P (pbkdf2Sync P k (take 64 (base64Decode P (data blob))) 100000 32)
                  (take 16 (drop 64 (base64Decode P (data blob))))
                  (take 16 (drop 80 (base64Decode P (data blob))))
                  (drop 96 (base64Decode P (data blob))) = Some pt
               \<and> s = utf8Decode pt))"
proof -
  have short: "isl (decrypt P blob k)"
    if "\<not> validGCMTagLength (min 16 (payloadLength P blob - 80))"
  proof (cases "decrypt P blob k")
    case (Inr s)
    then show ?thesis
      using that unfolding decrypt_Inr_iff by (simp add: payloadLength_def min.commute)
  qed simp
  have 1: "version blob \<noteq> ENCRYPTION_VERSION \<longrightarrow>
      decrypt P blob k = Inl (UnsupportedEncryptionVersion (version blob))"
    by (simp add: decrypt_def)
  have 2: "payloadLength P blob < 84 \<longrightarrow> isl (decrypt P blob k)"
    by (auto intro!: short simp: validGCMTagLength_def)
  have 3: "payloadLength P blob < 96 \<and> payloadLength P blob \<notin> {84, 88, 92, 93, 94, 95} \<longrightarrow>
        isl (decrypt P blob k)"
    by (auto intro!: short simp: validGCMTagLength_def)
  have 4: "gcmDecrypt P (pbkdf2Sync P k (take 64 (base64Decode P (data blob))) 100000 32)
          (take 16 (drop 64 (base64Decode P (data blob))))
          (take 16 (drop 80 (base64Decode P (data blob))))
          (drop 96 (base64Decode P (data blob))) = None \<longrightarrow> isl (decrypt P blob k)"
    by (cases "decrypt P blob k") (auto simp: decrypt_Inr_iff)
  have 5: "version blob = ENCRYPTION_VERSION
        \<and> payloadLength P blob < 96 \<and> payloadLength P blob \<notin> {84, 88, 92, 93, 94, 95} \<longrightarrow>
        decrypt P blob k = Inl InvalidKeyLength \<or> decrypt P blob k = Inl InvalidIV
        \<or> decrypt P blob k = Inl (InvalidAuthTagLength (min 16 (payloadLength P blob - 80)))"
  proof
    assume h: "version blob = ENCRYPTION_VERSION
        \<and> payloadLength P blob < 96 \<and> payloadLength P blob \<notin> {84, 88, 92, 93, 94, 95}"
    then have "\<not> validGCMTagLength (min 16 (payloadLength P blob - 80))"
      by (auto simp: validGCMTagLength_def)
    with h show "decrypt P blob k = Inl InvalidKeyLength \<or> decrypt P blob k = Inl InvalidIV
        \<or> decrypt P blob k = Inl (InvalidAuthTagLength (min 16 (payloadLength P blob - 80)))"
      by (intro decrypt_short_payload) simp_all
  qed
  show ?thesis
    using 1 2 3 4 5 decrypt_DecryptionFailed_iff[of P blob k] by (simp add: decrypt_Inr_iff)
qed

text \<open>
  A blob of version 2; a payload of 83 bytes; and a payload of 96 bytes \<open>0x41\<close>, whose
  slices are taken and whose tag does not verify.
\<close>

theorem decrypt_rejects_witness:
  "decrypt toyPlatform \<lparr>data = [], version = 2, timestamp = None\<rparr> (replicate 32 1)
      = Inl (UnsupportedEncryptionVersion 2)
   \<and> isl (decrypt toyPlatform \<lparr>data = replicate 83 0x41, version = 1, timestamp = None\<rparr> (replicate 32 1))
   \<and> decrypt toyPlatform \<lparr>data = replicate 96 0x41, version = 1, timestamp = None\<rparr> (replicate 32 1)
      = Inl DecryptionFailed"
proof -
  let ?b = "\<lparr>data = replicate 96 0x41, version = 1, timestamp = None\<rparr>"
  have bytes: "base64Decode toyPlatform (data ?b) = replicate 96 0x41"
    by (simp add: toyPlatform_def)
  have key: "pbkdf2Sync toyPlatform (replicate 32 1) (take 64 (replicate 96 0x41)) 100000 32
      = replicate 32 1"
    by (simp add: toyPlatform_def)
  have slices: "take 16 (drop 64 (replicate 96 (0x41 :: byte))) = replicate 16 0x41"
    "take 16 (drop 80 (replicate 96 (0x41 :: byte))) = replicate 16 0x41"
    "drop 96 (replicate 96 (0x41 :: byte)) = []"
    by simp_all
  have x: "((XOR) (0x41 :: byte) ^^ 16) 0 = 0"
    by (simp add: eval_nat_numeral)
  have t: "toyTag (replicate 32 1) (replicate 16 0x41) [] = replicate 16 1"
    by (simp add: toyTag_def x)
  have "replicate 16 (0x41 :: byte) \<noteq> replicate 16 1"
    by simp
  then have tag: "gcmDecrypt toyPlatform (replicate 32 1) (replicate 16 0x41) (replicate 16 0x41) [] = None"
    by (simp add: toyPlatform_def t)
  have 3: "decrypt toyPlatform ?b (replicate 32 1) = Inl DecryptionFailed"
    using decrypt_rejects[where blob = ?b and P = toyPlatform and k = "replicate 32 1"]
    unfolding bytes key slices tag
    by (simp add: ENCRYPTION_VERSION_def cipherivError_def validGCMTagLength_def)
  show ?thesis
    using decrypt_rejects[where blob = "\<lparr>data = [], version = 2, timestamp = None\<rparr>"
        and P = toyPlatform and k = "replicate 32 1"]
      decrypt_rejects[where blob = "\<lparr>data = replicate 83 0x41, version = 1, timestamp = None\<rparr>"
        and P = toyPlatform and k = "replicate 32 1"]
      3
    by (simp add: ENCRYPTION_VERSION_def payloadLength_def toyPlatform_def)
qed

text \<open>
  The claim as written has every payload shorter than 96 bytes rejected. The blob of the
  empty plaintext has a payload of exactly 96 bytes (salt, IV, tag, no ciphertext); cut
  down to 95 bytes it keeps a 15-byte tag, which \<^verbatim>\<open>setAuthTag\<close> takes and
  \<^verbatim>\<open>final()\<close> verifies over 15 bytes: \<^verbatim>\<open>decrypt\<close> returns the empty string.
\<close>

theorem truncated_payload_accepted:
  "isl (encrypt toyPlatform (replicate 64 7) (replicate 16 9) 0 [] (replicate 32 1)) = False
   \<and> payloadLength toyPlatform (truncatePayload toyPlatform 95
        (projr (encrypt toyPlatform (replicate 64 7) (replicate 16 9) 0 [] (replicate 32 1)))) = 95
   \<and> decrypt toyPlatform (truncatePayload toyPlatform 95
        (projr (encrypt toyPlatform (replicate 64 7) (replicate 16 9) 0 [] (replicate 32 1))))
        (replicate 32 1) = Inr []"
proof -
  have b64: "\<And>bs. base64Decode toyPlatform (base64Encode toyPlatform bs) = bs"
    using toy_ok by (simp add: platform_ok_def)
  have key: "pbkdf2Sync toyPlatform (replicate 32 1) (replicate 64 7) 100000 32 = replicate 32 1"
    by (simp add: toyPlatform_def)
  have enc: "gcmEncrypt toyPlatform (replicate 32 1) (replicate 16 9) [] = ([], toyTag (replicate 32 1) (replicate 16 9) [])"
    by (simp add: toyPlatform_def toyXor_def toyKeystream_def)
  have tag: "length (toyTag (replicate 32 1) (replicate 16 9) []) = 16"
    by (simp add: toyTag_def)
  have dec: "gcmDecrypt toyPlatform (replicate 32 1) (replicate 16 9)
               (take 15 (toyTag (replicate 32 1) (replicate 16 9) [])) [] = Some []"
    using tag by (simp add: toyPlatform_def toyXor_def toyKeystream_def)
  have utf8: "utf8Encode [] = []" "utf8Decode [] = []"
    by (simp_all add: utf8Encode_def utf8Decode_def)
  show ?thesis
    using tag
    by (simp add: encrypt_ok[OF toy_ok] truncatePayload_def payloadLength_def b64 key enc utf8
          decrypt_def DEFAULT_SECURITY_CONFIG_def ENCRYPTION_VERSION_def subarray_def
          cipherivError_def validGCMTagLength_def dec)
qed

section \<open>Encrypted cache\<close>

lemma decrypt_timestamp: "decrypt P (blob\<lparr>timestamp := ts\<rparr>) k = decrypt P blob k"
  by (simp add: decrypt_def)

lemma decrypt_of_encrypt:
  assumes "platform_ok P" "length salt = 64" "length iv = 16"
    and "encrypt P salt iv now p k = Inr blob"
  shows "decrypt P \<lparr>data = data blob, version = 1, timestamp = ts\<rparr> k = Inr (utf8Decode (utf8Encode p))"
proof -
  have iv: "iv \<noteq> []" using assms(3) by auto
  have blob: "\<lparr>data = data blob, version = 1, timestamp = ts\<rparr> = blob\<lparr>timestamp := ts\<rparr>"
    using assms(4) unfolding encrypt_ok[OF assms(1) iv] by auto
  have "roundTrip P salt iv now p k = decrypt P blob k"
    by (simp add: roundTrip_def assms(4))
  then show ?thesis
    unfolding blob decrypt_timestamp using roundTrip_utf8[OF assms(1,2,3)] by simp
qed

lemma ensureMasterKey_cached:
  "masterKey c = Some k \<Longrightarrow> EncryptedCache_ensureMasterKey H c = (Inr k, c)"
  by (simp add: EncryptedCache_ensureMasterKey_def)

lemma ensureMasterKey_Inr:
  assumes "EncryptedCache_ensureMasterKey H c = (Inr k, c1)"
  shows "masterKey c1 = Some k \<and> cache c1 = cache c"
  using assms by (auto simp: EncryptedCache_ensureMasterKey_def split: option.splits sum.splits)

lemma set_plain:
  "EncryptedCache_set P J H salt iv t0 key v T False c =
     (Inr (), c\<lparr>cache := (cache c)(hashKey P key \<mapsto>
        \<lparr>ce_data = Inl v, encrypted = False, ce_expiresAt = t0 + T, ce_createdAt = t0\<rparr>)\<rparr>)"
  by (simp add: EncryptedCache_set_def)

lemma set_encrypted:
  assumes "EncryptedCache_set P J H salt iv t0 key v T True c = (Inr (), c1)"
  shows "\<exists>k text blob. masterKey c1 = Some k \<and> stringify J v = Some text
           \<and> encrypt P salt iv t0 text k = Inr blob
           \<and> cache c1 (hashKey P key) = Some
                \<lparr>ce_data = Inr (data blob), encrypted = True, ce_expiresAt = t0 + T, ce_createdAt = t0\<rparr>"
  using assms
  by (auto simp: EncryptedCache_set_def Let_def dest!: ensureMasterKey_Inr
        split: prod.splits sum.splits option.splits)

lemma get_expired:
  assumes "cache c (hashKey P key) = Some entry" "ce_expiresAt entry < t"
  shows "EncryptedCache_get P J H t key c = (None, c\<lparr>cache := (cache c)(hashKey P key := None)\<rparr>)"
  using assms by (simp add: EncryptedCache_get_def)

lemma get_plain:
  assumes "cache c (hashKey P key) = Some entry" "t \<le> ce_expiresAt entry" "\<not> encrypted entry"
  shows "EncryptedCache_get P J H t key c = (Some (ce_data entry), c)"
  using assms by (simp add: EncryptedCache_get_def)

lemma get_encrypted:
  assumes "cache c (hashKey P key) = Some entry" "t \<le> ce_expiresAt entry" "encrypted entry"
    and "masterKey c = Some k" "ce_data entry = Inr text"
    and "decrypt P \<lparr>data = text, version = 1, timestamp = None\<rparr> k = Inr plain"
    and "parse J plain = Some v"
  shows "EncryptedCache_get P J H t key c = (Some (Inl v), c)"
  using assms by (simp add: EncryptedCache_get_def ensureMasterKey_cached)

lemma get_after_set:
  assumes set: "EncryptedCache_set P J H salt iv t0 key v T enc c = (Inr (), c1)"
    and enc: "enc \<Longrightarrow> platform_ok P \<and> length salt = 64 \<and> length iv = 16
                \<and> (\<exists>text. stringify J v = Some text \<and> isWellFormed text \<and> parse J text = Some v)"
    and t: "t \<le> t0 + T"
  shows "EncryptedCache_get P J H t key c1 = (Some (Inl v), c1)"
proof (cases enc)
  case False
  then show ?thesis
    using set t by (auto simp: set_plain intro!: get_plain[THEN trans])
next
  case True
  have set': "EncryptedCache_set P J H salt iv t0 key v T True c = (Inr (), c1)"
    using set True by simp
  obtain k str blob where k: "masterKey c1 = Some k" and str: "stringify J v = Some str"
    and blob: "encrypt P salt iv t0 str k = Inr blob"
    and entry: "cache c1 (hashKey P key) = Some
         \<lparr>ce_data = Inr (data blob), encrypted = True, ce_expiresAt = t0 + T, ce_createdAt = t0\<rparr>"
    using set_encrypted[OF set'] by blast
  have ok: "platform_ok P" "length salt = 64" "length iv = 16"
    and wf: "isWellFormed str" and parse: "parse J str = Some v"
    using enc[OF True] str by auto
  have "decrypt P \<lparr>data = data blob, version = 1, timestamp = None\<rparr> k = Inr str"
    using decrypt_of_encrypt[OF ok blob] utf8_roundtrip[OF wf] by simp
  then show ?thesis
    using get_encrypted[OF entry _ _ k _ _ parse] t by simp
qed

lemma get_after_set_expired:
  assumes set: "EncryptedCache_set P J H salt iv t0 key v T enc c = (Inr (), c1)"
    and t: "t0 + T < t"
  shows "EncryptedCache_get P J H t key c1 = (None, c1\<lparr>cache := (cache c1)(hashKey P key := None)\<rparr>)"
proof (cases enc)
  case False
  then show ?thesis
    using set t by (auto simp: set_plain intro!: get_expired)
next
  case True
  then have "EncryptedCache_set P J H salt iv t0 key v T True c = (Inr (), c1)"
    using set by simp
  from set_encrypted[OF this] show ?thesis
    using t by (auto intro!: get_expired)
qed

text \<open>
  What \<^verbatim>\<open>get\<close> returns for an encrypted entry that has not expired, whatever the
  value: what \<^verbatim>\<open>JSON.parse\<close> makes of the text \<^verbatim>\<open>JSON.stringify\<close> produced, as UTF-8
  keeps it.
\<close>

lemma get_after_set_encrypted:
  assumes set: "EncryptedCache_set P J H salt iv t0 key v T True c = (Inr (), c1)"
    and ok: "platform_ok P" "length salt = 64" "length iv = 16"
    and t: "t \<le> t0 + T"
  shows "\<exists>str. stringify J v = Some str
           \<and> fst (EncryptedCache_get P J H t key c1)
               = map_option Inl (parse J (utf8Decode (utf8Encode str)))"
proof -
  obtain k str blob where k: "masterKey c1 = Some k" and str: "stringify J v = Some str"
    and blob: "encrypt P salt iv t0 str k = Inr blob"
    and entry: "cache c1 (hashKey P key) = Some
         \<lparr>ce_data = Inr (data blob), encrypted = True, ce_expiresAt = t0 + T, ce_createdAt = t0\<rparr>"
    using set_encrypted[OF set] by blast
  have "decrypt P \<lparr>data = data blob, version = 1, timestamp = None\<rparr> k
      = Inr (utf8Decode (utf8Encode str))"
    using decrypt_of_encrypt[OF ok blob] by simp
  then have "fst (EncryptedCache_get P J H t key c1)
      = map_option Inl (parse J (utf8Decode (utf8Encode str)))"
    using entry k t
    by (cases "parse J (utf8Decode (utf8Encode str))")
       (simp_all add: EncryptedCache_get_def ensureMasterKey_cached)
  then show ?thesis
    using str by simp
qed

text \<open>
  C6 (as amended). After \<^verbatim>\<open>set(key, value, T)\<close> at time \<open>t0\<close> has returned,
  \<^verbatim>\<open>get(key)\<close> returns the value at every time up to and including \<open>t0 + T\<close>, and
  at every time after \<open>t0 + T\<close> it returns \<^verbatim>\<open>null\<close> and deletes the entry. For an
  encrypted entry the value is one that \<^verbatim>\<open>JSON.stringify\<close> turns into a well-formed
  text which \<^verbatim>\<open>JSON.parse\<close> reads back, on a platform that meets \<open>platform_ok\<close>;
  for any other value of an encrypted entry, \<^verbatim>\<open>get\<close> returns up to \<open>t0 + T\<close> what
  \<^verbatim>\<open>JSON.parse\<close> makes of the text of \<^verbatim>\<open>JSON.stringify\<close>.
\<close>

theorem cache_entry_lifetime:
  assumes "EncryptedCache_set P J H salt iv t0 key v T enc c = (Inr (), c1)"
  shows "((enc \<longrightarrow> platform_ok P \<and> length salt = 64 \<and> length iv = 16
             \<and> (\<exists>text. stringify J v = Some text \<and> isWellFormed text \<and> parse J text = Some v))
          \<and> t \<le> t0 + T \<longrightarrow> EncryptedCache_get P J H t key c1 = (Some (Inl v), c1))
       \<and> (t0 + T < t \<longrightarrow>
            EncryptedCache_get P J H t key c1 = (None, c1\<lparr>cache := (cache c1)(hashKey P key := None)\<rparr>))
       \<and> (enc \<and> platform_ok P \<and> length salt = 64 \<and> length iv = 16 \<and> t \<le> t0 + T \<longrightarrow>
            (\<exists>str. stringify J v = Some str
               \<and> fst (EncryptedCache_get P J H t key c1)
                   = map_option Inl (parse J (utf8Decode (utf8Encode str)))))"
proof -
  have 1: "EncryptedCache_get P J H t key c1 = (Some (Inl v), c1)"
    if "enc \<longrightarrow> platform_ok P \<and> length salt = 64 \<and> length iv = 16
          \<and> (\<exists>text. stringify J v = Some text \<and> isWellFormed text \<and> parse J text = Some v)"
      "t \<le> t0 + T"
    using get_after_set[OF assms _ that(2)] that(1) by blast
  have 3: "\<exists>str. stringify J v = Some str
               \<and> fst (EncryptedCache_get P J H t key c1)
                   = map_option Inl (parse J (utf8Decode (utf8Encode str)))"
    if "enc" "platform_ok P" "length salt = 64" "length iv = 16" "t \<le> t0 + T"
    using get_after_set_encrypted[OF assms[unfolded eqTrueI[OF that(1)]] that(2,3,4,5)] .
  show ?thesis
    using 1 3 get_after_set_expired[OF assms, of t] by blast
qed

lemma set_succeeds:
  assumes "platform_ok P" "iv \<noteq> []" "stringify J v = Some str"
    and "masterKey c \<noteq> None \<or> \<not> isl (getMasterKey H)"
  shows "\<exists>c1. EncryptedCache_set P J H salt iv t0 key v T enc c = (Inr (), c1)"
proof (cases enc)
  case False
  then show ?thesis by (simp add: set_plain)
next
  case True
  obtain k c0 where "EncryptedCache_ensureMasterKey H c = (Inr k, c0)"
    using assms(4)
    by (cases "masterKey c"; cases "getMasterKey H") (auto simp: EncryptedCache_ensureMasterKey_def)
  then show ?thesis
    using True assms(3) by (simp add: EncryptedCache_set_def encrypt_ok[OF assms(1,2)])
qed

lemma toy_set:
  "\<exists>c1. EncryptedCache_set toyPlatform textCodec linuxHost (replicate 64 7) (replicate 16 9) 0
      [0x6B] [0x76] 1000 True newEncryptedCache = (Inr (), c1)"
  by (rule set_succeeds[OF toy_ok]) (simp_all add: textCodec_def linuxHost_def)

lemma toy_set_nan:
  "\<exists>c1. EncryptedCache_set toyPlatform nanCodec linuxHost (replicate 64 7) (replicate 16 9) 0
      [0x6B] JsNaN 1000 True newEncryptedCache = (Inr (), c1)"
  by (rule set_succeeds[OF toy_ok]) (simp_all add: nanCodec_def linuxHost_def)

lemma utf8_null: "utf8Decode (utf8Encode [0x6E, 0x75, 0x6C, 0x6C]) = [0x6E, 0x75, 0x6C, 0x6C]"
  by (rule utf8_roundtrip) (simp add: isHighSurrogate_def isLowSurrogate_def)

theorem cache_entry_lifetime_witness:
  "EncryptedCache_get toyPlatform textCodec linuxHost 999 [0x6B]
     (snd (EncryptedCache_set toyPlatform textCodec linuxHost (replicate 64 7) (replicate 16 9) 0
        [0x6B] [0x76] 1000 True newEncryptedCache))
   = (Some (Inl [0x76]),
      snd (EncryptedCache_set toyPlatform textCodec linuxHost (replicate 64 7) (replicate 16 9) 0
        [0x6B] [0x76] 1000 True newEncryptedCache))
   \<and> fst (EncryptedCache_get toyPlatform textCodec linuxHost 1001 [0x6B]
     (snd (EncryptedCache_set toyPlatform textCodec linuxHost (replicate 64 7) (replicate 16 9) 0
        [0x6B] [0x76] 1000 True newEncryptedCache))) = None
   \<and> fst (EncryptedCache_get toyPlatform nanCodec linuxHost 999 [0x6B]
     (snd (EncryptedCache_set toyPlatform nanCodec linuxHost (replicate 64 7) (replicate 16 9) 0
        [0x6B] JsNaN 1000 True newEncryptedCache))) = Some (Inl JsNull)"
proof -
  obtain c1 where set: "EncryptedCache_set toyPlatform textCodec linuxHost (replicate 64 7)
      (replicate 16 9) 0 [0x6B] [0x76] 1000 True newEncryptedCache = (Inr (), c1)"
    using toy_set by blast
  obtain c2 where set2: "EncryptedCache_set toyPlatform nanCodec linuxHost (replicate 64 7)
      (replicate 16 9) 0 [0x6B] JsNaN 1000 True newEncryptedCache = (Inr (), c2)"
    using toy_set_nan by blast
  have codec: "True \<longrightarrow> platform_ok toyPlatform \<and> length (replicate 64 (7::byte)) = 64
      \<and> length (replicate 16 (9::byte)) = 16
      \<and> (\<exists>str. stringify textCodec [0x76] = Some str \<and> isWellFormed str
            \<and> parse textCodec str = Some [0x76])"
    using toy_ok by (simp add: textCodec_def isHighSurrogate_def isLowSurrogate_def)
  have 1: "EncryptedCache_get toyPlatform textCodec linuxHost 999 [0x6B] c1 = (Some (Inl [0x76]), c1)"
    using cache_entry_lifetime[OF set, of 999, THEN conjunct1] codec by simp
  have 2: "fst (EncryptedCache_get toyPlatform textCodec linuxHost 1001 [0x6B] c1) = None"
    using cache_entry_lifetime[OF set, of 1001, THEN conjunct2, THEN conjunct1] by simp
  have "\<exists>str. stringify nanCodec JsNaN = Some str
          \<and> fst (EncryptedCache_get toyPlatform nanCodec linuxHost 999 [0x6B] c2)
              = map_option Inl (parse nanCodec (utf8Decode (utf8Encode str)))"
    using cache_entry_lifetime[OF set2, of 999, THEN conjunct2, THEN conjunct2] toy_ok by simp
  then have 3: "fst (EncryptedCache_get toyPlatform nanCodec linuxHost 999 [0x6B] c2) = Some (Inl JsNull)"
    by (auto simp: nanCodec_def utf8_null)
  show ?thesis
    using 1 2 3 by (simp add: set set2)
qed

text \<open>
  The claim as written has a miss at \<open>T\<close> milliseconds, and the value back before.
  The test of \<^verbatim>\<open>get\<close> is \<^verbatim>\<open>Date.now() > entry.expiresAt\<close>: an entry set at time 0
  with a TTL of 1000 ms is still returned at time 1000. And an encrypted entry goes
  through JSON: \<^verbatim>\<open>NaN\<close> set at time 0 is read at time 500 as \<^verbatim>\<open>null\<close>.
\<close>

theorem cache_entry_present_at_expiry:
  "fst (EncryptedCache_get toyPlatform textCodec linuxHost 1000 [0x6B]
     (snd (EncryptedCache_set toyPlatform textCodec linuxHost (replicate 64 7) (replicate 16 9) 0
        [0x6B] [0x76] 1000 True newEncryptedCache))) = Some (Inl [0x76])
   \<and> fst (EncryptedCache_set toyPlatform nanCodec linuxHost (replicate 64 7) (replicate 16 9) 0
        [0x6B] JsNaN 1000 True newEncryptedCache) = Inr ()
   \<and> fst (EncryptedCache_get toyPlatform nanCodec linuxHost 500 [0x6B]
     (snd (EncryptedCache_set toyPlatform nanCodec linuxHost (replicate 64 7) (replicate 16 9) 0
        [0x6B] JsNaN 1000 True newEncryptedCache))) = Some (Inl JsNull)"
proof -
  obtain c1 where set: "EncryptedCache_set toyPlatform textCodec linuxHost (replicate 64 7)
      (replicate 16 9) 0 [0x6B] [0x76] 1000 True newEncryptedCache = (Inr (), c1)"
    using toy_set by blast
  obtain c2 where set2: "EncryptedCache_set toyPlatform nanCodec linuxHost (replicate 64 7)
      (replicate 16 9) 0 [0x6B] JsNaN 1000 True newEncryptedCache = (Inr (), c2)"
    using toy_set_nan by blast
  have 1: "EncryptedCache_get toyPlatform textCodec linuxHost 1000 [0x6B] c1 = (Some (Inl [0x76]), c1)"
    by (rule get_after_set[OF set])
       (simp_all add: toy_ok textCodec_def isHighSurrogate_def isLowSurrogate_def)
  have "\<exists>str. stringify nanCodec JsNaN = Some str
          \<and> fst (EncryptedCache_get toyPlatform nanCodec linuxHost 500 [0x6B] c2)
              = map_option Inl (parse nanCodec (utf8Decode (utf8Encode str)))"
    by (rule get_after_set_encrypted[OF set2 toy_ok]) simp_all
  then have 2: "fst (EncryptedCache_get toyPlatform nanCodec linuxHost 500 [0x6B] c2) = Some (Inl JsNull)"
    by (auto simp: nanCodec_def utf8_null)
  show ?thesis
    using 1 2 by (simp add: set set2)
qed

lemma ensureMasterKey_cache:
  "cache (snd (EncryptedCache_ensureMasterKey H c)) = cache c"
  by (auto simp: EncryptedCache_ensureMasterKey_def split: option.splits sum.splits)

lemma get_decrypt_fails:
  assumes "cache c (hashKey P key) = Some entry" "encrypted entry" "decryptFails P H c entry"
  shows "fst (EncryptedCache_get P J H t key c) = None
       \<and> cache (snd (EncryptedCache_get P J H t key c)) = (cache c)(hashKey P key := None)"
proof (cases "ce_expiresAt entry < t")
  case True
  then show ?thesis using assms(1) by (simp add: get_expired)
next
  case False
  obtain r c1 where e: "EncryptedCache_ensureMasterKey H c = (r, c1)"
    by (cases "EncryptedCache_ensureMasterKey H c")
  have c1: "cache c1 = cache c"
    using ensureMasterKey_cache[of H c] e by simp
  show ?thesis
    using assms False e c1
    by (cases r; cases "ce_data entry")
       (auto simp: EncryptedCache_get_def Let_def decryptFails_def split: sum.splits)
qed

lemma get_returns_decrypted:
  assumes "cache c (hashKey P key) = Some entry" "encrypted entry"
    and "EncryptedCache_get P J H t key c = (Some x, c')"
  shows "\<exists>k str plain v. fst (EncryptedCache_ensureMasterKey H c) = Inr k \<and> ce_data entry = Inr str
           \<and> decrypt P \<lparr>data = str, version = 1, timestamp = None\<rparr> k = Inr plain
           \<and> parse J plain = Some v \<and> x = Inl v"
  using assms
  by (auto simp: EncryptedCache_get_def Let_def split: if_splits prod.splits sum.splits option.splits)

text \<open>
  C7. For an entry marked encrypted whose payload fails to decrypt (the master key
  cannot be loaded, the stored data is not a text, or \<^verbatim>\<open>decrypt\<close> throws),
  \<^verbatim>\<open>get\<close> returns \<^verbatim>\<open>null\<close> and the entry is gone from the map; \<^verbatim>\<open>get\<close> has
  no throwing outcome; and a value it returns for an encrypted entry is the parsed
  plaintext of a successful decryption.
\<close>

theorem cache_get_self_heals:
  assumes "cache c (hashKey P key) = Some entry" "encrypted entry"
  shows "(decryptFails P H c entry \<longrightarrow>
            fst (EncryptedCache_get P J H t key c) = None
          \<and> cache (snd (EncryptedCache_get P J H t key c)) = (cache c)(hashKey P key := None))
       \<and> (\<forall>x c'. EncryptedCache_get P J H t key c = (Some x, c') \<longrightarrow>
            (\<exists>k str plain v. fst (EncryptedCache_ensureMasterKey H c) = Inr k
               \<and> ce_data entry = Inr str
               \<and> decrypt P \<lparr>data = str, version = 1, timestamp = None\<rparr> k = Inr plain
               \<and> parse J plain = Some v \<and> x = Inl v))"
  using get_decrypt_fails[OF assms] get_returns_decrypted[OF assms] by blast

text \<open>An entry whose text is not a payload at all, read with the key ring failing.\<close>

theorem cache_get_self_heals_witness:
  "fst (EncryptedCache_get toyPlatform textCodec (linuxHost\<lparr>getMasterKey := Inl MasterKeyError\<rparr>) 5 [0x6B]
      \<lparr>cache = [hashKey toyPlatform [0x6B] \<mapsto>
          \<lparr>ce_data = Inr [0x21], encrypted = True, ce_expiresAt = 10, ce_createdAt = 0\<rparr>],
       masterKey = None\<rparr>) = None
   \<and> cache (snd (EncryptedCache_get toyPlatform textCodec (linuxHost\<lparr>getMasterKey := Inl MasterKeyError\<rparr>) 5 [0x6B]
      \<lparr>cache = [hashKey toyPlatform [0x6B] \<mapsto>
          \<lparr>ce_data = Inr [0x21], encrypted = True, ce_expiresAt = 10, ce_createdAt = 0\<rparr>],
       masterKey = None\<rparr>)) (hashKey toyPlatform [0x6B]) = None
   \<and> fst (EncryptedCache_get toyPlatform textCodec linuxHost 5 [0x6B]
      \<lparr>cache = [hashKey toyPlatform [0x6B] \<mapsto>
          \<lparr>ce_data = Inr [0x21], encrypted = True, ce_expiresAt = 10, ce_createdAt = 0\<rparr>],
       masterKey = None\<rparr>) = None"
proof -
  let ?e = "\<lparr>ce_data = Inr [0x21], encrypted = True, ce_expiresAt = 10, ce_createdAt = 0\<rparr>
              :: jsstring CacheEntry"
  let ?c = "\<lparr>cache = [hashKey toyPlatform [0x6B] \<mapsto> ?e], masterKey = None\<rparr>"
  have entry: "cache ?c (hashKey toyPlatform [0x6B]) = Some ?e" and enc: "encrypted ?e"
    by simp_all
  have f1: "decryptFails toyPlatform (linuxHost\<lparr>getMasterKey := Inl MasterKeyError\<rparr>) ?c ?e"
    by (simp add: decryptFails_def EncryptedCache_ensureMasterKey_def)
  have f2: "decryptFails toyPlatform linuxHost ?c ?e"
    by (simp add: decryptFails_def EncryptedCache_ensureMasterKey_def linuxHost_def decrypt_def
          ENCRYPTION_VERSION_def DEFAULT_SECURITY_CONFIG_def subarray_def toyPlatform_def
          cipherivError_def)
  show ?thesis
    using cache_get_self_heals[OF entry enc, where H = "linuxHost\<lparr>getMasterKey := Inl MasterKeyError\<rparr>"
        and J = textCodec and t = 5] f1
      cache_get_self_heals[OF entry enc, where H = linuxHost and J = textCodec and t = 5] f2
    by simp
qed

section \<open>Credentials manager\<close>

lemma ensureMasterKey_available:
  assumes "availableKey H w = Some k"
  shows "CredentialsManager_ensureMasterKey H w = (Inr k, w\<lparr>cmMasterKey := Some k\<rparr>)"
  using assms
  by (cases w)
     (auto simp: availableKey_def CredentialsManager_ensureMasterKey_def split: option.splits sum.splits)

lemma ensureMasterKey_unavailable:
  assumes "availableKey H w = None"
  shows "\<exists>e. CredentialsManager_ensureMasterKey H w = (Inl e, w)"
  using assms
  by (auto simp: availableKey_def CredentialsManager_ensureMasterKey_def split: option.splits sum.splits)

lemma getTokens_expired_None:
  assumes "diskTokens w = Some (Document doc)" "st_expiresAt doc = Some t" "t \<le> clock w"
  shows "fst (getTokens P H w) = None"
  using assms
  by (cases "availableKey H w")
     (auto simp: getTokens_def dest!: ensureMasterKey_unavailable ensureMasterKey_available)

lemma getTokens_expired_deleted:
  assumes "diskTokens w = Some (Document doc)" "st_expiresAt doc = Some t" "t \<le> clock w"
    and "availableKey H w = Some k"
  shows "diskTokens (snd (getTokens P H w)) = None"
  using assms by (simp add: getTokens_def ensureMasterKey_available deleteTokens_def)

lemma getTokens_Some:
  assumes "getTokens P H w = (Some (token, sid), w')"
  shows "\<exists>doc k. diskTokens w = Some (Document doc) \<and> availableKey H w = Some k
           \<and> (\<forall>t. st_expiresAt doc = Some t \<longrightarrow> clock w < t)
           \<and> decrypt P (st_accessToken doc) k = Inr token
           \<and> diskTokens w' = diskTokens w"
proof (cases "availableKey H w")
  case None
  then show ?thesis
    using assms ensureMasterKey_unavailable[OF None]
    by (auto simp: getTokens_def split: option.splits)
next
  case (Some k)
  show ?thesis
    using assms Some
    by (auto simp: getTokens_def ensureMasterKey_available[OF Some]
          split: option.splits jsonFile.splits if_splits sum.splits)
qed

text \<open>
  C8 (as amended). For a stored session document whose \<^verbatim>\<open>expiresAt\<close> is at or before
  the time of the read, \<^verbatim>\<open>getTokens\<close> returns \<^verbatim>\<open>null\<close>, and it deletes the tokens
  file whenever the master key can be loaded. Whatever the state, a session that
  \<^verbatim>\<open>getTokens\<close> returns comes from a document that has not expired and whose access
  token decrypts under the master key.
\<close>

theorem getTokens_never_stale:
  assumes "diskTokens w = Some (Document doc)" "st_expiresAt doc = Some t" "t \<le> clock w"
  shows "fst (getTokens P H w) = None
       \<and> (availableKey H w \<noteq> None \<longrightarrow> diskTokens (snd (getTokens P H w)) = None)
       \<and> (\<forall>w0 token sid w'. getTokens P H w0 = (Some (token, sid), w') \<longrightarrow>
            (\<exists>d k. diskTokens w0 = Some (Document d) \<and> availableKey H w0 = Some k
               \<and> (\<forall>t'. st_expiresAt d = Some t' \<longrightarrow> clock w0 < t')
               \<and> decrypt P (st_accessToken d) k = Inr token))"
proof -
  have "\<exists>d k. diskTokens w0 = Some (Document d) \<and> availableKey H w0 = Some k
               \<and> (\<forall>t'. st_expiresAt d = Some t' \<longrightarrow> clock w0 < t')
               \<and> decrypt P (st_accessToken d) k = Inr token"
    if "getTokens P H w0 = (Some (token, sid), w')" for w0 token sid w'
    using getTokens_Some[OF that] by blast
  then show ?thesis
    using getTokens_expired_None[OF assms] getTokens_expired_deleted[OF assms] by blast
qed

theorem getTokens_never_stale_witness:
  "fst (getTokens toyPlatform linuxHost
          ((initialWorld 100)\<lparr>diskTokens := Some (Document expiredSession)\<rparr>)) = None
   \<and> diskTokens (snd (getTokens toyPlatform linuxHost
          ((initialWorld 100)\<lparr>diskTokens := Some (Document expiredSession)\<rparr>))) = None"
proof -
  let ?w = "(initialWorld 100)\<lparr>diskTokens := Some (Document expiredSession)\<rparr>"
  have 1: "diskTokens ?w = Some (Document expiredSession)" by simp
  have 2: "st_expiresAt expiredSession = Some 50" by (simp add: expiredSession_def)
  have 3: "50 \<le> clock ?w" by (simp add: initialWorld_def)
  have 4: "availableKey linuxHost ?w \<noteq> None"
    by (simp add: availableKey_def initialWorld_def linuxHost_def)
  show ?thesis
    using getTokens_never_stale[OF 1 2 3, of toyPlatform linuxHost] 4 by blast
qed

text \<open>
  The claim as written has the file of every expired session deleted. The master key is
  loaded first inside the \<^verbatim>\<open>try\<close> block; when the key ring throws, the \<^verbatim>\<open>catch\<close>
  returns \<^verbatim>\<open>null\<close> before the expiry is looked at, and the expired file stays.
\<close>

theorem getTokens_expired_file_kept:
  "fst (getTokens toyPlatform (linuxHost\<lparr>getMasterKey := Inl MasterKeyError\<rparr>)
          ((initialWorld 100)\<lparr>diskTokens := Some (Document expiredSession)\<rparr>)) = None
   \<and> diskTokens (snd (getTokens toyPlatform (linuxHost\<lparr>getMasterKey := Inl MasterKeyError\<rparr>)
          ((initialWorld 100)\<lparr>diskTokens := Some (Document expiredSession)\<rparr>)))
       = Some (Document expiredSession)"
  by (simp add: getTokens_def CredentialsManager_ensureMasterKey_def initialWorld_def)

section \<open>Locations of the local files\<close>

lemma getConfigDir_last: "last (getConfigDir H) = ''diabetes-m-mcp''"
  by (simp add: getConfigDir_def pathJoin_def split: os.splits)

lemma dirname_pathJoin: "dirname (pathJoin p [f]) = p"
  by (simp add: dirname_def pathJoin_def)

text \<open>
  C9 (the code departs from it). The credentials document, the session document and the
  audit log are written into \<^verbatim>\<open>~/.diabetesm\<close> on every operating system; only the
  fallback key file goes into the per-OS directory of \<^verbatim>\<open>getConfigDir()\<close>, and the two
  directories are different on every host. The set-up tool reports a credentials file
  under \<^verbatim>\<open>getConfigDir()\<close>, which is not the file the credentials manager writes.
\<close>

theorem config_directories_differ:
  "dirname (CREDENTIALS_PATH H) = pathJoin (homedir H) [''.diabetesm'']
   \<and> dirname (TOKENS_PATH H) = pathJoin (homedir H) [''.diabetesm'']
   \<and> dirname (AUDIT_LOG_PATH H) = pathJoin (homedir H) [''.diabetesm'']
   \<and> dirname (FALLBACK_KEY_FILE H) = getConfigDir H
   \<and> dirname (FALLBACK_KEY_FILE H) \<noteq> dirname (CREDENTIALS_PATH H)
   \<and> dirname (CREDENTIALS_PATH linuxHost) = [''home'', ''user'', ''.diabetesm'']
   \<and> dirname (FALLBACK_KEY_FILE linuxHost) = [''home'', ''user'', ''.config'', ''diabetes-m-mcp'']
   \<and> credentialsFile (setupResult H ok msg) \<noteq> CREDENTIALS_PATH H"
proof -
  have dirs: "dirname (CREDENTIALS_PATH H) = pathJoin (homedir H) [''.diabetesm'']"
    "dirname (TOKENS_PATH H) = pathJoin (homedir H) [''.diabetesm'']"
    "dirname (AUDIT_LOG_PATH H) = pathJoin (homedir H) [''.diabetesm'']"
    "dirname (FALLBACK_KEY_FILE H) = getConfigDir H" for H
    by (simp_all add: CREDENTIALS_PATH_def TOKENS_PATH_def AUDIT_LOG_PATH_def FALLBACK_KEY_FILE_def
          credentials_CONFIG_DIR_def audit_CONFIG_DIR_def keyring_CONFIG_DIR_def dirname_pathJoin)
  have "last (getConfigDir H) \<noteq> last (pathJoin (homedir H) [''.diabetesm''])"
    by (simp add: getConfigDir_last pathJoin_def)
  then have ne: "getConfigDir H \<noteq> pathJoin (homedir H) [''.diabetesm'']"
    by auto
  have "dirname (credentialsFile (setupResult H ok msg)) \<noteq> dirname (CREDENTIALS_PATH H)"
    using ne by (simp add: dirs(1) setupResult_def dirname_pathJoin)
  then have cf: "credentialsFile (setupResult H ok msg) \<noteq> CREDENTIALS_PATH H"
    by auto
  have linux: "pathJoin (homedir linuxHost) [''.diabetesm''] = [''home'', ''user'', ''.diabetesm'']"
    "getConfigDir linuxHost = [''home'', ''user'', ''.config'', ''diabetes-m-mcp'']"
    by (simp_all add: getConfigDir_def linuxHost_def pathJoin_def)
  show ?thesis
    using ne cf by (simp add: dirs linux)
qed

section \<open>Authentication layer: what each operation changes\<close>

lemma preserved_refl [simp]: "preserved H w w"
  by (simp add: preserved_def)

lemma preserved_trans: "preserved H w w1 \<Longrightarrow> preserved H w1 w2 \<Longrightarrow> preserved H w w2"
  by (simp add: preserved_def)

lemma extended_refl [simp]: "extended w w"
  by (simp add: extended_def)

lemma extended_trans: "extended w w1 \<Longrightarrow> extended w1 w2 \<Longrightarrow> extended w w2"
  by (auto simp: extended_def)

lemma ensureMasterKey_cases:
  "(\<exists>e. CredentialsManager_ensureMasterKey H w = (Inl e, w) \<and> availableKey H w = None)
   \<or> (\<exists>k. CredentialsManager_ensureMasterKey H w = (Inr k, w\<lparr>cmMasterKey := Some k\<rparr>)
          \<and> availableKey H w = Some k)"
  using ensureMasterKey_available[of H w] ensureMasterKey_unavailable[of H w]
  by (cases "availableKey H w") auto

lemma availableKey_cached [simp]:
  "availableKey H (w\<lparr>cmMasterKey := Some k\<rparr>) = Some k"
  by (simp add: availableKey_def)

lemma availableKey_updates [simp]:
  "availableKey H (w\<lparr>randomCalls := a\<rparr>) = availableKey H w"
  "availableKey H (w\<lparr>trace := b\<rparr>) = availableKey H w"
  "availableKey H (w\<lparr>diskTokens := c\<rparr>) = availableKey H w"
  "availableKey H (w\<lparr>diskCredentials := d\<rparr>) = availableKey H w"
  "availableKey H (w\<lparr>authState := e\<rparr>) = availableKey H w"
  "availableKey H (w\<lparr>loginCalls := f\<rparr>) = availableKey H w"
  "availableKey H (w\<lparr>verifyCalls := g\<rparr>) = availableKey H w"
  "availableKey H (w\<lparr>httpCalls := h\<rparr>) = availableKey H w"
  "availableKey H (w\<lparr>clock := i\<rparr>) = availableKey H w"
  "availableKey H (w\<lparr>rateLimiter := j\<rparr>) = availableKey H w"
  by (simp_all add: availableKey_def)

lemma ensureMasterKey_frame:
  assumes "CredentialsManager_ensureMasterKey H w = (r, w1)"
  shows "preserved H w w1 \<and> trace w1 = trace w \<and> authState w1 = authState w
       \<and> diskTokens w1 = diskTokens w \<and> clock w1 = clock w
       \<and> (\<forall>k. r = Inr k \<longrightarrow> availableKey H w = Some k \<and> w1 = w\<lparr>cmMasterKey := Some k\<rparr>)"
  using assms ensureMasterKey_cases[of H w] by (auto simp: preserved_def)

lemma encryptW_frame:
  assumes "encryptW P H p k w = (r, w1)"
  shows "w1 = w\<lparr>randomCalls := randomCalls w + 2\<rparr>"
  using assms by (auto simp: encryptW_def Let_def)

lemma encryptW_ok:
  assumes "platform_ok P" "host_ok H"
  shows "encryptW P H p k w = (Inr (sealW P H p k w), w\<lparr>randomCalls := randomCalls w + 2\<rparr>)"
    and "decrypt P (sealW P H p k w) k = Inr (utf8Decode (utf8Encode p))"
proof -
  let ?salt = "randomBytes H (randomCalls w) 64" and ?iv = "randomBytes H (randomCalls w + 1) 16"
  have len: "length ?salt = 64" "length ?iv = 16"
    using assms(2) by (simp_all add: host_ok_def)
  then have iv: "?iv \<noteq> []" by auto
  have rt: "roundTrip P ?salt ?iv (clock w) p k = Inr (utf8Decode (utf8Encode p))"
    by (rule roundTrip_utf8[OF assms(1) len])
  obtain blob where blob: "encrypt P ?salt ?iv (clock w) p k = Inr blob"
    using encrypt_ok[OF assms(1) iv] by blast
  have enc: "encryptW P H p k w = (Inr blob, w\<lparr>randomCalls := randomCalls w + 2\<rparr>)"
    using blob by (simp add: encryptW_def DEFAULT_SECURITY_CONFIG_def)
  then have seal: "sealW P H p k w = blob"
    by (simp add: sealW_def)
  show "encryptW P H p k w = (Inr (sealW P H p k w), w\<lparr>randomCalls := randomCalls w + 2\<rparr>)"
    using enc seal by simp
  show "decrypt P (sealW P H p k w) k = Inr (utf8Decode (utf8Encode p))"
    using rt blob seal by (simp add: roundTrip_def)
qed

lemma storeCredentials_frame:
  assumes "storeCredentials P H e p w = (r, w1)"
  shows "extended w w1 \<and> availableKey H w1 = availableKey H w \<and> httpCalls w1 = httpCalls w
       \<and> (isl r \<longrightarrow> trace w1 = trace w \<and> diskCredentials w1 = diskCredentials w)
       \<and> (\<not> isl r \<longrightarrow> trace w1 = trace w @ [CredentialsWritten])"
  using assms ensureMasterKey_cases[of H w]
  by (auto simp: storeCredentials_def Let_def extended_def dest!: encryptW_frame
        split: prod.splits sum.splits)

lemma storeCredentials_ok:
  assumes "platform_ok P" "host_ok H" "availableKey H w = Some k"
  shows "\<exists>doc w1. storeCredentials P H e p w = (Inr (), w1)
           \<and> diskCredentials w1 = Some (Document doc) \<and> cmMasterKey w1 = Some k
           \<and> decrypt P (sc_email doc) k = Inr (utf8Decode (utf8Encode e))
           \<and> decrypt P (sc_password doc) k = Inr (utf8Decode (utf8Encode p))"
  by (simp add: storeCredentials_def Let_def ensureMasterKey_available[OF assms(3)]
        encryptW_ok[OF assms(1,2)])

lemma getCredentials_frame:
  assumes "getCredentials P H w = (r, w1)"
  shows "preserved H w w1 \<and> trace w1 = trace w \<and> authState w1 = authState w
       \<and> diskTokens w1 = diskTokens w \<and> clock w1 = clock w
       \<and> (r \<noteq> None \<longrightarrow> availableKey H w \<noteq> None)"
  using assms ensureMasterKey_cases[of H w]
  by (auto simp: getCredentials_def preserved_def
        split: option.splits jsonFile.splits sum.splits)

lemma getCredentials_cong:
  assumes "diskCredentials w' = diskCredentials w" "availableKey H w' = availableKey H w"
  shows "fst (getCredentials P H w') = fst (getCredentials P H w)"
  using assms ensureMasterKey_cases[of H w] ensureMasterKey_cases[of H w']
  by (auto simp: getCredentials_def split: option.splits jsonFile.splits sum.splits)

lemma getCredentials_stored:
  assumes "diskCredentials w = Some (Document doc)" "availableKey H w = Some k"
    and "decrypt P (sc_email doc) k = Inr e" "decrypt P (sc_password doc) k = Inr p"
  shows "fst (getCredentials P H w) = Some (e, p)"
  using assms by (simp add: getCredentials_def ensureMasterKey_available)

lemma deleteTokens_frame:
  "preserved H w (deleteTokens w) \<and> extended w (deleteTokens w)
   \<and> authState (deleteTokens w) = authState w \<and> clock (deleteTokens w) = clock w"
  by (simp add: deleteTokens_def preserved_def extended_def)

lemma getTokens_frame:
  assumes "getTokens P H w = (r, w1)"
  shows "preserved H w w1 \<and> extended w w1 \<and> authState w1 = authState w \<and> clock w1 = clock w"
  using assms ensureMasterKey_cases[of H w]
  by (auto simp: getTokens_def preserved_def extended_def deleteTokens_def
        split: option.splits jsonFile.splits sum.splits if_splits)

lemma encryptV_frame:
  assumes "encryptV P H v k w = (r, w1)"
  shows "w1 = w\<lparr>randomCalls := randomCalls w + 2\<rparr>"
  using assms
  by (cases v) (auto simp: encryptV_def encryptW_def Let_def split: sum.splits)

lemma storeTokens_frame:
  assumes "storeTokens P H token sid expiry w = (r, w1)"
  shows "preserved H w w1 \<and> extended w w1 \<and> authState w1 = authState w \<and> clock w1 = clock w"
  using assms ensureMasterKey_cases[of H w]
  by (auto simp: storeTokens_def Let_def preserved_def extended_def dest!: encryptV_frame
        split: prod.splits sum.splits option.splits if_splits)

lemma performLogin_frame:
  assumes "performLogin H e p w = (r, w1)"
  shows "preserved H w w1 \<and> trace w1 = trace w @ [LoginRequest] \<and> clock w1 = clock w
       \<and> isAuthenticated (authState w1) = isAuthenticated (authState w)"
  using assms
  by (auto simp: performLogin_def Let_def preserved_def
        split: loginResult.splits loginBody.splits if_splits option.splits prod.splits)

lemma verifySession_frame:
  assumes "verifySession H token sid w = (r, w1)"
  shows "preserved H w w1 \<and> trace w1 = trace w @ [VerifyRequest] \<and> clock w1 = clock w"
  using assms by (auto simp: verifySession_def preserved_def)

lemma login_stored:
  "login P H None None w =
    (case getCredentials P H w of
       (None, w1) \<Rightarrow> (Inl NoCredentialsAvailable, w1)
     | (Some (em, pw), w1) \<Rightarrow> sessionPart P H em pw w1)"
  by (simp add: login_def explicitCredentials_def sessionPart_def split: prod.splits option.splits)

lemma login_explicit:
  assumes "e \<noteq> []" "p \<noteq> []"
  shows "login P H (Some e) (Some p) w =
    (case storeCredentials P H e p w of
       (Inl err, w1) \<Rightarrow> (Inl err, w1)
     | (Inr u, w1) \<Rightarrow> sessionPart P H e p w1)"
  using assms
  by (simp add: login_def explicitCredentials_def sessionPart_def split: prod.splits sum.splits)

text \<open>
  A fresh login that does not return \<^verbatim>\<open>false\<close> leaves the client authenticated, also
  when it throws: the state is set before \<^verbatim>\<open>storeTokens\<close> runs.
\<close>

lemma freshLogin_frame:
  assumes "freshLogin P H e p w = (r, w1)"
  shows "preserved H w w1 \<and> extended w w1 \<and> (r \<noteq> Inr False \<longrightarrow> isAuthenticated (authState w1))"
proof -
  obtain resp wa where pl: "performLogin H e p w = (resp, wa)"
    by (cases "performLogin H e p w")
  note f1 = performLogin_frame[OF pl]
  show ?thesis
  proof (cases "lr_success resp \<and> truthy (lr_token resp)")
    case False
    then have "freshLogin P H e p w = (Inr False, wa)"
      by (auto simp: freshLogin_def pl)
    then show ?thesis
      using assms f1 by (auto simp: extended_def)
  next
    case True
    let ?w2 = "wa\<lparr>authState := (authState wa)
                    \<lparr>accessToken := lr_token resp, sessionId := orNull (lr_sessionId resp),
                     isAuthenticated := True, lastAuth := Some (clock wa)\<rparr>\<rparr>"
    obtain r3 w3 where st: "storeTokens P H (lr_token resp) (lr_sessionId resp)
        (Some (clock ?w2 + 24 * 60 * 60 * 1000)) ?w2 = (r3, w3)"
      by (cases "storeTokens P H (lr_token resp) (lr_sessionId resp)
                   (Some (clock ?w2 + 24 * 60 * 60 * 1000)) ?w2")
    note f3 = storeTokens_frame[OF st]
    have res: "freshLogin P H e p w = (case r3 of Inl err \<Rightarrow> (Inl err, w3) | Inr u \<Rightarrow> (Inr True, w3))"
      using True st by (simp add: freshLogin_def pl Let_def split: sum.splits)
    have "preserved H w ?w2" "extended w ?w2"
      using f1 by (simp_all add: preserved_def extended_def)
    then have "preserved H w w3" "extended w w3"
      using f3 preserved_trans extended_trans by (blast, blast)
    moreover have "isAuthenticated (authState w3)"
      using f3 by simp
    ultimately show ?thesis
      using assms res by (auto split: sum.splits)
  qed
qed

lemma sessionPart_frame:
  assumes "sessionPart P H e p w = (r, w1)"
  shows "preserved H w w1 \<and> extended w w1 \<and> (r \<noteq> Inr False \<longrightarrow> isAuthenticated (authState w1))"
proof -
  obtain t wa where gt: "getTokens P H w = (t, wa)"
    by (cases "getTokens P H w")
  note f1 = getTokens_frame[OF gt]
  show ?thesis
  proof (cases t)
    case None
    then have "freshLogin P H e p wa = (r, w1)"
      using assms gt by (simp add: sessionPart_def)
    from freshLogin_frame[OF this] show ?thesis
      using f1 preserved_trans extended_trans by blast
  next
    case (Some ts)
    obtain token sid where ts: "ts = (token, sid)" by (cases ts)
    obtain v wb where vs: "verifySession H token sid wa = (v, wb)"
      by (cases "verifySession H token sid wa")
    note f2 = verifySession_frame[OF vs]
    have pw: "preserved H w wb" "extended w wb"
      using f1 f2 preserved_trans by (blast, auto simp: extended_def)
    show ?thesis
    proof (cases v)
      case True
      then show ?thesis
        using assms gt Some ts vs pw
        by (auto simp: sessionPart_def preserved_def extended_def)
    next
      case False
      then have "freshLogin P H e p wb = (r, w1)"
        using assms gt Some ts vs by (simp add: sessionPart_def)
      from freshLogin_frame[OF this] show ?thesis
        using pw preserved_trans extended_trans by blast
    qed
  qed
qed

text \<open>
  \<^verbatim>\<open>login()\<close> with credentials that can be read throws only after it has marked the
  client authenticated.
\<close>

lemma login_frame:
  assumes "login P H None None w = (r, w1)"
  shows "preserved H w w1 \<and> extended w w1 \<and> (r = Inr True \<longrightarrow> isAuthenticated (authState w1))
       \<and> (isl r \<and> fst (getCredentials P H w) \<noteq> None \<longrightarrow> isAuthenticated (authState w1))"
proof -
  obtain c wa where gc: "getCredentials P H w = (c, wa)"
    by (cases "getCredentials P H w")
  have f1: "preserved H w wa" "extended w wa"
    using getCredentials_frame[OF gc] by (simp_all add: extended_def)
  show ?thesis
  proof (cases c)
    case None
    then show ?thesis
      using assms gc f1 by (auto simp: login_stored)
  next
    case (Some ep)
    obtain e p where "ep = (e, p)" by (cases ep)
    then have "sessionPart P H e p wa = (r, w1)"
      using assms gc Some by (simp add: login_stored)
    from sessionPart_frame[OF this]
    have "preserved H w w1" "extended w w1" "r \<noteq> Inr False \<longrightarrow> isAuthenticated (authState w1)"
      using f1 preserved_trans extended_trans by blast+
    then show ?thesis
      by auto
  qed
qed

lemma ensureAuthenticated_frame:
  assumes "ensureAuthenticated P H w = (r, w1)"
  shows "preserved H w w1 \<and> extended w w1 \<and> (\<not> isl r \<longrightarrow> isAuthenticated (authState w1))"
proof (cases "isAuthenticated (authState w)")
  case True
  then show ?thesis
    using assms by (auto simp: ensureAuthenticated_def)
next
  case False
  obtain r0 w0 where lg: "login P H None None w = (r0, w0)"
    by (cases "login P H None None w")
  from login_frame[OF lg] show ?thesis
    using assms False lg
    by (auto simp: ensureAuthenticated_def split: sum.splits if_splits)
qed

lemma handleAuthError_frame:
  assumes "handleAuthError P H w = (r, w1)"
  shows "preserved H w w1 \<and> extended w w1 \<and> (r = Inr True \<longrightarrow> isAuthenticated (authState w1))
       \<and> (isl r \<and> fst (getCredentials P H w) \<noteq> None \<longrightarrow> isAuthenticated (authState w1))"
proof -
  let ?w0 = "deleteTokens (w\<lparr>authState := (authState w)\<lparr>isAuthenticated := False, accessToken := Falsy\<rparr>\<rparr>)"
  have 0: "preserved H w ?w0" "extended w ?w0"
    by (simp_all add: deleteTokens_def preserved_def extended_def)
  then have c: "fst (getCredentials P H ?w0) = fst (getCredentials P H w)"
    by (intro getCredentials_cong) (simp_all add: preserved_def)
  have "login P H None None ?w0 = (r, w1)"
    using assms by (simp add: handleAuthError_def)
  from login_frame[OF this]
  have "preserved H ?w0 w1" "extended ?w0 w1" "r = Inr True \<longrightarrow> isAuthenticated (authState w1)"
    "isl r \<and> fst (getCredentials P H w) \<noteq> None \<longrightarrow> isAuthenticated (authState w1)"
    using c by simp_all
  moreover have "preserved H w w1" "extended w w1"
    using 0 calculation(1,2) preserved_trans extended_trans by blast+
  ultimately show ?thesis
    by simp
qed

section \<open>The request loop\<close>

lemma sleeps_append [simp]: "sleeps k (xs @ ys) = sleeps k xs @ sleeps k ys"
  by (induction k xs rule: sleeps.induct) simp_all

lemma sleeps_single [simp]:
  "sleeps k [Slept k' d] = (if k' = k then [d] else [])" "sleeps k [ApiRequest n] = []"
  by simp_all

lemma timerDelay_backoff [simp]: "timerDelay (Some (backoffDelay n)) = backoffDelay n"
proof -
  have "(1::int) \<le> 2 ^ n"
    by simp
  then have "(1::int) \<le> 1000 * 2 ^ n"
    by linarith
  then show ?thesis
    by (simp add: timerDelay_def backoffDelay_def TIMEOUT_MAX_def INITIAL_DELAY_def
          BACKOFF_FACTOR_def MAX_DELAY_def min_def)
qed

lemma map_upt_shift: "map f [0..<Suc x] = f 0 # map (\<lambda>j. f (Suc j)) [0..<x]"
proof -
  have "[0..<Suc x] = 0 # map Suc [0..<x]"
    by (simp add: upt_conv_Cons map_Suc_upt del: upt_Suc)
  then show ?thesis
    by (simp add: comp_def del: upt_Suc)
qed

lemma request_Done:
  assumes "attempt P J H m e b n w = (Done r, w')"
  shows "request P J H m e b n w = (r, w')"
  using assms by (subst request.simps) simp

lemma request_Again:
  assumes "attempt P J H m e b n w = (Again, w')"
  shows "request P J H m e b n w = request P J H m e b (n + 1) w'"
  using assms by (subst request.simps) simp

lemma sleep_frame [simp]:
  "preserved H w (sleep k d w)" "authState (sleep k d w) = authState w"
  "httpCalls (sleep k d w) = httpCalls w" "trace (sleep k d w) = trace w @ [Slept k (timerDelay d)]"
  "diskCredentials (sleep k d w) = diskCredentials w" "availableKey H (sleep k d w) = availableKey H w"
  "diskTokens (sleep k d w) = diskTokens w" "loginCalls (sleep k d w) = loginCalls w"
  by (simp_all add: sleep_def preserved_def)

lemma waitForRateLimitW_frame [simp]:
  "preserved H w (waitForRateLimitW w)" "authState (waitForRateLimitW w) = authState w"
  "httpCalls (waitForRateLimitW w) = httpCalls w"
  "sleeps BackoffWait (trace (waitForRateLimitW w)) = sleeps BackoffWait (trace w)"
  "sleeps RetryAfterWait (trace (waitForRateLimitW w)) = sleeps RetryAfterWait (trace w)"
  "filter isRemoteCall (trace (waitForRateLimitW w)) = filter isRemoteCall (trace w)"
  "diskCredentials (waitForRateLimitW w) = diskCredentials w"
  "availableKey H (waitForRateLimitW w) = availableKey H w"
  "diskTokens (waitForRateLimitW w) = diskTokens w" "loginCalls (waitForRateLimitW w) = loginCalls w"
  by (simp_all add: waitForRateLimitW_def Let_def preserved_def split: prod.splits)


lemma ensureAuthenticated_authenticated:
  assumes "isAuthenticated (authState w)"
  shows "ensureAuthenticated P H w = (Inr (), w)"
  using assms by (simp add: ensureAuthenticated_def)

subsection \<open>The \<^verbatim>\<open>try\<close> statement\<close>

lemma onCatch_frame:
  assumes "onCatch err n w = (s, w')"
  shows "preserved H w w' \<and> authState w' = authState w \<and> (\<forall>e. s \<noteq> Done (Inl e))
       \<and> (s = Again \<longrightarrow> n < MAX_RETRIES)"
  using assms by (auto simp: onCatch_def split: if_splits)

text \<open>Nothing escapes the \<^verbatim>\<open>try\<close> statement, and it makes one call of the endpoint.\<close>

lemma tryBlock_frame:
  assumes "tryBlock P J H m e b n w = (s, w')"
  shows "(\<forall>err. s \<noteq> Done (Inl err)) \<and> (s = Again \<longrightarrow> n < MAX_RETRIES)
       \<and> httpCalls w' = httpCalls w + 1"
proof -
  let ?w3 = "w\<lparr>httpCalls := httpCalls w + 1, trace := trace w @ [ApiRequest n]\<rparr>"
  have h4: "httpCalls w4 = httpCalls w + 1" if "handleAuthError P H ?w3 = (r4, w4)" for r4 w4
    using handleAuthError_frame[OF that] by (simp add: preserved_def)
  have hc: "(\<forall>err. s5 \<noteq> Done (Inl err)) \<and> (s5 = Again \<longrightarrow> n < MAX_RETRIES)
       \<and> httpCalls w5 = httpCalls w4"
    if "onCatch c n w4 = (s5, w5)" for c w4 w5 and s5 :: "'a step"
    using onCatch_frame[OF that, of H] by (simp add: preserved_def)
  show ?thesis
  proof (cases "fetchResponse H (httpCalls w) m e b")
    case Aborted
    then show ?thesis
      using assms hc[of AbortError ?w3 s w'] by (simp add: tryBlock_def Let_def)
  next
    case (NetworkFailure msg)
    then show ?thesis
      using assms hc[of "FetchError msg" ?w3 s w'] by (simp add: tryBlock_def Let_def)
  next
    case (Response r)
    show ?thesis
    proof (cases "status r = 401")
      case True
      obtain r4 w4 where h: "handleAuthError P H ?w3 = (r4, w4)"
        by (cases "handleAuthError P H ?w3")
      show ?thesis
      proof (cases r4)
        case (Inl e4)
        then have "onCatch (Thrown e4) n w4 = (s, w')"
          using assms Response True h by (simp add: tryBlock_def Let_def)
        from hc[OF this] h4[OF h] show ?thesis
          by simp
      next
        case (Inr reauthed)
        then have "(s, w') = (if reauthed \<and> n < 1 then (Again, w4)
            else (Done (Inr (failure SESSION_EXPIRED (Fixed ''Session expired'') None w4)), w4))"
          using assms Response True h by (simp add: tryBlock_def Let_def)
        then show ?thesis
          using h4[OF h] by (auto simp: MAX_RETRIES_def split: if_splits)
      qed
    next
      case False
      show ?thesis
      proof (cases "status r = 429 \<or> (status r \<in> set RETRYABLE_STATUS_CODES \<and> n < MAX_RETRIES)")
        case True
        then show ?thesis
          using assms Response False by (auto simp: tryBlock_def Let_def split: if_splits)
      next
        case other: False
        show ?thesis
        proof (cases "responseBody r")
          case (BodyError msg)
          then have "onCatch (FetchError msg) n ?w3 = (s, w')"
            using assms Response False other by (auto simp: tryBlock_def Let_def)
          from hc[OF this] show ?thesis
            by simp
        next
          case (BodyText str)
          show ?thesis
          proof (cases "httpOk (status r) \<and> parse J str = None")
            case True
            then have "onCatch JsonError n ?w3 = (s, w')"
              using assms Response False other BodyText by (auto simp: tryBlock_def Let_def)
            from hc[OF this] show ?thesis
              by simp
          next
            case False
            then show ?thesis
              using assms Response \<open>status r \<noteq> 401\<close> other BodyText
              by (auto simp: tryBlock_def Let_def split: if_splits option.splits)
          qed
        qed
      qed
    qed
  qed
qed


subsection \<open>One call of \<^verbatim>\<open>request\<close>\<close>

lemma attempt_authenticated:
  assumes "isAuthenticated (authState w)"
  shows "attempt P J H m e b n w = tryBlock P J H m e b n (waitForRateLimitW w)"
  using assms by (simp add: attempt_def ensureAuthenticated_authenticated)


lemma attempt_Again:
  assumes "attempt P J H m e b n w = (Again, w')"
  shows "n < MAX_RETRIES"
  using assms tryBlock_frame[of P J H m e b n _ Again w']
  by (auto simp: attempt_def split: prod.splits sum.splits)

lemma request_induct:
  assumes "\<And>n w. (\<And>w'. attempt P J H m e b n w = (Again, w') \<Longrightarrow> Q (n + 1) w') \<Longrightarrow> Q n w"
  shows "Q n w"
proof (induction "MAX_RETRIES - n" arbitrary: n w)
  case 0
  show ?case
    apply (rule assms)
    using 0 apply -
    apply (drule attempt_Again)
    apply simp
    done
next
  case (Suc d)
  show ?case
    apply (rule assms)
    apply (rule Suc(1))
    using Suc(2) apply simp
    done
qed

lemma attempt_httpCalls:
  assumes "attempt P J H m e b n w = (s, w')"
  shows "httpCalls w' \<le> httpCalls w + 1"
proof -
  obtain r w2 where ea: "ensureAuthenticated P H (waitForRateLimitW w) = (r, w2)"
    by (cases "ensureAuthenticated P H (waitForRateLimitW w)")
  have h2: "httpCalls w2 = httpCalls w"
    using ensureAuthenticated_frame[OF ea] by (simp add: preserved_def)
  show ?thesis
  proof (cases r)
    case (Inl x)
    then show ?thesis using assms ea h2 by (simp add: attempt_def)
  next
    case (Inr u)
    then have "tryBlock P J H m e b n w2 = (s, w')"
      using assms ea by (simp add: attempt_def)
    from tryBlock_frame[OF this] h2 show ?thesis
      by simp
  qed
qed


subsection \<open>The whole call\<close>

lemma request_httpCalls:
  "httpCalls (snd (request P J H m e b n w)) \<le> httpCalls w + Suc (MAX_RETRIES - n)"
proof (induction n w rule: request_induct[where P = P and J = J and H = H and m = m and e = e and b = b])
  case (1 n w)
  obtain s w1 where a: "attempt P J H m e b n w = (s, w1)"
    by (cases "attempt P J H m e b n w")
  note h = attempt_httpCalls[OF a]
  show ?case
  proof (cases s)
    case (Done r)
    then show ?thesis using a h by (simp add: request_Done)
  next
    case Again
    then have a': "attempt P J H m e b n w = (Again, w1)" using a by simp
    from attempt_Again[OF a'] 1[OF a'] h show ?thesis
      by (simp add: request_Again[OF a'])
  qed
qed




subsection \<open>Runs to evaluate\<close>

lemma linux_ok: "host_ok linuxHost"
  by (simp add: host_ok_def linuxHost_def)

lemma storeCredentials_stored:
  assumes "platform_ok P" "host_ok H" "availableKey H w \<noteq> None"
  shows "\<exists>w1. storeCredentials P H e p w = (Inr (), w1)
           \<and> fst (getCredentials P H w1) = Some (utf8Decode (utf8Encode e), utf8Decode (utf8Encode p))
           \<and> trace w1 = trace w @ [CredentialsWritten]
           \<and> authState w1 = authState w \<and> diskTokens w1 = diskTokens w
           \<and> loginCalls w1 = loginCalls w \<and> availableKey H w1 = availableKey H w"
proof -
  obtain k where k: "availableKey H w = Some k"
    using assms(3) by auto
  have "storeCredentials P H e p w =
      (Inr (), snd (storeCredentials P H e p w))
      \<and> diskCredentials (snd (storeCredentials P H e p w)) = Some (Document
            \<lparr>sc_email = sealW P H e k (w\<lparr>cmMasterKey := Some k\<rparr>),
             sc_password = sealW P H p k (w\<lparr>cmMasterKey := Some k, randomCalls := randomCalls w + 2\<rparr>),
             sc_createdAt = Some (clock w), sc_updatedAt = Some (clock w)\<rparr>)
      \<and> trace (snd (storeCredentials P H e p w)) = trace w @ [CredentialsWritten]
      \<and> authState (snd (storeCredentials P H e p w)) = authState w
      \<and> diskTokens (snd (storeCredentials P H e p w)) = diskTokens w
      \<and> loginCalls (snd (storeCredentials P H e p w)) = loginCalls w
      \<and> availableKey H (snd (storeCredentials P H e p w)) = Some k"
    by (simp add: storeCredentials_def Let_def ensureMasterKey_available[OF k]
          encryptW_ok[OF assms(1,2)])
  moreover have "decrypt P (sealW P H e k (w\<lparr>cmMasterKey := Some k\<rparr>)) k
      = Inr (utf8Decode (utf8Encode e))"
    "decrypt P (sealW P H p k (w\<lparr>cmMasterKey := Some k, randomCalls := randomCalls w + 2\<rparr>)) k
      = Inr (utf8Decode (utf8Encode p))"
    by (simp_all add: encryptW_ok[OF assms(1,2)])
  ultimately show ?thesis
    using getCredentials_stored[of "snd (storeCredentials P H e p w)" _ H k P] k
    by (intro exI[of _ "snd (storeCredentials P H e p w)"]) simp
qed



lemma sessionPart_login_rejected:
  assumes "diskTokens w = None"
    and "loginResponse H (loginCalls w) e p = LoginHttp cs st body" "\<not> httpOk st"
  shows "fst (sessionPart P H e p w) = Inr False"
  using assms
  by (simp add: sessionPart_def getTokens_def freshLogin_def performLogin_def Let_def
        loginFailure_def)







subsection \<open>Retries\<close>

text \<open>
  A server under which every \<^verbatim>\<open>try\<close> statement retries while it may, with a delay that
  depends on the retry count and on the number of the call, and fails after the last.
\<close>

lemma retry_loop:
  assumes k: "k = BackoffWait \<or> k = RetryAfterWait"
    and step: "\<And>n w. \<exists>mm dd. tryBlock P J H m e b n w =
          (if n < MAX_RETRIES
           then (Again, sleep k (d n (httpCalls w))
                   (w\<lparr>httpCalls := Suc (httpCalls w), trace := trace w @ [ApiRequest n]\<rparr>))
           else (Done (Inr (failure (c (httpCalls w)) mm dd
                   (w\<lparr>httpCalls := Suc (httpCalls w), trace := trace w @ [ApiRequest n]\<rparr>))),
                 w\<lparr>httpCalls := Suc (httpCalls w), trace := trace w @ [ApiRequest n]\<rparr>))"
  shows "isAuthenticated (authState w) \<Longrightarrow> n \<le> MAX_RETRIES \<Longrightarrow>
    \<exists>r w'. request P J H m e b n w = (Inr r, w') \<and> \<not> success r
       \<and> map_option code (error r) = Some (c (httpCalls w + (MAX_RETRIES - n)))
       \<and> httpCalls w' = httpCalls w + (MAX_RETRIES + 1 - n)
       \<and> filter isRemoteCall (trace w')
           = filter isRemoteCall (trace w) @ map ApiRequest [n..<MAX_RETRIES + 1]
       \<and> sleeps k (trace w') = sleeps k (trace w)
           @ map (\<lambda>j. timerDelay (d (n + j) (httpCalls w + j))) [0..<MAX_RETRIES - n]
       \<and> (\<forall>k'. (k' = BackoffWait \<or> k' = RetryAfterWait) \<and> k' \<noteq> k
              \<longrightarrow> sleeps k' (trace w') = sleeps k' (trace w))"
proof (induction "MAX_RETRIES - n" arbitrary: n w)
  case 0
  let ?w2 = "waitForRateLimitW w"
  let ?w3 = "?w2\<lparr>httpCalls := Suc (httpCalls ?w2), trace := trace ?w2 @ [ApiRequest n]\<rparr>"
  from 0 have n: "\<not> n < MAX_RETRIES" "MAX_RETRIES + 1 - n = 1" "[n..<MAX_RETRIES + 1] = [n]"
    "MAX_RETRIES - n = 0"
    by simp_all
  obtain mm dd where "tryBlock P J H m e b n ?w2
      = (Done (Inr (failure (c (httpCalls ?w2)) mm dd ?w3)), ?w3)"
    using step[of n ?w2] n(1) by auto
  then have "attempt P J H m e b n w = (Done (Inr (failure (c (httpCalls w)) mm dd ?w3)), ?w3)"
    using 0(2) by (simp add: attempt_authenticated)
  then have "request P J H m e b n w = (Inr (failure (c (httpCalls w)) mm dd ?w3), ?w3)"
    by (rule request_Done)
  moreover have "httpCalls ?w3 = httpCalls w + 1"
    "filter isRemoteCall (trace ?w3) = filter isRemoteCall (trace w) @ [ApiRequest n]"
    "\<And>k'. k' = BackoffWait \<or> k' = RetryAfterWait \<Longrightarrow> sleeps k' (trace ?w3) = sleeps k' (trace w)"
    by auto
  ultimately show ?case
    using n k by (simp add: failure_def)
next
  case (Suc x)
  let ?w2 = "waitForRateLimitW w"
  let ?w3 = "?w2\<lparr>httpCalls := Suc (httpCalls ?w2), trace := trace ?w2 @ [ApiRequest n]\<rparr>"
  let ?w = "sleep k (d n (httpCalls w)) ?w3"
  from Suc have n: "n < MAX_RETRIES" "n + 1 \<le> MAX_RETRIES" "x = MAX_RETRIES - (n + 1)"
    by simp_all
  have "tryBlock P J H m e b n ?w2 = (Again, sleep k (d n (httpCalls ?w2)) ?w3)"
    using step[of n ?w2] n(1) by auto
  then have a: "attempt P J H m e b n w = (Again, ?w)"
    using Suc(3) by (simp add: attempt_authenticated)
  have auth: "isAuthenticated (authState ?w)"
    using Suc(3) by simp
  from Suc(1)[OF n(3) auth n(2)] obtain r w' where
    r: "request P J H m e b (n + 1) ?w = (Inr r, w')" "\<not> success r"
      "map_option code (error r) = Some (c (httpCalls ?w + (MAX_RETRIES - (n + 1))))"
      "httpCalls w' = httpCalls ?w + (MAX_RETRIES + 1 - (n + 1))"
      "filter isRemoteCall (trace w')
         = filter isRemoteCall (trace ?w) @ map ApiRequest [n + 1..<MAX_RETRIES + 1]"
      "sleeps k (trace w') = sleeps k (trace ?w)
         @ map (\<lambda>j. timerDelay (d (n + 1 + j) (httpCalls ?w + j))) [0..<MAX_RETRIES - (n + 1)]"
      "\<forall>k'. (k' = BackoffWait \<or> k' = RetryAfterWait) \<and> k' \<noteq> k
              \<longrightarrow> sleeps k' (trace w') = sleeps k' (trace ?w)"
    by blast
  have h: "httpCalls ?w = httpCalls w + 1"
    by simp
  have f: "filter isRemoteCall (trace ?w) = filter isRemoteCall (trace w) @ [ApiRequest n]"
    by simp
  have s: "\<And>k'. k' = BackoffWait \<or> k' = RetryAfterWait \<Longrightarrow>
      sleeps k' (trace ?w) = sleeps k' (trace w)
         @ (if k' = k then [timerDelay (d n (httpCalls w))] else [])"
    by auto
  have u: "[n..<MAX_RETRIES + 1] = n # [n + 1..<MAX_RETRIES + 1]"
    using n(1) by (simp add: upt_conv_Cons del: upt_Suc)
  have x: "MAX_RETRIES - n = Suc (MAX_RETRIES - (n + 1))"
    using n(1) by simp
  have "request P J H m e b n w = (Inr r, w')"
    using request_Again[OF a] r(1) by simp
  moreover have "map_option code (error r) = Some (c (httpCalls w + (MAX_RETRIES - n)))"
    using r(3) h n(1) by (simp add: x)
  moreover have "httpCalls w' = httpCalls w + (MAX_RETRIES + 1 - n)"
    using r(4) h n(1) by simp
  moreover have "filter isRemoteCall (trace w')
      = filter isRemoteCall (trace w) @ map ApiRequest [n..<MAX_RETRIES + 1]"
    using r(5) f u by simp
  moreover have "sleeps k (trace w') = sleeps k (trace w)
      @ map (\<lambda>j. timerDelay (d (n + j) (httpCalls w + j))) [0..<MAX_RETRIES - n]"
    using r(6) s[of k] k h unfolding x map_upt_shift by simp
  moreover have "\<forall>k'. (k' = BackoffWait \<or> k' = RetryAfterWait) \<and> k' \<noteq> k
              \<longrightarrow> sleeps k' (trace w') = sleeps k' (trace w)"
    using r(7) s by simp
  ultimately show ?case
    using r(2) by blast
qed

lemma request_retryable:
  assumes auth: "isAuthenticated (authState w)"
    and fetch: "\<forall>i. fetchResponse H i m e b = Response (rs i)
                  \<and> status (rs i) \<in> set RETRYABLE_STATUS_CODES \<and> status (rs i) \<noteq> 429"
  shows "\<exists>r w'. request P J H m e b 0 w = (Inr r, w') \<and> \<not> success r
       \<and> map_option code (error r)
           = Some (case responseBody (rs (httpCalls w + MAX_RETRIES)) of
                     BodyText str \<Rightarrow> INVALID_RESPONSE | BodyError msg \<Rightarrow> NETWORK_ERROR)
       \<and> httpCalls w' = httpCalls w + (MAX_RETRIES + 1)
       \<and> filter isRemoteCall (trace w')
           = filter isRemoteCall (trace w) @ map ApiRequest [0..<MAX_RETRIES + 1]
       \<and> sleeps BackoffWait (trace w') = sleeps BackoffWait (trace w) @ map backoffDelay [0..<MAX_RETRIES]
       \<and> sleeps RetryAfterWait (trace w') = sleeps RetryAfterWait (trace w)"
proof -
  have "\<exists>mm dd. tryBlock P J H m e b n w0 =
          (if n < MAX_RETRIES
           then (Again, sleep BackoffWait (Some (backoffDelay n))
                   (w0\<lparr>httpCalls := Suc (httpCalls w0), trace := trace w0 @ [ApiRequest n]\<rparr>))
           else (Done (Inr (failure
                   (case responseBody (rs (httpCalls w0)) of
                      BodyText str \<Rightarrow> INVALID_RESPONSE | BodyError msg \<Rightarrow> NETWORK_ERROR) mm dd
                   (w0\<lparr>httpCalls := Suc (httpCalls w0), trace := trace w0 @ [ApiRequest n]\<rparr>))),
                 w0\<lparr>httpCalls := Suc (httpCalls w0), trace := trace w0 @ [ApiRequest n]\<rparr>))"
    for n w0
  proof -
    have r: "fetchResponse H (httpCalls w0) m e b = Response (rs (httpCalls w0))"
      "status (rs (httpCalls w0)) \<in> set RETRYABLE_STATUS_CODES" "status (rs (httpCalls w0)) \<noteq> 429"
      using fetch by simp_all
    then have "status (rs (httpCalls w0)) \<noteq> 401" "\<not> httpOk (status (rs (httpCalls w0)))"
      by (auto simp: RETRYABLE_STATUS_CODES_def httpOk_def)
    then show ?thesis
      using r
      by (cases "responseBody (rs (httpCalls w0))") (auto simp: tryBlock_def Let_def onCatch_def)
  qed
  from retry_loop[where k = BackoffWait and d = "\<lambda>n i. Some (backoffDelay n)"
        and c = "\<lambda>i. case responseBody (rs i) of
                        BodyText str \<Rightarrow> INVALID_RESPONSE | BodyError msg \<Rightarrow> NETWORK_ERROR"
        and P = P and J = J and H = H and m = m and e = e and b = b and n = 0 and w = w,
        OF _ this auth]
  show ?thesis
    by auto
qed

lemma request_rate_limited:
  assumes auth: "isAuthenticated (authState w)"
    and fetch: "\<forall>i. fetchResponse H i m e b = Response (rs i) \<and> status (rs i) = 429"
  shows "\<exists>r w'. request P J H m e b 0 w = (Inr r, w') \<and> \<not> success r
       \<and> map_option code (error r) = Some RATE_LIMITED
       \<and> httpCalls w' = httpCalls w + (MAX_RETRIES + 1)
       \<and> filter isRemoteCall (trace w')
           = filter isRemoteCall (trace w) @ map ApiRequest [0..<MAX_RETRIES + 1]
       \<and> sleeps RetryAfterWait (trace w') = sleeps RetryAfterWait (trace w)
            @ map (\<lambda>j. timerDelay (retryAfterDelay (rs (httpCalls w + j)))) [0..<MAX_RETRIES]
       \<and> sleeps BackoffWait (trace w') = sleeps BackoffWait (trace w)"
proof -
  have "\<exists>mm dd. tryBlock P J H m e b n w0 =
          (if n < MAX_RETRIES
           then (Again, sleep RetryAfterWait (retryAfterDelay (rs (httpCalls w0)))
                   (w0\<lparr>httpCalls := Suc (httpCalls w0), trace := trace w0 @ [ApiRequest n]\<rparr>))
           else (Done (Inr (failure RATE_LIMITED mm dd
                   (w0\<lparr>httpCalls := Suc (httpCalls w0), trace := trace w0 @ [ApiRequest n]\<rparr>))),
                 w0\<lparr>httpCalls := Suc (httpCalls w0), trace := trace w0 @ [ApiRequest n]\<rparr>))"
    for n w0
    using fetch by (auto simp: tryBlock_def Let_def)
  from retry_loop[where k = RetryAfterWait and d = "\<lambda>n i. retryAfterDelay (rs i)"
        and c = "\<lambda>i. RATE_LIMITED"
        and P = P and J = J and H = H and m = m and e = e and b = b and n = 0 and w = w,
        OF _ this auth]
  show ?thesis
    by auto
qed

lemma request_network_failure:
  assumes auth: "isAuthenticated (authState w)"
    and fetch: "\<forall>i. \<exists>msg. fetchResponse H i m e b = NetworkFailure msg"
  shows "\<exists>r w'. request P J H m e b 0 w = (Inr r, w') \<and> \<not> success r
       \<and> map_option code (error r) = Some NETWORK_ERROR
       \<and> httpCalls w' = httpCalls w + (MAX_RETRIES + 1)
       \<and> filter isRemoteCall (trace w')
           = filter isRemoteCall (trace w) @ map ApiRequest [0..<MAX_RETRIES + 1]
       \<and> sleeps BackoffWait (trace w') = sleeps BackoffWait (trace w) @ map backoffDelay [0..<MAX_RETRIES]
       \<and> sleeps RetryAfterWait (trace w') = sleeps RetryAfterWait (trace w)"
proof -
  have "\<exists>mm dd. tryBlock P J H m e b n w0 =
          (if n < MAX_RETRIES
           then (Again, sleep BackoffWait (Some (backoffDelay n))
                   (w0\<lparr>httpCalls := Suc (httpCalls w0), trace := trace w0 @ [ApiRequest n]\<rparr>))
           else (Done (Inr (failure NETWORK_ERROR mm dd
                   (w0\<lparr>httpCalls := Suc (httpCalls w0), trace := trace w0 @ [ApiRequest n]\<rparr>))),
                 w0\<lparr>httpCalls := Suc (httpCalls w0), trace := trace w0 @ [ApiRequest n]\<rparr>))"
    for n w0
  proof -
    obtain msg where "fetchResponse H (httpCalls w0) m e b = NetworkFailure msg"
      using fetch by blast
    then show ?thesis
      by (auto simp: tryBlock_def Let_def onCatch_def)
  qed
  from retry_loop[where k = BackoffWait and d = "\<lambda>n i. Some (backoffDelay n)"
        and c = "\<lambda>i. NETWORK_ERROR"
        and P = P and J = J and H = H and m = m and e = e and b = b and n = 0 and w = w,
        OF _ this auth]
  show ?thesis
    by auto
qed

text \<open>
  C4 (as amended). A call of \<^verbatim>\<open>request\<close> makes at most \<open>MAX_RETRIES + 1 = 4\<close> calls of
  the API endpoint, whatever the server does (requests of the authentication manager
  are not among them). For an authenticated client:
  \<^item> when every call is answered with a status of \<^verbatim>\<open>RETRYABLE_STATUS_CODES\<close> other than
    429, the remote calls of the run are exactly the four calls of the endpoint, the
    delays between them are \<open>min (INITIAL_DELAY * BACKOFF_FACTOR ^ k) MAX_DELAY\<close> for
    \<open>k = 0, 1, 2\<close>, and the result is a failure, with code \<^verbatim>\<open>INVALID_RESPONSE\<close> when
    the body of the last response can be read and \<^verbatim>\<open>NETWORK_ERROR\<close> when it cannot;
  \<^item> when every call fails in the network, the same holds with code
    \<^verbatim>\<open>NETWORK_ERROR\<close>;
  \<^item> when every call is answered 429, there are four calls again, no backoff delay,
    the delay after each of the first three is the one its \<^verbatim>\<open>Retry-After\<close> header
    gives (\<open>retryAfterDelay\<close>, as the timer runs it), and the result is a failure with
    code \<^verbatim>\<open>RATE_LIMITED\<close>.
\<close>

theorem request_retries_bounded:
  "httpCalls (snd (request P J H m e b n w)) \<le> httpCalls w + (MAX_RETRIES - n + 1)
   \<and> (isAuthenticated (authState w)
        \<and> (\<forall>i. fetchResponse H i m e b = Response (rs i)
               \<and> status (rs i) \<in> set RETRYABLE_STATUS_CODES \<and> status (rs i) \<noteq> 429)
      \<longrightarrow> (\<exists>r w'. request P J H m e b 0 w = (Inr r, w') \<and> \<not> success r
             \<and> map_option code (error r)
                 = Some (case responseBody (rs (httpCalls w + MAX_RETRIES)) of
                           BodyText str \<Rightarrow> INVALID_RESPONSE | BodyError msg \<Rightarrow> NETWORK_ERROR)
             \<and> httpCalls w' = httpCalls w + (MAX_RETRIES + 1)
             \<and> filter isRemoteCall (trace w')
                 = filter isRemoteCall (trace w) @ map ApiRequest [0..<MAX_RETRIES + 1]
             \<and> sleeps BackoffWait (trace w') = sleeps BackoffWait (trace w)
                  @ map (\<lambda>k. min (INITIAL_DELAY * BACKOFF_FACTOR ^ k) MAX_DELAY) [0..<MAX_RETRIES]
             \<and> sleeps RetryAfterWait (trace w') = sleeps RetryAfterWait (trace w)))
   \<and> (isAuthenticated (authState w)
        \<and> (\<forall>i. \<exists>msg. fetchResponse H i m e b = NetworkFailure msg)
      \<longrightarrow> (\<exists>r w'. request P J H m e b 0 w = (Inr r, w') \<and> \<not> success r
             \<and> map_option code (error r) = Some NETWORK_ERROR
             \<and> httpCalls w' = httpCalls w + (MAX_RETRIES + 1)
             \<and> filter isRemoteCall (trace w')
                 = filter isRemoteCall (trace w) @ map ApiRequest [0..<MAX_RETRIES + 1]
             \<and> sleeps BackoffWait (trace w') = sleeps BackoffWait (trace w)
                  @ map (\<lambda>k. min (INITIAL_DELAY * BACKOFF_FACTOR ^ k) MAX_DELAY) [0..<MAX_RETRIES]
             \<and> sleeps RetryAfterWait (trace w') = sleeps RetryAfterWait (trace w)))
   \<and> (isAuthenticated (authState w)
        \<and> (\<forall>i. fetchResponse H i m e b = Response (rs i) \<and> status (rs i) = 429)
      \<longrightarrow> (\<exists>r w'. request P J H m e b 0 w = (Inr r, w') \<and> \<not> success r
             \<and> map_option code (error r) = Some RATE_LIMITED
             \<and> httpCalls w' = httpCalls w + (MAX_RETRIES + 1)
             \<and> filter isRemoteCall (trace w')
                 = filter isRemoteCall (trace w) @ map ApiRequest [0..<MAX_RETRIES + 1]
             \<and> sleeps RetryAfterWait (trace w') = sleeps RetryAfterWait (trace w)
                  @ map (\<lambda>k. timerDelay (retryAfterDelay (rs (httpCalls w + k)))) [0..<MAX_RETRIES]
             \<and> sleeps BackoffWait (trace w') = sleeps BackoffWait (trace w)))"
proof -
  have d: "backoffDelay = (\<lambda>k. min (INITIAL_DELAY * BACKOFF_FACTOR ^ k) MAX_DELAY)"
    by (rule ext) (simp add: backoffDelay_def)
  have "httpCalls (snd (request P J H m e b n w)) \<le> httpCalls w + (MAX_RETRIES - n + 1)"
    using request_httpCalls[of P J H m e b n w] by simp
  then show ?thesis
    using request_retryable[of w H m e b rs P J] request_network_failure[of w H m e b P J]
      request_rate_limited[of w H m e b rs P J]
    unfolding d by blast
qed

theorem request_retries_bounded_witness:
  "httpCalls (snd (request toyPlatform textCodec linuxHost [] [] None 0 (authenticatedWorld 0))) = 4
   \<and> filter isRemoteCall
        (trace (snd (request toyPlatform textCodec linuxHost [] [] None 0 (authenticatedWorld 0))))
       = [ApiRequest 0, ApiRequest 1, ApiRequest 2, ApiRequest 3]
   \<and> sleeps BackoffWait
        (trace (snd (request toyPlatform textCodec linuxHost [] [] None 0 (authenticatedWorld 0))))
       = [1000, 2000, 4000]
   \<and> map_option code
        (error (projr (fst (request toyPlatform textCodec linuxHost [] [] None 0
                              (authenticatedWorld 0))))) = Some INVALID_RESPONSE
   \<and> map_option code
        (error (projr (fst (request toyPlatform textCodec
             (linuxHost\<lparr>fetchResponse := \<lambda>i m e b. NetworkFailure []\<rparr>) [] [] None 0
             (authenticatedWorld 0))))) = Some NETWORK_ERROR
   \<and> sleeps RetryAfterWait
        (trace (snd (request toyPlatform textCodec
             (linuxHost\<lparr>fetchResponse := \<lambda>i m e b.
                 Response \<lparr>status = 429, retryAfter = Some [0x37], responseBody = BodyText []\<rparr>\<rparr>)
             [] [] None 0 (authenticatedWorld 0)))) = [7000, 7000, 7000]"
proof -
  let ?w = "authenticatedWorld 0"
  let ?N = "linuxHost\<lparr>fetchResponse := \<lambda>i m e b. NetworkFailure []\<rparr>"
  let ?r = "\<lparr>status = 429, retryAfter = Some [0x37], responseBody = BodyText []\<rparr>"
  let ?L = "linuxHost\<lparr>fetchResponse := \<lambda>i m e b. Response ?r\<rparr>"
  let ?s = "\<lparr>status = 503, retryAfter = None, responseBody = BodyText []\<rparr>"
  have a: "isAuthenticated (authState ?w)" "httpCalls ?w = 0" "trace ?w = []"
    by (simp_all add: authenticatedWorld_def initialWorld_def)
  have f: "\<forall>i. fetchResponse linuxHost i [] [] None = Response ((\<lambda>i. ?s) i)
               \<and> status ((\<lambda>i. ?s) i) \<in> set RETRYABLE_STATUS_CODES \<and> status ((\<lambda>i. ?s) i) \<noteq> 429"
    by (simp add: linuxHost_def RETRYABLE_STATUS_CODES_def)
  have g: "\<forall>i. \<exists>msg. fetchResponse ?N i [] [] None = NetworkFailure msg"
    by simp
  have h: "\<forall>i. fetchResponse ?L i [] [] None = Response ((\<lambda>i. ?r) i) \<and> status ((\<lambda>i. ?r) i) = 429"
    by simp
  have l: "map (\<lambda>k. min (INITIAL_DELAY * BACKOFF_FACTOR ^ k) MAX_DELAY) [0..<MAX_RETRIES]
             = [1000, 2000, 4000]"
    by (simp add: INITIAL_DELAY_def BACKOFF_FACTOR_def MAX_DELAY_def MAX_RETRIES_def upt_rec)
  have c: "map ApiRequest [0..<MAX_RETRIES + 1] = [ApiRequest 0, ApiRequest 1, ApiRequest 2, ApiRequest 3]"
    by (simp add: MAX_RETRIES_def upt_rec)
  have t: "timerDelay (retryAfterDelay ?r) = 7000"
    by (simp add: retryAfterDelay_def parseInt10_def isWhiteSpace_def isDigit_def digitsValue_def
          timerDelay_def TIMEOUT_MAX_def Let_def)
  then have p: "map (\<lambda>k. timerDelay (retryAfterDelay ((\<lambda>i. ?r) (httpCalls ?w + k)))) [0..<MAX_RETRIES]
             = [7000, 7000, 7000]"
    by (simp add: MAX_RETRIES_def upt_rec)
  have m: "MAX_RETRIES + 1 = 4"
    by (simp add: MAX_RETRIES_def)
  from request_retries_bounded[of toyPlatform textCodec linuxHost "[]" "[]" None 0 ?w "\<lambda>i. ?s"] a f
  obtain r w' where 1: "request toyPlatform textCodec linuxHost [] [] None 0 ?w = (Inr r, w')"
     "map_option code (error r) = Some INVALID_RESPONSE" "httpCalls w' = 4"
     "filter isRemoteCall (trace w') = [ApiRequest 0, ApiRequest 1, ApiRequest 2, ApiRequest 3]"
     "sleeps BackoffWait (trace w') = [1000, 2000, 4000]"
    unfolding l c by (auto simp: MAX_RETRIES_def)
  from request_retries_bounded[of toyPlatform textCodec ?N "[]" "[]" None 0 ?w] a g
  obtain r2 w2 where 2: "request toyPlatform textCodec ?N [] [] None 0 ?w = (Inr r2, w2)"
     "map_option code (error r2) = Some NETWORK_ERROR"
    by blast
  from request_retries_bounded[of toyPlatform textCodec ?L "[]" "[]" None 0 ?w "\<lambda>i. ?r"] a h
  obtain r3 w3 where 3: "request toyPlatform textCodec ?L [] [] None 0 ?w = (Inr r3, w3)"
     "sleeps RetryAfterWait (trace w3) = [7000, 7000, 7000]"
    unfolding p by auto
  show ?thesis
    using 1 2 3 by simp
qed

text \<open>
  The claim as written covers every retryable status. 429 is in
  \<^verbatim>\<open>RETRYABLE_STATUS_CODES\<close>, but the branch for 429 comes first: the delay is the one
  of the \<^verbatim>\<open>Retry-After\<close> header (60 seconds when it is absent), not the backoff delay,
  and the failure returned after the last call has code \<^verbatim>\<open>RATE_LIMITED\<close>.
\<close>

theorem rate_limited_not_backed_off:
  "429 \<in> set RETRYABLE_STATUS_CODES
   \<and> map_option code
        (error (projr (fst (request toyPlatform textCodec
             (linuxHost\<lparr>fetchResponse := \<lambda>i m e b.
                 Response \<lparr>status = 429, retryAfter = None, responseBody = BodyText []\<rparr>\<rparr>) [] [] None 0
             (authenticatedWorld 0))))) = Some RATE_LIMITED
   \<and> sleeps BackoffWait
        (trace (snd (request toyPlatform textCodec
             (linuxHost\<lparr>fetchResponse := \<lambda>i m e b.
                 Response \<lparr>status = 429, retryAfter = None, responseBody = BodyText []\<rparr>\<rparr>) [] [] None 0
             (authenticatedWorld 0)))) = []
   \<and> sleeps RetryAfterWait
        (trace (snd (request toyPlatform textCodec
             (linuxHost\<lparr>fetchResponse := \<lambda>i m e b.
                 Response \<lparr>status = 429, retryAfter = None, responseBody = BodyText []\<rparr>\<rparr>) [] [] None 0
             (authenticatedWorld 0)))) = [60000, 60000, 60000]"
proof -
  let ?w = "authenticatedWorld 0"
  let ?r = "\<lparr>status = 429, retryAfter = None, responseBody = BodyText []\<rparr>"
  let ?H = "linuxHost\<lparr>fetchResponse := \<lambda>i m e b. Response ?r\<rparr>"
  have a: "isAuthenticated (authState ?w)" "trace ?w = []"
    by (simp_all add: authenticatedWorld_def initialWorld_def)
  have f: "\<forall>i. fetchResponse ?H i [] [] None = Response ((\<lambda>i. ?r) i) \<and> status ((\<lambda>i. ?r) i) = 429"
    by simp
  have t: "timerDelay (retryAfterDelay ?r) = 60000"
    by (simp add: retryAfterDelay_def parseInt10_def isWhiteSpace_def isDigit_def digitsValue_def
          timerDelay_def TIMEOUT_MAX_def Let_def)
  then have l: "map (\<lambda>k. timerDelay (retryAfterDelay ((\<lambda>i. ?r) (httpCalls ?w + k)))) [0..<MAX_RETRIES]
             = [60000, 60000, 60000]"
    by (simp add: MAX_RETRIES_def upt_rec)
  from request_rate_limited[OF a(1) f, of toyPlatform textCodec]
  obtain res w' where 1: "request toyPlatform textCodec ?H [] [] None 0 ?w = (Inr res, w')"
     "map_option code (error res) = Some RATE_LIMITED"
     "sleeps RetryAfterWait (trace w') = [60000, 60000, 60000]"
     "sleeps BackoffWait (trace w') = []"
    unfolding l using a(2) by auto
  show ?thesis
    using 1 by (simp add: RETRYABLE_STATUS_CODES_def)
qed

section \<open>The set-up tool\<close>

lemma storeCredentials_key:
  assumes "storeCredentials P H e p w = (Inr u, w1)"
  shows "availableKey H w \<noteq> None"
  using assms ensureMasterKey_cases[of H w]
  by (auto simp: storeCredentials_def split: prod.splits sum.splits)

lemma authenticate_frame:
  assumes "authenticate P H e p w = (r, w')" "e \<noteq> []" "p \<noteq> []"
  shows "extended w w'"
proof (cases "storeCredentials P H e p w")
  case (Pair r1 w1)
  note f = storeCredentials_frame[OF Pair]
  show ?thesis
  proof (cases r1)
    case (Inl err)
    then show ?thesis
      using assms Pair f by (simp add: authenticate_def login_explicit)
  next
    case (Inr u)
    then have "sessionPart P H e p w1 = (r, w')"
      using assms Pair by (simp add: authenticate_def login_explicit)
    from sessionPart_frame[OF this] f show ?thesis
      using extended_trans by blast
  qed
qed

text \<open>
  After \<^verbatim>\<open>authenticate(email, password)\<close> has returned, the credentials file holds the
  email and the password as their UTF-8 encodings decode.
\<close>

lemma authenticate_keeps_credentials:
  assumes "authenticate P H e p w = (Inr b, w')" "e \<noteq> []" "p \<noteq> []"
    and "platform_ok P" "host_ok H"
  shows "fst (getCredentials P H w') = Some (utf8Decode (utf8Encode e), utf8Decode (utf8Encode p))"
proof (cases "storeCredentials P H e p w")
  case (Pair r1 w1)
  then obtain u where r1: "r1 = Inr u"
    using assms(1,2,3) by (cases r1) (simp_all add: authenticate_def login_explicit)
  have key: "availableKey H w \<noteq> None"
    using Pair r1 by (intro storeCredentials_key) simp
  from storeCredentials_stored[OF assms(4,5) key, of e p] Pair
  have g: "fst (getCredentials P H w1) = Some (utf8Decode (utf8Encode e), utf8Decode (utf8Encode p))"
    by auto
  have "sessionPart P H e p w1 = (Inr b, w')"
    using assms(1,2,3) Pair r1 by (simp add: authenticate_def login_explicit)
  from sessionPart_frame[OF this] have "preserved H w1 w'"
    by simp
  then have "fst (getCredentials P H w') = fst (getCredentials P H w1)"
    by (intro getCredentials_cong) (simp_all add: preserved_def)
  then show ?thesis
    using g by simp
qed

lemma setup_cases:
  assumes "executeSetupCredentials P H (SetupArgs e p) w = (r, w')"
  shows "(r = Inl ZodError \<and> w' = w \<and> (e = [] \<or> p = []))
       \<or> (e \<noteq> [] \<and> p \<noteq> [] \<and> (\<exists>err. storeCredentials P H e p w = (Inl err, w')
              \<and> r = Inl (FailedToStoreCredentials err)))
       \<or> (e \<noteq> [] \<and> p \<noteq> [] \<and> (\<exists>w1 r2. storeCredentials P H e p w = (Inr (), w1)
              \<and> authenticate P H e p w1 = (r2, w')
              \<and> r = (case r2 of
                       Inl err \<Rightarrow> Inl (FailedToStoreCredentials err)
                     | Inr authSuccess \<Rightarrow>
                        if \<not> authSuccess then
                          Inr (setupResult H False
                            ''Credentials saved but authentication failed. Please verify your email and password are correct for analytics.diabetes-m.com'')
                        else
                          Inr (setupResult H True
                            ''Credentials configured and verified successfully. You can now use all Diabetes:M tools.''))))"
  using assms
  by (auto simp: executeSetupCredentials_def split: if_splits prod.splits sum.splits)

lemma setup_first_write:
  assumes "executeSetupCredentials P H args w = (r, w')"
  shows "(isl r \<and> trace w' = trace w \<and> diskCredentials w' = diskCredentials w)
          \<or> (\<exists>evs. trace w' = trace w @ CredentialsWritten # evs)"
proof (cases args)
  case Malformed
  then show ?thesis
    using assms by (auto simp: executeSetupCredentials_def)
next
  case (SetupArgs e p)
  note c = setup_cases[OF assms[unfolded SetupArgs]]
  consider (zod) "r = Inl ZodError" "w' = w"
    | (store) err where "storeCredentials P H e p w = (Inl err, w')"
        "r = Inl (FailedToStoreCredentials err)"
    | (auth) w1 r2 where "e \<noteq> []" "p \<noteq> []" "storeCredentials P H e p w = (Inr (), w1)"
        "authenticate P H e p w1 = (r2, w')"
    using c by blast
  then show ?thesis
  proof cases
    case zod
    then show ?thesis by simp
  next
    case store
    then show ?thesis
      using storeCredentials_frame[OF store(1)] by simp
  next
    case auth
    have "trace w1 = trace w @ [CredentialsWritten]"
      using storeCredentials_frame[OF auth(3)] by simp
    moreover obtain evs where "trace w' = trace w1 @ evs"
      using authenticate_frame[OF auth(4,1,2)] by (auto simp: extended_def)
    ultimately show ?thesis
      by simp
  qed
qed

text \<open>A result of the tool comes from the store followed by \<^verbatim>\<open>authenticate\<close>.\<close>

lemma setup_result:
  assumes "executeSetupCredentials P H (SetupArgs e p) w = (Inr res, w')"
  shows "e \<noteq> [] \<and> p \<noteq> []
       \<and> (\<exists>w1. storeCredentials P H e p w = (Inr (), w1)
              \<and> authenticate P H e p w1 = (Inr (sr_success res), w'))
       \<and> sr_message res =
           (if sr_success res
            then ''Credentials configured and verified successfully. You can now use all Diabetes:M tools.''
            else ''Credentials saved but authentication failed. Please verify your email and password are correct for analytics.diabetes-m.com'')"
proof -
  obtain w1 r2 where a: "e \<noteq> []" "p \<noteq> []" "storeCredentials P H e p w = (Inr (), w1)"
      "authenticate P H e p w1 = (r2, w')"
      "Inr res = (case r2 of
              Inl err \<Rightarrow> Inl (FailedToStoreCredentials err)
            | Inr authSuccess \<Rightarrow>
                if \<not> authSuccess then
                  Inr (setupResult H False
                    ''Credentials saved but authentication failed. Please verify your email and password are correct for analytics.diabetes-m.com'')
                else
                  Inr (setupResult H True
                    ''Credentials configured and verified successfully. You can now use all Diabetes:M tools.''))"
    using setup_cases[OF assms] by auto
  obtain b where r2: "r2 = Inr b"
    using a(5) by (cases r2) simp_all
  have "sr_success res = b"
    using a(5) r2 by (auto simp: setupResult_def split: if_splits)
  moreover have "sr_message res =
           (if b
            then ''Credentials configured and verified successfully. You can now use all Diabetes:M tools.''
            else ''Credentials saved but authentication failed. Please verify your email and password are correct for analytics.diabetes-m.com'')"
    using a(5) r2 by (auto simp: setupResult_def split: if_splits)
  ultimately show ?thesis
    using a(1,2,3,4) r2 by auto
qed

text \<open>What the tool returns when \<^verbatim>\<open>authenticate\<close> returns.\<close>

lemma setup_of_authenticate:
  assumes "e \<noteq> []" "p \<noteq> []" "storeCredentials P H e p w = (Inr (), w1)"
    and "authenticate P H e p w1 = (Inr b, w2)"
  shows "executeSetupCredentials P H (SetupArgs e p) w =
      (Inr (setupResult H b
         (if b
          then ''Credentials configured and verified successfully. You can now use all Diabetes:M tools.''
          else ''Credentials saved but authentication failed. Please verify your email and password are correct for analytics.diabetes-m.com'')),
       w2)"
  using assms by (cases b) (simp_all add: executeSetupCredentials_def)

lemma setup_login_rejected:
  assumes ok: "platform_ok P" "host_ok H" and key: "availableKey H w \<noteq> None"
    and ne: "e \<noteq> []" "p \<noteq> []"
    and tok: "diskTokens w = None"
    and rej: "loginResponse H (loginCalls w) e p = LoginHttp cs st body" "\<not> httpOk st"
  shows "fst (executeSetupCredentials P H (SetupArgs e p) w) = Inr (setupResult H False
    ''Credentials saved but authentication failed. Please verify your email and password are correct for analytics.diabetes-m.com'')"
proof -
  from storeCredentials_stored[OF ok key, of e p] obtain w1 where
    w1: "storeCredentials P H e p w = (Inr (), w1)" "diskTokens w1 = diskTokens w"
       "loginCalls w1 = loginCalls w" "availableKey H w1 = availableKey H w"
    by blast
  from storeCredentials_stored[OF ok, of w1 e p] w1(4) key obtain w2 where
    w2: "storeCredentials P H e p w1 = (Inr (), w2)" "diskTokens w2 = diskTokens w1"
       "loginCalls w2 = loginCalls w1"
    by auto
  have "fst (sessionPart P H e p w2) = Inr False"
    using tok rej w1(2,3) w2(2,3)
    by (intro sessionPart_login_rejected[where cs = cs and st = st and body = body]) simp_all
  then obtain w3 where "sessionPart P H e p w2 = (Inr False, w3)"
    by (cases "sessionPart P H e p w2") simp
  then have "authenticate P H e p w1 = (Inr False, w3)"
    using w2(1) ne by (simp add: authenticate_def login_explicit)
  then show ?thesis
    using w1(1) ne by (simp add: executeSetupCredentials_def)
qed

text \<open>
  C10 (as amended). In a run of \<^verbatim>\<open>executeSetupCredentials\<close>, either nothing is written
  and no remote call is made (the call throws, the credentials file is as before), or
  the first thing that happens is the write of the credentials file, before any remote
  call. A result comes from that write followed by \<^verbatim>\<open>authenticate\<close>, and its
  \<^verbatim>\<open>success\<close> is what \<^verbatim>\<open>authenticate\<close> returned: when \<^verbatim>\<open>authenticate\<close> returns
  \<^verbatim>\<open>false\<close> the tool returns \<^verbatim>\<open>success: false\<close> with the message about failed
  authentication. In either case the credentials file then holds the new email and
  password as UTF-8 keeps them: exactly the strings given when they are well-formed.
\<close>

theorem setup_stores_before_verifying:
  assumes "executeSetupCredentials P H args w = (r, w')"
  shows "((isl r \<and> trace w' = trace w \<and> diskCredentials w' = diskCredentials w)
          \<or> (\<exists>evs. trace w' = trace w @ CredentialsWritten # evs))
       \<and> (\<forall>res email password.
             args = SetupArgs email password \<and> r = Inr res \<longrightarrow>
               (\<exists>w1. storeCredentials P H email password w = (Inr (), w1)
                   \<and> authenticate P H email password w1 = (Inr (sr_success res), w'))
               \<and> sr_message res =
                   (if sr_success res
                    then ''Credentials configured and verified successfully. You can now use all Diabetes:M tools.''
                    else ''Credentials saved but authentication failed. Please verify your email and password are correct for analytics.diabetes-m.com'')
               \<and> (platform_ok P \<and> host_ok H \<longrightarrow>
                    fst (getCredentials P H w')
                      = Some (utf8Decode (utf8Encode email), utf8Decode (utf8Encode password)))
               \<and> (platform_ok P \<and> host_ok H \<and> isWellFormed email \<and> isWellFormed password \<longrightarrow>
                    fst (getCredentials P H w') = Some (email, password)))
       \<and> (\<forall>email password w1 w2.
             args = SetupArgs email password \<and> email \<noteq> [] \<and> password \<noteq> []
             \<and> storeCredentials P H email password w = (Inr (), w1)
             \<and> authenticate P H email password w1 = (Inr False, w2) \<longrightarrow>
               w' = w2 \<and> (\<exists>res. r = Inr res \<and> \<not> sr_success res
                 \<and> sr_message res = ''Credentials saved but authentication failed. Please verify your email and password are correct for analytics.diabetes-m.com''))"
proof -
  have second: "(\<exists>w1. storeCredentials P H email password w = (Inr (), w1)
                   \<and> authenticate P H email password w1 = (Inr (sr_success res), w'))
               \<and> sr_message res =
                   (if sr_success res
                    then ''Credentials configured and verified successfully. You can now use all Diabetes:M tools.''
                    else ''Credentials saved but authentication failed. Please verify your email and password are correct for analytics.diabetes-m.com'')
               \<and> (platform_ok P \<and> host_ok H \<longrightarrow>
                    fst (getCredentials P H w')
                      = Some (utf8Decode (utf8Encode email), utf8Decode (utf8Encode password)))
               \<and> (platform_ok P \<and> host_ok H \<and> isWellFormed email \<and> isWellFormed password \<longrightarrow>
                    fst (getCredentials P H w') = Some (email, password))"
    if h: "args = SetupArgs email password" "r = Inr res" for res email password
  proof -
    note s = setup_result[OF assms[unfolded h]]
    then obtain w1 where a: "email \<noteq> []" "password \<noteq> []"
        "storeCredentials P H email password w = (Inr (), w1)"
        "authenticate P H email password w1 = (Inr (sr_success res), w')"
      by blast
    have g: "fst (getCredentials P H w')
        = Some (utf8Decode (utf8Encode email), utf8Decode (utf8Encode password))"
      if "platform_ok P" "host_ok H"
      using authenticate_keeps_credentials[OF a(4,1,2) that] .
    show ?thesis
      using s g by (auto simp: utf8_roundtrip)
  qed
  have third: "w' = w2 \<and> (\<exists>res. r = Inr res \<and> \<not> sr_success res
        \<and> sr_message res = ''Credentials saved but authentication failed. Please verify your email and password are correct for analytics.diabetes-m.com'')"
    if h: "args = SetupArgs email password" "email \<noteq> []" "password \<noteq> []"
      "storeCredentials P H email password w = (Inr (), w1)"
      "authenticate P H email password w1 = (Inr False, w2)"
    for email password w1 w2
    using assms setup_of_authenticate[OF h(2,3,4,5)] h(1) by (auto simp: setupResult_def)
  show ?thesis
    using setup_first_write[OF assms] second third by blast
qed

theorem setup_stores_before_verifying_witness:
  "\<not> sr_success (projr (fst (executeSetupCredentials toyPlatform linuxHost
        (SetupArgs [0x61] [0x62]) (initialWorld 0))))
   \<and> (\<exists>evs. trace (snd (executeSetupCredentials toyPlatform linuxHost
        (SetupArgs [0x61] [0x62]) (initialWorld 0))) = CredentialsWritten # evs)
   \<and> fst (getCredentials toyPlatform linuxHost
        (snd (executeSetupCredentials toyPlatform linuxHost
           (SetupArgs [0x61] [0x62]) (initialWorld 0)))) = Some ([0x61], [0x62])
   \<and> (\<exists>w1. storeCredentials toyPlatform linuxHost [0x61] [0x62] (initialWorld 0) = (Inr (), w1)
         \<and> authenticate toyPlatform linuxHost [0x61] [0x62] w1
             = (Inr False, snd (executeSetupCredentials toyPlatform linuxHost
                  (SetupArgs [0x61] [0x62]) (initialWorld 0))))"
proof -
  define res where "res = setupResult linuxHost False
    ''Credentials saved but authentication failed. Please verify your email and password are correct for analytics.diabetes-m.com''"
  let ?x = "executeSetupCredentials toyPlatform linuxHost (SetupArgs [0x61] [0x62]) (initialWorld 0)"
  have key: "availableKey linuxHost (initialWorld 0) \<noteq> None"
    by (simp add: availableKey_def initialWorld_def linuxHost_def)
  have wf: "isWellFormed [0x61]" "isWellFormed [0x62]"
    by (simp_all add: isHighSurrogate_def isLowSurrogate_def)
  have tok: "diskTokens (initialWorld 0) = None" "trace (initialWorld 0) = []"
    by (simp_all add: initialWorld_def)
  have l: "loginResponse linuxHost (loginCalls (initialWorld 0)) [0x61] [0x62]
             = LoginHttp [] 401 (JsonBody None None)" "\<not> httpOk 401"
    by (simp_all add: linuxHost_def httpOk_def)
  have r: "fst ?x = Inr res"
    unfolding res_def
    by (rule setup_login_rejected[OF toy_ok linux_ok key _ _ tok(1) l]) simp_all
  then have x: "?x = (Inr res, snd ?x)"
    by (metis prod.collapse)
  have s: "\<not> sr_success res"
    by (simp add: res_def setupResult_def)
  note T = setup_stores_before_verifying[OF x]
  have 1: "\<exists>evs. trace (snd ?x) = CredentialsWritten # evs"
    using T[THEN conjunct1] tok(2) by simp
  note U = T[THEN conjunct2, THEN conjunct1, rule_format, OF conjI[OF refl refl]]
  have 2: "\<exists>w1. storeCredentials toyPlatform linuxHost [0x61] [0x62] (initialWorld 0) = (Inr (), w1)
         \<and> authenticate toyPlatform linuxHost [0x61] [0x62] w1 = (Inr False, snd ?x)"
    using U[THEN conjunct1] s by simp
  have 3: "fst (getCredentials toyPlatform linuxHost (snd ?x)) = Some ([0x61], [0x62])"
    using U[THEN conjunct2, THEN conjunct2, THEN conjunct2] toy_ok linux_ok wf by simp
  show ?thesis
    using 1 2 3 s r by simp
qed

text \<open>
  The claim as written has the new credentials on disk whatever they are. A password
  that consists of the lone surrogate U+D800 passes the schema and is stored; the
  server refuses the login; what the credentials file then holds decrypts to the
  replacement character U+FFFD, not to the password that was given.
\<close>

theorem setup_lone_surrogate_not_persisted:
  "fst (executeSetupCredentials toyPlatform linuxHost (SetupArgs [0x61] [0xD800]) (initialWorld 0))
     = Inr (setupResult linuxHost False
         ''Credentials saved but authentication failed. Please verify your email and password are correct for analytics.diabetes-m.com'')
   \<and> fst (getCredentials toyPlatform linuxHost
        (snd (executeSetupCredentials toyPlatform linuxHost
           (SetupArgs [0x61] [0xD800]) (initialWorld 0)))) = Some ([0x61], [0xFFFD])"
proof -
  let ?x = "executeSetupCredentials toyPlatform linuxHost (SetupArgs [0x61] [0xD800]) (initialWorld 0)"
  have key: "availableKey linuxHost (initialWorld 0) \<noteq> None"
    by (simp add: availableKey_def initialWorld_def linuxHost_def)
  have tok: "diskTokens (initialWorld 0) = None"
    by (simp add: initialWorld_def)
  have l: "loginResponse linuxHost (loginCalls (initialWorld 0)) [0x61] [0xD800]
             = LoginHttp [] 401 (JsonBody None None)" "\<not> httpOk 401"
    by (simp_all add: linuxHost_def httpOk_def)
  have r: "fst ?x = Inr (setupResult linuxHost False
    ''Credentials saved but authentication failed. Please verify your email and password are correct for analytics.diabetes-m.com'')"
    by (rule setup_login_rejected[OF toy_ok linux_ok key _ _ tok l]) simp_all
  then have x: "?x = (Inr (setupResult linuxHost False
    ''Credentials saved but authentication failed. Please verify your email and password are correct for analytics.diabetes-m.com''), snd ?x)"
    by (metis prod.collapse)
  from setup_result[OF x] obtain w1 b where
    a: "authenticate toyPlatform linuxHost [0x61] [0xD800] w1 = (Inr b, snd ?x)"
    by blast
  have u1: "utf8Decode (utf8Encode [0x61]) = [0x61]"
    by (rule utf8_roundtrip) (simp add: isHighSurrogate_def isLowSurrogate_def)
  have u2: "utf8Decode (utf8Encode [0xD800]) = [0xFFFD]"
    by (simp add: utf8Encode_def utf8Decode_def loneUnit_def isHighSurrogate_def utf8Bytes_def
          utf8Next_def isCont_def codeUnits_def)
  have "fst (getCredentials toyPlatform linuxHost (snd ?x)) = Some ([0x61], [0xFFFD])"
    using authenticate_keeps_credentials[OF a _ _ toy_ok linux_ok] u1 u2 by simp
  then show ?thesis
    using r by simp
qed

end
